theory Spec2Isabelle
  imports Main "HOL-Library.Word"
begin

section \<open>Machine integers\<close>

text \<open>
  The fields and parameters of \<^verbatim>\<open>ImageAsset\<close> are \<^verbatim>\<open>int32_t\<close>; byte counts are
  \<^verbatim>\<open>size_t\<close> (64 bit) and the arguments of \<^verbatim>\<open>ScaleImage\<close> are \<^verbatim>\<open>uint32_t\<close>.
  Values are kept as \<open>int\<close> or \<open>nat\<close> and every arithmetic result is reduced to its
  width where the source computes it: \<open>i32\<close> is the two's complement wrap-around of an
  \<^verbatim>\<open>int32_t\<close> result, \<open>u32\<close> and \<open>size_t\<close> are the conversions to the unsigned types.
\<close>

definition i32 :: "int \<Rightarrow> int" where
  "i32 v = (v + 2147483648) mod 4294967296 - 2147483648"

definition u32 :: "int \<Rightarrow> nat" where
  "u32 v = nat (v mod 4294967296)"

definition size_t :: "int \<Rightarrow> nat" where
  "size_t v = nat (v mod 18446744073709551616)"

definition PTRDIFF_MAX :: nat where
  "PTRDIFF_MAX = 9223372036854775807"

section \<open>Memory\<close>

text \<open>
  Pixel buffers live in a store of blocks. A pointer is the address of a block
  (\<open>None\<close> is \<^verbatim>\<open>nullptr\<close>) and an access names the block and an offset into it. A byte
  of a block is \<open>None\<close> while it is uninitialised (\<^verbatim>\<open>new uint8_t[n]\<close> does not fill the
  array). An access outside a live block is undefined behaviour in C++ and ends the
  run with \<open>memory_fault\<close>; \<^verbatim>\<open>new\<close> of more than \<open>PTRDIFF_MAX\<close> bytes throws,
  which ends the run with \<open>bad_alloc\<close>.
\<close>

type_synonym byte = "8 word"
type_synonym cell = "byte option"
type_synonym addr = nat
type_synonym ptr = "addr option"

datatype abort = bad_alloc | memory_fault

type_synonym heap = "cell list option list"

text \<open>
  The store lists its blocks by address; a released block leaves \<open>None\<close> at its
  address, and \<^verbatim>\<open>new\<close> takes the next address, so no address is handed out twice.
\<close>

definition blocks :: "heap \<Rightarrow> addr \<Rightarrow> cell list option" where
  "blocks h p = (if p < length h then h ! p else None)"

definition put :: "heap \<Rightarrow> addr \<Rightarrow> cell list option \<Rightarrow> heap" where
  "put h p v = h[p := v]"

definition new_array :: "heap \<Rightarrow> nat \<Rightarrow> abort + heap \<times> addr" where
  "new_array h n =
     (if PTRDIFF_MAX < n then Inl bad_alloc
      else Inr (h @ [Some (replicate n None)], length h))"

definition delete_array :: "heap \<Rightarrow> addr \<Rightarrow> abort + heap" where
  "delete_array h p =
     (case blocks h p of
        None \<Rightarrow> Inl memory_fault
      | Some cs \<Rightarrow> Inr (put h p None))"

text \<open>
  \<^verbatim>\<open>memcpy(dst + doff, src + soff, n)\<close>. A call with \<open>n = 0\<close> touches no memory.
\<close>

definition memcpy :: "heap \<Rightarrow> ptr \<Rightarrow> int \<Rightarrow> ptr \<Rightarrow> int \<Rightarrow> nat \<Rightarrow> abort + heap" where
  "memcpy h dst doff src soff n =
     (if n = 0 then Inr h
      else case dst of
        None \<Rightarrow> Inl memory_fault
      | Some d \<Rightarrow>
         (case src of
            None \<Rightarrow> Inl memory_fault
          | Some s \<Rightarrow>
             (case blocks h d of
                None \<Rightarrow> Inl memory_fault
              | Some dcs \<Rightarrow>
                 (case blocks h s of
                    None \<Rightarrow> Inl memory_fault
                  | Some scs \<Rightarrow>
                     if 0 \<le> doff \<and> nat doff + n \<le> length dcs \<and>
                        0 \<le> soff \<and> nat soff + n \<le> length scs \<and>
                        \<not> (d = s \<and> nat doff < nat soff + n \<and> nat soff < nat doff + n)
                     then Inr (put h d (Some
                             (take (nat doff) dcs @ take n (drop (nat soff) scs) @
                              drop (nat doff + n) dcs)))
                     else Inl memory_fault))))"

text \<open>The bytes a pointer leads to; \<^verbatim>\<open>nullptr\<close> leads to none.\<close>

definition deref :: "heap \<Rightarrow> ptr \<Rightarrow> cell list" where
  "deref h p =
     (case p of
        None \<Rightarrow> []
      | Some a \<Rightarrow> (case blocks h a of None \<Rightarrow> [] | Some cs \<Rightarrow> cs))"

section \<open>The error handler\<close>

text \<open>
  Modelled from the spec: \<^verbatim>\<open>ErrorHandler\<close> (declared in \<^verbatim>\<open>../common\<close>, not part of
  the sources) is the single-slot holder of the most recent message; \<^verbatim>\<open>Clear\<close> empties
  it and \<^verbatim>\<open>SetError\<close> stores a message. The empty string is "no error". The field
  \<open>history\<close> records the calls made on the handler, in order; no function reads it.
\<close>

datatype handler_call = ClearCall | SetErrorCall string

record ErrorHandler =
  error :: string
  history :: "handler_call list"

definition Clear :: "ErrorHandler \<Rightarrow> ErrorHandler" where
  "Clear e = \<lparr>error = [], history = history e @ [ClearCall]\<rparr>"

definition SetError :: "ErrorHandler \<Rightarrow> string \<Rightarrow> ErrorHandler" where
  "SetError e m = \<lparr>error = m, history = history e @ [SetErrorCall m]\<rparr>"

definition ERROR_STR_IMAGE_NOT_LOADED :: string where
  "ERROR_STR_IMAGE_NOT_LOADED = ''image asset is not loaded''"

definition ERROR_STR_IMAGE_SIZE_OVERFLOW :: string where
  "ERROR_STR_IMAGE_SIZE_OVERFLOW = ''range exceeds image size''"

section \<open>The asset\<close>

text \<open>
  The members \<^verbatim>\<open>errorHandler_\<close>, \<^verbatim>\<open>buffer_\<close>, \<^verbatim>\<open>width_\<close>, \<^verbatim>\<open>height_\<close> and
  \<^verbatim>\<open>channelCount_\<close> are written with a prime in place of the trailing underscore.
\<close>

datatype BufferSource = Self | Stb

record Buffer =
  buffer :: ptr
  source :: BufferSource

record ImageAsset =
  errorHandler' :: ErrorHandler
  buffer' :: Buffer
  width' :: int
  height' :: int
  channelCount' :: int

definition AllocateBuffer :: "heap \<Rightarrow> nat \<Rightarrow> abort + heap \<times> Buffer" where
  "AllocateBuffer h sz =
     (if sz = 0 then Inr (h, \<lparr>buffer = None, source = Self\<rparr>)
      else case new_array h sz of
        Inl e \<Rightarrow> Inl e
      | Inr (h', p) \<Rightarrow> Inr (h', \<lparr>buffer = Some p, source = Self\<rparr>))"

text \<open>
  \<^verbatim>\<open>delete[]\<close> and \<^verbatim>\<open>stbi_image_free\<close> both give the block back to the one store.
\<close>

definition stbi_image_free :: "heap \<Rightarrow> addr \<Rightarrow> abort + heap" where
  "stbi_image_free h p = delete_array h p"

definition ReleaseBuffer :: "heap \<Rightarrow> Buffer \<Rightarrow> abort + heap \<times> Buffer" where
  "ReleaseBuffer h b =
     (case buffer b of
        None \<Rightarrow> Inr (h, b)
      | Some p \<Rightarrow>
         (case (case source b of Self \<Rightarrow> delete_array h p | Stb \<Rightarrow> stbi_image_free h p) of
            Inl e \<Rightarrow> Inl e
          | Inr h' \<Rightarrow> Inr (h', b\<lparr>buffer := None\<rparr>)))"

text \<open>
  Modelled from the spec: the constructor is defaulted and the class declaration is
  not part of the sources; a new instance holds no buffer and no error. Its metadata
  is taken as 0.
\<close>

definition ImageAsset_new :: ImageAsset where
  "ImageAsset_new =
     \<lparr>errorHandler' = \<lparr>error = [], history = []\<rparr>,
      buffer' = \<lparr>buffer = None, source = Self\<rparr>,
      width' = 0, height' = 0, channelCount' = 0\<rparr>"

definition GetError :: "ImageAsset \<Rightarrow> string" where
  "GetError this = error (errorHandler' this)"

text \<open>\<^verbatim>\<open>Load(uint8_t* pixelData, size_t size, int32_t width, int32_t height, int32_t channelCount)\<close>\<close>

definition Load_pixels ::
  "heap \<Rightarrow> ImageAsset \<Rightarrow> ptr \<Rightarrow> nat \<Rightarrow> int \<Rightarrow> int \<Rightarrow> int \<Rightarrow> abort + heap \<times> ImageAsset" where
  "Load_pixels h this pixelData sz width height channelCount =
     (let this = this\<lparr>errorHandler' := Clear (errorHandler' this)\<rparr> in
      case ReleaseBuffer h (buffer' this) of
        Inl e \<Rightarrow> Inl e
      | Inr (h, released) \<Rightarrow>
         (case AllocateBuffer h sz of
            Inl e \<Rightarrow> Inl e
          | Inr (h, newBuffer) \<Rightarrow>
             (case memcpy h (buffer newBuffer) 0 pixelData 0 sz of
                Inl e \<Rightarrow> Inl e
              | Inr h \<Rightarrow>
                 Inr (h, this\<lparr>buffer' := newBuffer, width' := width, height' := height,
                               channelCount' := channelCount\<rparr>))))"

definition GetWidth :: "ImageAsset \<Rightarrow> ImageAsset \<times> int" where
  "GetWidth this =
     (let this = this\<lparr>errorHandler' := Clear (errorHandler' this)\<rparr> in
      if buffer (buffer' this) = None
      then (this\<lparr>errorHandler' := SetError (errorHandler' this) ERROR_STR_IMAGE_NOT_LOADED\<rparr>, - 1)
      else (this, width' this))"

definition GetHeight :: "ImageAsset \<Rightarrow> ImageAsset \<times> int" where
  "GetHeight this =
     (let this = this\<lparr>errorHandler' := Clear (errorHandler' this)\<rparr> in
      if buffer (buffer' this) = None
      then (this\<lparr>errorHandler' := SetError (errorHandler' this) ERROR_STR_IMAGE_NOT_LOADED\<rparr>, - 1)
      else (this, height' this))"

definition GetChannelCount :: "ImageAsset \<Rightarrow> ImageAsset \<times> int" where
  "GetChannelCount this =
     (let this = this\<lparr>errorHandler' := Clear (errorHandler' this)\<rparr> in
      if buffer (buffer' this) = None
      then (this\<lparr>errorHandler' := SetError (errorHandler' this) ERROR_STR_IMAGE_NOT_LOADED\<rparr>, - 1)
      else (this, channelCount' this))"

text \<open>
  The row loop of \<^verbatim>\<open>Clip\<close>: one \<^verbatim>\<open>memcpy\<close> per row \<open>iy\<close>, the offsets computed in
  \<^verbatim>\<open>int32_t\<close> as the source does.
\<close>

definition Clip_row ::
  "ptr \<Rightarrow> ptr \<Rightarrow> int \<Rightarrow> int \<Rightarrow> int \<Rightarrow> int \<Rightarrow> int \<Rightarrow> nat \<Rightarrow> abort + heap \<Rightarrow> abort + heap" where
  "Clip_row newp oldp newStrideSize srcStrideSize startLine x channels iy acc =
     (case acc of
        Inl e \<Rightarrow> Inl e
      | Inr h \<Rightarrow>
         memcpy h newp (i32 (newStrideSize * int iy))
           oldp (i32 (srcStrideSize * i32 (int iy + startLine)) + i32 (x * channels))
           (size_t newStrideSize))"

definition Clip :: "heap \<Rightarrow> ImageAsset \<Rightarrow> int \<Rightarrow> int \<Rightarrow> int \<Rightarrow> int \<Rightarrow> abort + heap \<times> ImageAsset" where
  "Clip h this x y width height =
     (let this = this\<lparr>errorHandler' := Clear (errorHandler' this)\<rparr> in
      if buffer (buffer' this) = None
      then Inr (h, this\<lparr>errorHandler' := SetError (errorHandler' this) ERROR_STR_IMAGE_NOT_LOADED\<rparr>)
      else
        let srcStrideSize = i32 (width' this * channelCount' this);
            newStrideSize = i32 (width * channelCount' this);
            startLine = i32 (i32 (height' this - y) - height);
            endLine = i32 (height' this - y);
            startPixel = x;
            endPixel = i32 (x + width)
        in
        if startLine < 0 \<or> startLine > height' this \<or>
           endLine < 0 \<or> endLine > height' this \<or>
           startPixel < 0 \<or> startPixel > width' this \<or>
           endPixel < 0 \<or> endPixel > width' this
        then Inr (h, this\<lparr>errorHandler' := SetError (errorHandler' this) ERROR_STR_IMAGE_SIZE_OVERFLOW\<rparr>)
        else
          case AllocateBuffer h (size_t (i32 (i32 (width * height) * channelCount' this))) of
            Inl e \<Rightarrow> Inl e
          | Inr (h1, newBuffer) \<Rightarrow>
             (case fold (Clip_row (buffer newBuffer) (buffer (buffer' this)) newStrideSize
                           srcStrideSize startLine x (channelCount' this))
                        [0..<nat height] (Inr h1) of
                Inl e \<Rightarrow> Inl e
              | Inr h2 \<Rightarrow>
                 (case ReleaseBuffer h2 (buffer' this) of
                    Inl e \<Rightarrow> Inl e
                  | Inr (h3, released) \<Rightarrow>
                     Inr (h3, this\<lparr>buffer' := newBuffer, width' := width, height' := height\<rparr>))))"

section \<open>Single-precision arithmetic\<close>

text \<open>
  \<^verbatim>\<open>ScaleImage\<close> computes its source coordinates in \<^verbatim>\<open>float\<close> (IEEE 754 binary32,
  round to nearest, ties to even). A finite non-negative \<^verbatim>\<open>float\<close> is a pair \<open>(m, e)\<close>
  standing for \<open>m * 2 ^ e\<close>, with a significand \<open>m\<close> of at most 24 bits. Every operand
  of \<^verbatim>\<open>ScaleImage\<close> is a quotient or product of 32-bit integers, far from the
  subnormal and overflow ranges, so rounding to 24 significant bits is all of
  binary32 that the function meets. A division by zero gives a value the loops never
  read (they run zero times when a destination extent is 0).
\<close>

type_synonym float = "nat \<times> int"

fun bitlen :: "nat \<Rightarrow> nat" where
  "bitlen n = (if n = 0 then 0 else Suc (bitlen (n div 2)))"

definition round_nearest_even :: "nat \<Rightarrow> nat \<Rightarrow> nat" where
  "round_nearest_even a b =
     (let q = a div b; r = a mod b in
      if 2 * r < b then q else if b < 2 * r then Suc q else if even q then q else Suc q)"

text \<open>The \<^verbatim>\<open>float\<close> nearest to the quotient \<open>a / b\<close>.\<close>

definition f32_of_quotient :: "nat \<Rightarrow> nat \<Rightarrow> float" where
  "f32_of_quotient a b =
     (if a = 0 then (0, 0)
      else
        let k = int (bitlen a) - int (bitlen b);
            e = (if b * 2 ^ nat k \<le> a * 2 ^ nat (- k) then k else k - 1)
        in (round_nearest_even (a * 2 ^ nat (23 - e)) (b * 2 ^ nat (e - 23)), e - 23))"

definition f32_of_nat :: "nat \<Rightarrow> float" where
  "f32_of_nat n = f32_of_quotient n 1"

fun f32_div :: "float \<Rightarrow> float \<Rightarrow> float" where
  "f32_div (m1, e1) (m2, e2) =
     f32_of_quotient (m1 * 2 ^ nat (e1 - e2)) (m2 * 2 ^ nat (e2 - e1))"

fun scale_by :: "int \<Rightarrow> float \<Rightarrow> float" where
  "scale_by k (m, e) = (m, e + k)"

fun f32_mul :: "float \<Rightarrow> float \<Rightarrow> float" where
  "f32_mul (m1, e1) (m2, e2) = scale_by (e1 + e2) (f32_of_quotient (m1 * m2) 1)"

text \<open>The conversion \<^verbatim>\<open>(int) f\<close> truncates.\<close>

fun int_of_f32 :: "float \<Rightarrow> nat" where
  "int_of_f32 (m, e) = m * 2 ^ nat e div 2 ^ nat (- e)"

section \<open>Resize\<close>

text \<open>
  \<^verbatim>\<open>ScaleImage<PixelSize>\<close> reads the source array and writes the destination array;
  the destination is passed in and returned. The pixel indices are \<^verbatim>\<open>uint32_t\<close>.
  \<open>ScaleImage_byte\<close> is one step of the \<^verbatim>\<open>static_for\<close> over the bytes of a pixel and
  \<open>ScaleImage_pixel\<close> the body of the two loops.
\<close>

definition ScaleImage_byte ::
  "nat \<Rightarrow> cell list \<Rightarrow> nat \<Rightarrow> nat \<Rightarrow> nat \<Rightarrow> abort + cell list \<Rightarrow> abort + cell list" where
  "ScaleImage_byte PixelSize srcBuffer destPixelBegin srcPixelBegin i acc =
     (case acc of
        Inl e \<Rightarrow> Inl e
      | Inr destBuffer \<Rightarrow>
         (let di = (destPixelBegin * PixelSize + i) mod 4294967296;
              si = (srcPixelBegin * PixelSize + i) mod 4294967296
          in if si < length srcBuffer \<and> di < length destBuffer
             then Inr (destBuffer[di := srcBuffer ! si])
             else Inl memory_fault))"

definition ScaleImage_pixel ::
  "nat \<Rightarrow> cell list \<Rightarrow> nat \<Rightarrow> nat \<Rightarrow> float \<Rightarrow> float \<Rightarrow> nat \<Rightarrow> nat \<Rightarrow>
   abort + cell list \<Rightarrow> abort + cell list" where
  "ScaleImage_pixel PixelSize srcBuffer srcWidth destWidth scaleX scaleY ix iy acc =
     (let px = int_of_f32 (f32_mul (f32_of_nat ix) scaleX);
          py = int_of_f32 (f32_mul (f32_of_nat iy) scaleY);
          destPixelBegin = (destWidth * iy + ix) mod 4294967296;
          srcPixelBegin = (srcWidth * py + px) mod 4294967296
      in fold (ScaleImage_byte PixelSize srcBuffer destPixelBegin srcPixelBegin)
           [0..<PixelSize] acc)"

definition ScaleImage ::
  "nat \<Rightarrow> cell list \<Rightarrow> cell list \<Rightarrow> nat \<Rightarrow> nat \<Rightarrow> nat \<Rightarrow> nat \<Rightarrow> abort + cell list" where
  "ScaleImage PixelSize srcBuffer destBuffer srcWidth srcHeight destWidth destHeight =
     (let scaleX = f32_div (f32_of_nat srcWidth) (f32_of_nat destWidth);
          scaleY = f32_div (f32_of_nat srcHeight) (f32_of_nat destHeight)
      in
      fold (\<lambda>ix. fold (ScaleImage_pixel PixelSize srcBuffer srcWidth destWidth scaleX scaleY ix)
                    [0..<destHeight])
        [0..<destWidth] (Inr destBuffer))"

text \<open>\<^verbatim>\<open>ScaleImage\<close> on two pointers into the store.\<close>

definition ScaleImage_at ::
  "nat \<Rightarrow> heap \<Rightarrow> ptr \<Rightarrow> ptr \<Rightarrow> nat \<Rightarrow> nat \<Rightarrow> nat \<Rightarrow> nat \<Rightarrow> abort + heap" where
  "ScaleImage_at PixelSize h srcBuffer destBuffer srcWidth srcHeight destWidth destHeight =
     (case ScaleImage PixelSize (deref h srcBuffer) (deref h destBuffer)
             srcWidth srcHeight destWidth destHeight of
        Inl e \<Rightarrow> Inl e
      | Inr cs \<Rightarrow>
         Inr (case destBuffer of
                None \<Rightarrow> h
              | Some d \<Rightarrow>
                 (case blocks h d of
                    None \<Rightarrow> h
                  | Some old \<Rightarrow> put h d (Some cs))))"

definition Resize :: "heap \<Rightarrow> ImageAsset \<Rightarrow> int \<Rightarrow> int \<Rightarrow> abort + heap \<times> ImageAsset" where
  "Resize h this width height =
     (let this = this\<lparr>errorHandler' := Clear (errorHandler' this)\<rparr> in
      if buffer (buffer' this) = None
      then Inr (h, this\<lparr>errorHandler' := SetError (errorHandler' this) ERROR_STR_IMAGE_NOT_LOADED\<rparr>)
      else
        case AllocateBuffer h (size_t (i32 (i32 (width * height) * channelCount' this))) of
          Inl e \<Rightarrow> Inl e
        | Inr (h1, newBuffer) \<Rightarrow>
           (case (if channelCount' this = 3
                  then ScaleImage_at 3 h1 (buffer (buffer' this)) (buffer newBuffer)
                         (u32 (width' this)) (u32 (height' this)) (u32 width) (u32 height)
                  else if channelCount' this = 4
                  then ScaleImage_at 4 h1 (buffer (buffer' this)) (buffer newBuffer)
                         (u32 (width' this)) (u32 (height' this)) (u32 width) (u32 height)
                  else Inr h1) of
              Inl e \<Rightarrow> Inl e
            | Inr h2 \<Rightarrow>
               (case ReleaseBuffer h2 (buffer' this) of
                  Inl e \<Rightarrow> Inl e
                | Inr (h3, released) \<Rightarrow>
                   Inr (h3, this\<lparr>width' := width, height' := height, buffer' := newBuffer\<rparr>))))"

definition Unload :: "heap \<Rightarrow> ImageAsset \<Rightarrow> abort + heap \<times> ImageAsset" where
  "Unload h this =
     (let this = this\<lparr>errorHandler' := Clear (errorHandler' this)\<rparr> in
      if buffer (buffer' this) = None
      then Inr (h, this\<lparr>errorHandler' := SetError (errorHandler' this) ERROR_STR_IMAGE_NOT_LOADED\<rparr>)
      else
        case ReleaseBuffer h (buffer' this) of
          Inl e \<Rightarrow> Inl e
        | Inr (h', released) \<Rightarrow>
           Inr (h', this\<lparr>buffer' := released, width' := 0, height' := 0, channelCount' := 0\<rparr>))"

definition CopyTo :: "heap \<Rightarrow> ImageAsset \<Rightarrow> ptr \<Rightarrow> abort + heap \<times> ImageAsset" where
  "CopyTo h this dest =
     (let this = this\<lparr>errorHandler' := Clear (errorHandler' this)\<rparr> in
      if buffer (buffer' this) = None
      then Inr (h, this\<lparr>errorHandler' := SetError (errorHandler' this) ERROR_STR_IMAGE_NOT_LOADED\<rparr>)
      else
        case memcpy h dest 0 (buffer (buffer' this)) 0
               (size_t (i32 (i32 (width' this * height' this) * channelCount' this))) of
          Inl e \<Rightarrow> Inl e
        | Inr h' \<Rightarrow> Inr (h', this))"

text \<open>
  \<^verbatim>\<open>Clone\<close> is a \<^verbatim>\<open>const\<close> member: it returns the store and the new instance, and
  has no way to change the instance it is called on.
\<close>

definition Clone :: "heap \<Rightarrow> ImageAsset \<Rightarrow> abort + heap \<times> ImageAsset" where
  "Clone h this =
     Load_pixels h ImageAsset_new (buffer (buffer' this))
       (size_t (i32 (i32 (width' this * height' this) * channelCount' this)))
       (width' this) (height' this) (channelCount' this)"

section \<open>The decoders and the file system\<close>

text \<open>
  The decoding libraries (stb_image, libwebp, TurboJPEG), the C file functions and the
  helpers of \<^verbatim>\<open>Utils\<close> are outside the sources. The functions that call them take
  them as the parameter \<open>env\<close>: each field answers one external call. An out-parameter
  is part of the answer: the values the callee stored through \<^verbatim>\<open>&width_\<close>,
  \<^verbatim>\<open>&height_\<close> and \<^verbatim>\<open>&channelCount_\<close>, which a failing call may or may not have
  stored.
\<close>

datatype stb_result =
  stb_null string "(int \<times> int \<times> int) option"
| stb_pixels "byte list" int int int

datatype tj_header =
  tj_header_failed string "(int \<times> int) option"
| tj_header_ok int int

datatype file_io =
  fopen_failed string
| fseek_end_failed
| fseek_set_failed
| fread_failed
| file_data "byte list"

record WebPRGBABuffer =
  rgba :: int
  stride :: int
  size :: int
  out_width :: int
  out_height :: int

record env =
  IsWebPFileData :: "byte list \<Rightarrow> bool"
  IsJpegFileData :: "byte list \<Rightarrow> bool"
  stbi_load :: "string \<Rightarrow> stb_result"
  stbi_load_from_memory :: "byte list \<Rightarrow> stb_result"
  WebPGetInfo :: "byte list \<Rightarrow> (int \<times> int) option"
  WebPInitDecoderConfig :: bool
  WebPGetFeatures :: "byte list \<Rightarrow> nat"
  WebPDecode :: "byte list \<Rightarrow> WebPRGBABuffer \<Rightarrow> cell list \<Rightarrow> nat \<times> cell list"
  tjInitTransform :: "string option"
  tjTransform :: "byte list \<Rightarrow> string + byte list"
  tjInitDecompress :: "string option"
  tjDecompressHeader3 :: "byte list \<Rightarrow> tj_header"
  tjDecompress2 :: "byte list \<Rightarrow> int \<Rightarrow> int \<Rightarrow> cell list \<Rightarrow> string option \<times> cell list"
  sniffed_file :: "string \<Rightarrow> file_io"
  loaded_file :: "string \<Rightarrow> file_io"
  errno_text :: "string \<Rightarrow> string"

text \<open>
  \<open>WebPGetFeatures\<close> and \<open>WebPDecode\<close> answer a \<^verbatim>\<open>VP8StatusCode\<close>, 0 being
  \<^verbatim>\<open>VP8_STATUS_OK\<close>; \<open>WebPDecode\<close> and \<open>tjDecompress2\<close> also answer the bytes they
  left in the output array. \<open>tjInitTransform\<close> and \<open>tjInitDecompress\<close> answer \<open>None\<close>
  for a handle and the text of \<^verbatim>\<open>tjGetErrorStr()\<close> otherwise. \<open>sniffed_file\<close> is what
  the open, seek and read calls of \<^verbatim>\<open>Load(path)\<close> meet, \<open>loaded_file\<close> what those of
  \<^verbatim>\<open>LoadWebPFromFile\<close> and \<^verbatim>\<open>LoadJpegFromFile\<close> meet afterwards.

  Modelled from the spec: the macro \<^verbatim>\<open>ERROR_HANDLER_ERRNO(handler, text)\<close> of
  \<^verbatim>\<open>Utils.hpp\<close> stores one message, which describes the failed step and the system
  error; \<open>errno_text\<close> is that message.
\<close>

definition ERROR_HANDLER_ERRNO :: "env \<Rightarrow> ErrorHandler \<Rightarrow> string \<Rightarrow> ErrorHandler" where
  "ERROR_HANDLER_ERRNO ev e m = SetError e (errno_text ev m)"

fun digit_string :: "nat \<Rightarrow> string" where
  "digit_string n =
     (if n < 10 then [''0123456789'' ! n]
      else digit_string (n div 10) @ [''0123456789'' ! (n mod 10)])"

definition to_string :: "nat \<Rightarrow> string" where
  "to_string n = digit_string n"

text \<open>
  A block that a decoder allocated and filled (\<^verbatim>\<open>stbi_load\<close> returns one), and the
  release of a local \<^verbatim>\<open>std::unique_ptr\<close> when its scope ends.
\<close>

definition decoder_block :: "heap \<Rightarrow> byte list \<Rightarrow> heap \<times> addr" where
  "decoder_block h bs =
     (h @ [Some (map Some bs)], length h)"

definition scope_exit :: "heap \<Rightarrow> addr \<Rightarrow> heap" where
  "scope_exit h p = put h p None"

definition stb_stored :: "ImageAsset \<Rightarrow> (int \<times> int \<times> int) option \<Rightarrow> ImageAsset" where
  "stb_stored this out =
     (case out of
        None \<Rightarrow> this
      | Some (w, h, c) \<Rightarrow> this\<lparr>width' := w, height' := h, channelCount' := c\<rparr>)"

definition stb_finish :: "heap \<Rightarrow> ImageAsset \<Rightarrow> stb_result \<Rightarrow> abort + heap \<times> ImageAsset" where
  "stb_finish h this r =
     (case r of
        stb_null reason out \<Rightarrow>
          Inr (h, (stb_stored this out)
                    \<lparr>errorHandler' := SetError (errorHandler' this) reason\<rparr>)
      | stb_pixels bs w ht c \<Rightarrow>
         (case decoder_block h bs of (h1, data) \<Rightarrow>
            (let this = this\<lparr>width' := w, height' := ht, channelCount' := c\<rparr> in
             (case ReleaseBuffer h1 (buffer' this) of
                Inl e \<Rightarrow> Inl e
              | Inr (h2, released) \<Rightarrow>
                 Inr (h2, this\<lparr>buffer' := \<lparr>buffer = Some data, source = Stb\<rparr>\<rparr>)))))"

definition LoadFromFile :: "env \<Rightarrow> heap \<Rightarrow> ImageAsset \<Rightarrow> string \<Rightarrow> abort + heap \<times> ImageAsset" where
  "LoadFromFile ev h this path =
     (let this = this\<lparr>errorHandler' := Clear (errorHandler' this)\<rparr> in
      stb_finish h this (stbi_load ev path))"

definition LoadFile :: "env \<Rightarrow> heap \<Rightarrow> ImageAsset \<Rightarrow> byte list \<Rightarrow> abort + heap \<times> ImageAsset" where
  "LoadFile ev h this fileData =
     (let this = this\<lparr>errorHandler' := Clear (errorHandler' this)\<rparr> in
      stb_finish h this (stbi_load_from_memory ev fileData))"

text \<open>
  \<^verbatim>\<open>LoadWebP\<close>. \<^verbatim>\<open>WebPGetInfo\<close> stores through \<^verbatim>\<open>&width_\<close> and \<^verbatim>\<open>&height_\<close>; the
  output array is a local \<^verbatim>\<open>std::unique_ptr\<close>, released on every early return.
\<close>

definition LoadWebP :: "env \<Rightarrow> heap \<Rightarrow> ImageAsset \<Rightarrow> byte list \<Rightarrow> abort + heap \<times> ImageAsset" where
  "LoadWebP ev h this fileData =
     (let this = this\<lparr>errorHandler' := Clear (errorHandler' this)\<rparr> in
      case WebPGetInfo ev fileData of
        None \<Rightarrow>
          Inr (h, this\<lparr>errorHandler' := SetError (errorHandler' this) ''Failed to get webp info''\<rparr>)
      | Some (w, ht) \<Rightarrow>
         (let this = this\<lparr>width' := w, height' := ht, channelCount' := 4\<rparr> in
          (case new_array h (size_t (i32 (i32 (width' this * height' this) * channelCount' this))) of
             Inl e \<Rightarrow> Inl e
           | Inr (h1, p) \<Rightarrow>
              if \<not> WebPInitDecoderConfig ev
              then Inr (scope_exit h1 p,
                     this\<lparr>errorHandler' :=
                       SetError (errorHandler' this) ''Failed to initialize decoder config''\<rparr>)
              else if WebPGetFeatures ev fileData \<noteq> 0
              then Inr (scope_exit h1 p,
                     this\<lparr>errorHandler' :=
                       SetError (errorHandler' this)
                         (''Failed to call WebPGetFeatures: '' @ to_string (WebPGetFeatures ev fileData))\<rparr>)
              else
                (let strideSize = i32 (channelCount' this * width' this);
                     output = \<lparr>rgba = i32 (i32 (height' this - 1) * strideSize),
                               stride = i32 (- strideSize),
                               size = i32 (height' this * strideSize),
                               out_width = width' this, out_height = height' this\<rparr>
                 in
                 (case WebPDecode ev fileData output (deref h1 (Some p)) of
                    (statusCode, decoded) \<Rightarrow>
                      if statusCode \<noteq> 0
                      then Inr (scope_exit h1 p,
                             this\<lparr>errorHandler' :=
                               SetError (errorHandler' this)
                                 (''Failed to call WebPDecode: '' @ to_string statusCode)\<rparr>)
                      else
                        (case ReleaseBuffer (put h1 p (Some decoded))
                                (buffer' this) of
                           Inl e \<Rightarrow> Inl e
                         | Inr (h2, released) \<Rightarrow>
                            Inr (h2, this\<lparr>buffer' := \<lparr>buffer = Some p, source = Self\<rparr>\<rparr>)))))))"

text \<open>
  \<^verbatim>\<open>LoadJpeg\<close>. \<^verbatim>\<open>tjDecompressHeader3\<close> stores through \<^verbatim>\<open>&width_\<close> and \<^verbatim>\<open>&height_\<close>.
\<close>

definition LoadJpeg :: "env \<Rightarrow> heap \<Rightarrow> ImageAsset \<Rightarrow> byte list \<Rightarrow> abort + heap \<times> ImageAsset" where
  "LoadJpeg ev h this fileData =
     (let this = this\<lparr>errorHandler' := Clear (errorHandler' this)\<rparr> in
      case tjInitTransform ev of
        Some msg \<Rightarrow> Inr (h, this\<lparr>errorHandler' := SetError (errorHandler' this) msg\<rparr>)
      | None \<Rightarrow>
         (case tjTransform ev fileData of
            Inl msg \<Rightarrow> Inr (h, this\<lparr>errorHandler' := SetError (errorHandler' this) msg\<rparr>)
          | Inr transformedData \<Rightarrow>
             (case tjInitDecompress ev of
                Some msg \<Rightarrow> Inr (h, this\<lparr>errorHandler' := SetError (errorHandler' this) msg\<rparr>)
              | None \<Rightarrow>
                 (case tjDecompressHeader3 ev fileData of
                    tj_header_failed msg out \<Rightarrow>
                      Inr (h, (case out of
                                 None \<Rightarrow> this
                               | Some (w, ht) \<Rightarrow> this\<lparr>width' := w, height' := ht\<rparr>)
                                \<lparr>errorHandler' := SetError (errorHandler' this) msg\<rparr>)
                  | tj_header_ok w ht \<Rightarrow>
                     (let this = this\<lparr>width' := w, height' := ht, channelCount' := 3\<rparr> in
                      (case new_array h
                              (size_t (i32 (i32 (width' this * height' this) * channelCount' this))) of
                         Inl e \<Rightarrow> Inl e
                       | Inr (h1, p) \<Rightarrow>
                          (case tjDecompress2 ev transformedData (width' this) (height' this)
                                  (deref h1 (Some p)) of
                             (Some msg, decoded) \<Rightarrow>
                               Inr (scope_exit h1 p,
                                 this\<lparr>errorHandler' := SetError (errorHandler' this) msg\<rparr>)
                           | (None, decoded) \<Rightarrow>
                              (case ReleaseBuffer (put h1 p (Some decoded))
                                      (buffer' this) of
                                 Inl e \<Rightarrow> Inl e
                               | Inr (h2, released) \<Rightarrow>
                                  Inr (h2, this\<lparr>buffer' :=
                                             \<lparr>buffer = Some p, source = Self\<rparr>\<rparr>)))))))))"

text \<open>
  \<^verbatim>\<open>LoadWebPFromFile\<close> and \<^verbatim>\<open>LoadJpegFromFile\<close> read the whole file with the same
  sequence of calls and differ in the texts of their messages.
\<close>

definition LoadWebPFromFile ::
  "env \<Rightarrow> heap \<Rightarrow> ImageAsset \<Rightarrow> string \<Rightarrow> abort + heap \<times> ImageAsset" where
  "LoadWebPFromFile ev h this path =
     (let this = this\<lparr>errorHandler' := Clear (errorHandler' this)\<rparr> in
      case loaded_file ev path of
        fopen_failed msg \<Rightarrow> Inr (h, this\<lparr>errorHandler' := SetError (errorHandler' this) msg\<rparr>)
      | fseek_end_failed \<Rightarrow>
          Inr (h, this\<lparr>errorHandler' :=
            ERROR_HANDLER_ERRNO ev (errorHandler' this) ''Failed to load webp (seek to end)''\<rparr>)
      | fseek_set_failed \<Rightarrow>
          Inr (h, this\<lparr>errorHandler' :=
            ERROR_HANDLER_ERRNO ev (errorHandler' this) ''Failed to load webp (seek to begin)''\<rparr>)
      | fread_failed \<Rightarrow>
          Inr (h, this\<lparr>errorHandler' :=
            ERROR_HANDLER_ERRNO ev (errorHandler' this) ''Failed to load webp (read file)''\<rparr>)
      | file_data rdBuf \<Rightarrow>
          if length rdBuf = 0
          then Inr (h, this\<lparr>errorHandler' :=
                 ERROR_HANDLER_ERRNO ev (errorHandler' this) ''Failed to load webp (empty file)''\<rparr>)
          else LoadWebP ev h this rdBuf)"

definition LoadJpegFromFile ::
  "env \<Rightarrow> heap \<Rightarrow> ImageAsset \<Rightarrow> string \<Rightarrow> abort + heap \<times> ImageAsset" where
  "LoadJpegFromFile ev h this path =
     (let this = this\<lparr>errorHandler' := Clear (errorHandler' this)\<rparr> in
      case loaded_file ev path of
        fopen_failed msg \<Rightarrow> Inr (h, this\<lparr>errorHandler' := SetError (errorHandler' this) msg\<rparr>)
      | fseek_end_failed \<Rightarrow>
          Inr (h, this\<lparr>errorHandler' :=
            ERROR_HANDLER_ERRNO ev (errorHandler' this) ''Failed to load jpeg (seek to end)''\<rparr>)
      | fseek_set_failed \<Rightarrow>
          Inr (h, this\<lparr>errorHandler' :=
            ERROR_HANDLER_ERRNO ev (errorHandler' this) ''Failed to load jpeg (seek to begin)''\<rparr>)
      | fread_failed \<Rightarrow>
          Inr (h, this\<lparr>errorHandler' :=
            ERROR_HANDLER_ERRNO ev (errorHandler' this) ''Failed to load jpeg (read file)''\<rparr>)
      | file_data rdBuf \<Rightarrow>
          if length rdBuf = 0
          then Inr (h, this\<lparr>errorHandler' :=
                 ERROR_HANDLER_ERRNO ev (errorHandler' this) ''Failed to load jpeg (empty file)''\<rparr>)
          else LoadJpeg ev h this rdBuf)"

text \<open>\<^verbatim>\<open>Load(const std::string_view& path)\<close>: at most 16 bytes are read for the format.\<close>

definition Load_path :: "env \<Rightarrow> heap \<Rightarrow> ImageAsset \<Rightarrow> string \<Rightarrow> abort + heap \<times> ImageAsset" where
  "Load_path ev h this path =
     (let this = this\<lparr>errorHandler' := Clear (errorHandler' this)\<rparr> in
      case sniffed_file ev path of
        fopen_failed msg \<Rightarrow> Inr (h, this\<lparr>errorHandler' := SetError (errorHandler' this) msg\<rparr>)
      | fseek_end_failed \<Rightarrow>
          Inr (h, this\<lparr>errorHandler' :=
            ERROR_HANDLER_ERRNO ev (errorHandler' this) ''failed to detect format (seek to end)''\<rparr>)
      | fseek_set_failed \<Rightarrow>
          Inr (h, this\<lparr>errorHandler' :=
            ERROR_HANDLER_ERRNO ev (errorHandler' this) ''failed to detect format (seek to begin)''\<rparr>)
      | fread_failed \<Rightarrow>
          Inr (h, this\<lparr>errorHandler' :=
            ERROR_HANDLER_ERRNO ev (errorHandler' this) ''Failed to detect format (read file)''\<rparr>)
      | file_data contents \<Rightarrow>
          if length contents = 0
          then Inr (h, this\<lparr>errorHandler' :=
                 ERROR_HANDLER_ERRNO ev (errorHandler' this) ''failed to detect format (empty file)''\<rparr>)
          else
            (let readSize = (if 16 < length contents then 16 else length contents);
                 magicNumberBuffer = take readSize contents
             in if IsWebPFileData ev magicNumberBuffer then LoadWebPFromFile ev h this path
                else if IsJpegFileData ev magicNumberBuffer then LoadJpegFromFile ev h this path
                else LoadFromFile ev h this path))"

text \<open>\<^verbatim>\<open>Load(uint8_t* fileData, size_t size)\<close>\<close>

definition Load_bytes :: "env \<Rightarrow> heap \<Rightarrow> ImageAsset \<Rightarrow> byte list \<Rightarrow> abort + heap \<times> ImageAsset" where
  "Load_bytes ev h this fileData =
     (let this = this\<lparr>errorHandler' := Clear (errorHandler' this)\<rparr> in
      if IsWebPFileData ev fileData then LoadWebP ev h this fileData
      else if IsJpegFileData ev fileData then LoadJpeg ev h this fileData
      else LoadFile ev h this fileData)"

section \<open>The public operations\<close>

text \<open>
  One call of the public surface, and what it returns. \<open>run\<close> applies a call to the
  store and to the instance it is made on.
\<close>

datatype call =
  CallLoad_path string
| CallLoad_bytes "byte list"
| CallLoad_pixels ptr nat int int int
| CallGetError
| CallGetWidth
| CallGetHeight
| CallGetChannelCount
| CallClip int int int int
| CallResize int int
| CallUnload
| CallCopyTo ptr
| CallClone

datatype returned = Void | Number int | Message string | Instance ImageAsset

definition returning_void :: "abort + heap \<times> ImageAsset \<Rightarrow> abort + heap \<times> ImageAsset \<times> returned" where
  "returning_void r = (case r of Inl e \<Rightarrow> Inl e | Inr (h, this) \<Rightarrow> Inr (h, this, Void))"

fun run :: "env \<Rightarrow> call \<Rightarrow> heap \<Rightarrow> ImageAsset \<Rightarrow> abort + heap \<times> ImageAsset \<times> returned" where
  "run ev (CallLoad_path path) h this = returning_void (Load_path ev h this path)"
| "run ev (CallLoad_bytes fileData) h this = returning_void (Load_bytes ev h this fileData)"
| "run ev (CallLoad_pixels pixelData sz w ht c) h this = returning_void (Load_pixels h this pixelData sz w ht c)"
| "run ev CallGetError h this = Inr (h, this, Message (GetError this))"
| "run ev CallGetWidth h this = (case GetWidth this of (this', v) \<Rightarrow> Inr (h, this', Number v))"
| "run ev CallGetHeight h this = (case GetHeight this of (this', v) \<Rightarrow> Inr (h, this', Number v))"
| "run ev CallGetChannelCount h this =
     (case GetChannelCount this of (this', v) \<Rightarrow> Inr (h, this', Number v))"
| "run ev (CallClip x y w ht) h this = returning_void (Clip h this x y w ht)"
| "run ev (CallResize w ht) h this = returning_void (Resize h this w ht)"
| "run ev CallUnload h this = returning_void (Unload h this)"
| "run ev (CallCopyTo dest) h this = returning_void (CopyTo h this dest)"
| "run ev CallClone h this =
     (case Clone h this of Inl e \<Rightarrow> Inl e | Inr (h', result) \<Rightarrow> Inr (h', this, Instance result))"

declare digit_string.simps [simp del]

section \<open>States and samples\<close>

text \<open>
  The bytes of an instance's buffer; whether its pointer, if any, leads to a live block;
  the instance a guarded operation leaves when there is no buffer; and a small store
  with one 2 x 2 RGB image in it.
\<close>

definition pixels :: "heap \<Rightarrow> ImageAsset \<Rightarrow> cell list" where
  "pixels h this = deref h (buffer (buffer' this))"

definition owns :: "heap \<Rightarrow> ImageAsset \<Rightarrow> bool" where
  "owns h this = (case buffer (buffer' this) of None \<Rightarrow> True | Some p \<Rightarrow> blocks h p \<noteq> None)"

definition not_loaded :: "ImageAsset \<Rightarrow> ImageAsset" where
  "not_loaded this =
     this\<lparr>errorHandler' := SetError (Clear (errorHandler' this)) ERROR_STR_IMAGE_NOT_LOADED\<rparr>"

definition sample_heap :: heap where
  "sample_heap = [Some (map Some [10, 11, 12, 20, 21, 22, 30, 31, 32, 40, 41, 42])]"

definition sample_asset :: ImageAsset where
  "sample_asset =
     \<lparr>errorHandler' = \<lparr>error = [], history = []\<rparr>,
      buffer' = \<lparr>buffer = Some 0, source = Self\<rparr>,
      width' = 2, height' = 2, channelCount' = 3\<rparr>"

definition is_int32 :: "int \<Rightarrow> bool" where
  "is_int32 v = (- 2147483648 \<le> v \<and> v < 2147483648)"

text \<open>
  The range condition of \<open>Clip\<close> in the words of the specification: the first and last
  row lie in \<open>[0, H]\<close> and the first and last column in \<open>[0, W]\<close>.
\<close>

definition in_range :: "ImageAsset \<Rightarrow> int \<Rightarrow> int \<Rightarrow> int \<Rightarrow> int \<Rightarrow> bool" where
  "in_range this x y w ht =
     (0 \<le> height' this - y - ht \<and> height' this - y - ht \<le> height' this \<and>
      0 \<le> height' this - y \<and> height' this - y \<le> height' this \<and>
      0 \<le> x \<and> x \<le> width' this \<and> 0 \<le> x + w \<and> x + w \<le> width' this)"

text \<open>
  A stand-in for the libraries on a WebP file that is cut off after its header: the
  header of a 4 x 4 image is readable, so \<^verbatim>\<open>WebPGetInfo\<close> and \<^verbatim>\<open>WebPGetFeatures\<close>
  succeed, and \<^verbatim>\<open>WebPDecode\<close> answers \<^verbatim>\<open>VP8_STATUS_NOT_ENOUGH_DATA\<close> (7). No file exists
  and the other decoders reject the data.
\<close>

definition truncated_webp :: env where
  "truncated_webp =
     \<lparr>IsWebPFileData = (\<lambda>bs. True),
      IsJpegFileData = (\<lambda>bs. False),
      stbi_load = (\<lambda>path. stb_null ''can't fopen'' None),
      stbi_load_from_memory = (\<lambda>bs. stb_null ''unknown image type'' None),
      WebPGetInfo = (\<lambda>bs. Some (4, 4)),
      WebPInitDecoderConfig = True,
      WebPGetFeatures = (\<lambda>bs. 0),
      WebPDecode = (\<lambda>bs output cs. (7, cs)),
      tjInitTransform = None,
      tjTransform = (\<lambda>bs. Inl ''Not a JPEG file''),
      tjInitDecompress = None,
      tjDecompressHeader3 = (\<lambda>bs. tj_header_failed ''Not a JPEG file'' None),
      tjDecompress2 = (\<lambda>bs w ht cs. (Some ''Not a JPEG file'', cs)),
      sniffed_file = (\<lambda>path. fopen_failed ''No such file or directory''),
      loaded_file = (\<lambda>path. fopen_failed ''No such file or directory''),
      errno_text = (\<lambda>m. m)\<rparr>"

text \<open>A store with one 1 x 1 RGB image.\<close>

definition pixel_heap :: heap where
  "pixel_heap = [Some [Some 1, Some 2, Some 3]]"

definition pixel_asset :: ImageAsset where
  "pixel_asset =
     \<lparr>errorHandler' = \<lparr>error = [], history = []\<rparr>,
      buffer' = \<lparr>buffer = Some 0, source = Self\<rparr>,
      width' = 1, height' = 1, channelCount' = 3\<rparr>"

text \<open>
  The 2 x 2 sample after Unload, and a new instance after a raw-pixel Load of 0 bytes that
  names a 1 x 1 RGB image.
\<close>

definition unloaded_sample :: ImageAsset where
  "unloaded_sample =
     \<lparr>errorHandler' = \<lparr>error = [], history = [ClearCall]\<rparr>,
      buffer' = \<lparr>buffer = None, source = Self\<rparr>,
      width' = 0, height' = 0, channelCount' = 0\<rparr>"

definition no_bytes_1x1 :: ImageAsset where
  "no_bytes_1x1 =
     \<lparr>errorHandler' = \<lparr>error = [], history = [ClearCall]\<rparr>,
      buffer' = \<lparr>buffer = None, source = Self\<rparr>,
      width' = 1, height' = 1, channelCount' = 3\<rparr>"

text \<open>
  The handler calls of one operation after its first \<^verbatim>\<open>Clear\<close>: further clears (an
  entry point that calls another one clears again) and then at most one \<^verbatim>\<open>SetError\<close>,
  after which nothing follows. \<open>last_message\<close> is the message such calls leave.
\<close>

fun one_failure_at_most :: "handler_call list \<Rightarrow> bool" where
  "one_failure_at_most [] = True"
| "one_failure_at_most (ClearCall # cs) = one_failure_at_most cs"
| "one_failure_at_most (SetErrorCall m # cs) = (cs = [])"

fun last_message :: "handler_call list \<Rightarrow> string" where
  "last_message [] = []"
| "last_message (ClearCall # cs) = last_message cs"
| "last_message (SetErrorCall m # cs) = (if cs = [] then m else last_message cs)"

definition disciplined :: "ErrorHandler \<Rightarrow> ErrorHandler \<Rightarrow> bool" where
  "disciplined e e' =
     (take (Suc (length (history e))) (history e') = history e @ [ClearCall] \<and>
      one_failure_at_most (drop (Suc (length (history e))) (history e')) \<and>
      error e' = last_message (drop (Suc (length (history e))) (history e')))"

definition clears_first :: "call \<Rightarrow> bool" where
  "clears_first c = (case c of CallClone \<Rightarrow> False | CallGetError \<Rightarrow> False | _ \<Rightarrow> True)"

text \<open>The 2 x 2 sample after a Clip that was out of range.\<close>

definition after_failed_Clip :: ImageAsset where
  "after_failed_Clip =
     sample_asset\<lparr>errorHandler' :=
       \<lparr>error = ''range exceeds image size'',
        history = [ClearCall, SetErrorCall ''range exceeds image size'']\<rparr>\<rparr>"

text \<open>
  A loaded instance whose buffer is exactly its \<open>width * height * channelCount\<close> bytes,
  a count that fits \<^verbatim>\<open>int32_t\<close>, as its width and height do.
\<close>

definition well_formed :: "heap \<Rightarrow> ImageAsset \<Rightarrow> bool" where
  "well_formed h this =
     (case buffer (buffer' this) of
        None \<Rightarrow> False
      | Some p \<Rightarrow>
         (case blocks h p of
            None \<Rightarrow> False
          | Some cs \<Rightarrow>
             0 \<le> width' this \<and> 0 \<le> height' this \<and> 0 \<le> channelCount' this \<and>
             width' this < 2147483648 \<and> height' this < 2147483648 \<and>
             width' this * height' this * channelCount' this < 2147483648 \<and>
             int (length cs) = width' this * height' this * channelCount' this))"

text \<open>A sequence of calls on one instance.\<close>

fun run_all :: "env \<Rightarrow> call list \<Rightarrow> heap \<Rightarrow> ImageAsset \<Rightarrow> abort + heap \<times> ImageAsset" where
  "run_all ev [] h this = Inr (h, this)"
| "run_all ev (c # cs) h this =
     (case run ev c h this of
        Inl e \<Rightarrow> Inl e
      | Inr (h', this', r) \<Rightarrow> run_all ev cs h' this')"

text \<open>The clone of the 2 x 2 sample: its buffer is the block at address 1.\<close>

definition sample_clone :: ImageAsset where
  "sample_clone =
     \<lparr>errorHandler' = \<lparr>error = [], history = [ClearCall]\<rparr>,
      buffer' = \<lparr>buffer = Some 1, source = Self\<rparr>,
      width' = 2, height' = 2, channelCount' = 3\<rparr>"

text \<open>
  The source coordinate \<^verbatim>\<open>(int) (ix * scaleX)\<close> as \<^verbatim>\<open>ScaleImage\<close> computes it, and the
  byte that \<^verbatim>\<open>ScaleImage\<close> stores at index \<open>k\<close> of the destination.
\<close>

definition source_coordinate :: "nat \<Rightarrow> nat \<Rightarrow> nat \<Rightarrow> nat" where
  "source_coordinate srcExtent destExtent i =
     int_of_f32 (f32_mul (f32_of_nat i) (f32_div (f32_of_nat srcExtent) (f32_of_nat destExtent)))"

definition scaled_byte :: "nat \<Rightarrow> cell list \<Rightarrow> nat \<Rightarrow> nat \<Rightarrow> nat \<Rightarrow> nat \<Rightarrow> nat \<Rightarrow> cell" where
  "scaled_byte PixelSize srcBuffer srcWidth srcHeight destWidth destHeight k =
     srcBuffer !
       ((srcWidth * source_coordinate srcHeight destHeight (k div PixelSize div destWidth) +
         source_coordinate srcWidth destWidth (k div PixelSize mod destWidth)) * PixelSize +
        k mod PixelSize)"

text \<open>
  A strip of 26 x 1 RGB pixels in which pixel \<open>k\<close> has the bytes \<open>k, k, k\<close>; and a strip
  of 16777218 x 1 RGB pixels, all black but the last but one, number 16777217, whose bytes
  are \<open>1, 1, 1\<close>. (16777217 is \<open>2 ^ 24 + 1\<close>, the first integer that is not a
  \<^verbatim>\<open>float\<close>.)
\<close>

definition strip_heap :: heap where
  "strip_heap = [Some (map (\<lambda>k. Some (of_nat (k div 3))) [0..<78])]"

definition strip_asset :: ImageAsset where
  "strip_asset =
     \<lparr>errorHandler' = \<lparr>error = [], history = []\<rparr>,
      buffer' = \<lparr>buffer = Some 0, source = Self\<rparr>,
      width' = 26, height' = 1, channelCount' = 3\<rparr>"

definition wide_heap :: heap where
  "wide_heap = [Some (replicate 50331651 (Some 0) @ replicate 3 (Some 1))]"

definition wide_asset :: ImageAsset where
  "wide_asset =
     \<lparr>errorHandler' = \<lparr>error = [], history = []\<rparr>,
      buffer' = \<lparr>buffer = Some 0, source = Self\<rparr>,
      width' = 16777218, height' = 1, channelCount' = 3\<rparr>"

text \<open>
  The bytes that \<open>Clip\<close> is to deliver: of every row from \<open>H - y - ht\<close> up to
  \<open>H - y\<close>, the \<open>w\<close> pixels that start at column \<open>x\<close>.
\<close>

definition clipped :: "heap \<Rightarrow> ImageAsset \<Rightarrow> int \<Rightarrow> int \<Rightarrow> int \<Rightarrow> int \<Rightarrow> cell list" where
  "clipped h this x y w ht =
     concat (map (\<lambda>r. take (nat (w * channelCount' this))
                        (drop (nat ((int r * width' this + x) * channelCount' this)) (pixels h this)))
                 [nat (height' this - y - ht)..<nat (height' this - y)])"

text \<open>
  The instance has the buffer it had, and every block of the store is as it was.
\<close>

definition buffer_kept :: "heap \<Rightarrow> ImageAsset \<Rightarrow> heap \<Rightarrow> ImageAsset \<Rightarrow> bool" where
  "buffer_kept h this h' this' =
     (buffer' this' = buffer' this \<and> (\<forall>q<length h. blocks h' q = blocks h q))"

text \<open>
  A block \<open>p\<close> of another owner is kept by an operation: its bytes are as they were,
  no block has gone from the store, and the instance operated on does not point at it.
\<close>

definition kept :: "addr \<Rightarrow> heap \<Rightarrow> heap \<Rightarrow> ImageAsset \<Rightarrow> bool" where
  "kept p h h' b' = (blocks h' p = blocks h p \<and> length h \<le> length h' \<and> buffer (buffer' b') \<noteq> Some p)"

text \<open>
  The 2 x 2 sample after a raw-pixel Load of 0 bytes that names a 1 x 1 RGB image, and
  after Clip(0, 0, 0, 0).
\<close>

definition emptied_by_Load :: ImageAsset where
  "emptied_by_Load =
     \<lparr>errorHandler' = \<lparr>error = [], history = [ClearCall]\<rparr>,
      buffer' = \<lparr>buffer = None, source = Self\<rparr>,
      width' = 1, height' = 1, channelCount' = 3\<rparr>"

definition emptied_by_Clip :: ImageAsset where
  "emptied_by_Clip =
     \<lparr>errorHandler' = \<lparr>error = [], history = [ClearCall]\<rparr>,
      buffer' = \<lparr>buffer = None, source = Self\<rparr>,
      width' = 0, height' = 0, channelCount' = 3\<rparr>"

text \<open>
  A store with a block of 5 bytes, and the instance that a raw-pixel Load of these 5
  bytes as a 2 x 2 RGB image leaves: its buffer is the block at address 1, which holds 5
  bytes, while its width, height and channel count describe 12.
\<close>

definition short_heap :: heap where
  "short_heap = [Some (map Some [1, 2, 3, 4, 5])]"

definition short_asset :: ImageAsset where
  "short_asset =
     \<lparr>errorHandler' = \<lparr>error = [], history = [ClearCall]\<rparr>,
      buffer' = \<lparr>buffer = Some 1, source = Self\<rparr>,
      width' = 2, height' = 2, channelCount' = 3\<rparr>"

declare bitlen.simps [simp del]

lemma bitlen_0: "bitlen 0 = 0"
  by (simp add: bitlen.simps)

lemma bitlen_pos: "0 < n \<Longrightarrow> bitlen n = Suc (bitlen (n div 2))"
  by (subst bitlen.simps) simp

lemmas f32_eval =
  f32_of_nat_def f32_of_quotient_def round_nearest_even_def bitlen_0 bitlen_pos Let_def

lemma i32_id: "- 2147483648 \<le> v \<Longrightarrow> v < 2147483648 \<Longrightarrow> i32 v = v"
  by (simp add: i32_def)

section \<open>Operations on an instance without a buffer\<close>

lemma blocks_put [simp]:
  "blocks (put h p v) q = (if q = p \<and> p < length h then v else blocks h q)"
  by (simp add: blocks_def put_def)

lemma length_put [simp]: "length (put h p v) = length h"
  by (simp add: put_def)

lemma blocks_append [simp]:
  "blocks (h @ [b]) q = (if q = length h then b else blocks h q)"
  by (simp add: blocks_def nth_append)

lemma blocks_length [simp]: "blocks h (length h) = None"
  by (simp add: blocks_def)

lemma blocks_Some_less: "blocks h p = Some cs \<Longrightarrow> p < length h"
  by (simp add: blocks_def split: if_splits)

lemma guarded_unloaded:
  assumes "buffer (buffer' a) = None"
  shows "GetWidth a = (not_loaded a, - 1)"
    and "GetHeight a = (not_loaded a, - 1)"
    and "GetChannelCount a = (not_loaded a, - 1)"
    and "Clip h a x y w ht = Inr (h, not_loaded a)"
    and "Resize h a w ht = Inr (h, not_loaded a)"
    and "Unload h a = Inr (h, not_loaded a)"
    and "CopyTo h a dest = Inr (h, not_loaded a)"
  using assms
  by (simp_all add: GetWidth_def GetHeight_def GetChannelCount_def Clip_def Resize_def
        Unload_def CopyTo_def not_loaded_def Let_def)

lemma Clone_unloaded_no_bytes:
  assumes "buffer (buffer' a) = None"
    and "size_t (i32 (i32 (width' a * height' a) * channelCount' a)) = 0"
  shows "run ev CallClone h a =
     Inr (h, a, Instance
       \<lparr>errorHandler' = \<lparr>error = [], history = [ClearCall]\<rparr>,
        buffer' = \<lparr>buffer = None, source = Self\<rparr>,
        width' = width' a, height' = height' a, channelCount' = channelCount' a\<rparr>)"
  using assms
  by (simp add: Clone_def Load_pixels_def ImageAsset_new_def ReleaseBuffer_def AllocateBuffer_def
        memcpy_def Clear_def Let_def)

text \<open>
  C3 (amended). On an instance without a buffer, each of GetWidth, GetHeight,
  GetChannelCount, Clip, Resize, Unload and CopyTo stores the message "image asset is not
  loaded" after clearing the handler, the three queries return -1, and neither the store
  nor any other member of the instance changes. Clone has no such check: on an instance
  without a buffer whose width, height and channel count multiply to a byte count of 0 it
  stores no message; it leaves the store and the instance as they are and returns a new
  instance with no buffer and an empty error state.
\<close>

theorem guarded_operations_on_unloaded:
  assumes "buffer (buffer' a) = None"
  shows "GetWidth a = (not_loaded a, - 1) \<and>
         GetHeight a = (not_loaded a, - 1) \<and>
         GetChannelCount a = (not_loaded a, - 1) \<and>
         Clip h a x y w ht = Inr (h, not_loaded a) \<and>
         Resize h a w ht = Inr (h, not_loaded a) \<and>
         Unload h a = Inr (h, not_loaded a) \<and>
         CopyTo h a dest = Inr (h, not_loaded a) \<and>
         GetError (not_loaded a) = ''image asset is not loaded'' \<and>
         buffer' (not_loaded a) = buffer' a \<and>
         width' (not_loaded a) = width' a \<and>
         height' (not_loaded a) = height' a \<and>
         channelCount' (not_loaded a) = channelCount' a \<and>
         (size_t (i32 (i32 (width' a * height' a) * channelCount' a)) = 0 \<longrightarrow>
            run ev CallClone h a =
              Inr (h, a, Instance
                \<lparr>errorHandler' = \<lparr>error = [], history = [ClearCall]\<rparr>,
                 buffer' = \<lparr>buffer = None, source = Self\<rparr>,
                 width' = width' a, height' = height' a, channelCount' = channelCount' a\<rparr>))"
  using guarded_unloaded [OF assms] Clone_unloaded_no_bytes [OF assms]
  by (simp add: not_loaded_def GetError_def SetError_def ERROR_STR_IMAGE_NOT_LOADED_def)

theorem guarded_operations_on_unloaded_witness:
  "buffer (buffer' ImageAsset_new) = None \<and>
   size_t (i32 (i32 (width' ImageAsset_new * height' ImageAsset_new) *
     channelCount' ImageAsset_new)) = 0 \<and>
   GetWidth ImageAsset_new = (not_loaded ImageAsset_new, - 1) \<and>
   Clip [] ImageAsset_new 0 0 1 1 = Inr ([], not_loaded ImageAsset_new) \<and>
   Unload [] ImageAsset_new = Inr ([], not_loaded ImageAsset_new) \<and>
   GetError (not_loaded ImageAsset_new) = ''image asset is not loaded'' \<and>
   run truncated_webp CallClone [] ImageAsset_new =
     Inr ([], ImageAsset_new, Instance
       \<lparr>errorHandler' = \<lparr>error = [], history = [ClearCall]\<rparr>,
        buffer' = \<lparr>buffer = None, source = Self\<rparr>,
        width' = 0, height' = 0, channelCount' = 0\<rparr>)"
proof -
  have unloaded: "buffer (buffer' ImageAsset_new) = None"
    by (simp add: ImageAsset_new_def)
  have zero: "size_t (i32 (i32 (width' ImageAsset_new * height' ImageAsset_new) *
      channelCount' ImageAsset_new)) = 0"
    by (simp add: ImageAsset_new_def size_t_def i32_def)
  have meta: "width' ImageAsset_new = 0" "height' ImageAsset_new = 0"
      "channelCount' ImageAsset_new = 0"
    by (simp_all add: ImageAsset_new_def)
  show ?thesis
    using unloaded zero
      guarded_operations_on_unloaded [OF unloaded, of "[]" 0 0 1 1 None truncated_webp]
    by (simp add: meta)
qed

text \<open>
  C3 as stated fails for Clone: called on a new instance, which has no buffer, it returns
  another instance; the one it was called on is as it was, and neither of the two holds
  the message "image asset is not loaded".
\<close>

theorem Clone_of_unloaded_reports_nothing:
  "buffer (buffer' ImageAsset_new) = None \<and>
   run truncated_webp CallClone [] ImageAsset_new =
     Inr ([], ImageAsset_new,
          Instance (ImageAsset_new\<lparr>errorHandler' := \<lparr>error = [], history = [ClearCall]\<rparr>\<rparr>)) \<and>
   GetError ImageAsset_new \<noteq> ERROR_STR_IMAGE_NOT_LOADED \<and>
   GetError (ImageAsset_new\<lparr>errorHandler' := \<lparr>error = [], history = [ClearCall]\<rparr>\<rparr>)
     \<noteq> ERROR_STR_IMAGE_NOT_LOADED"
  by (simp add: Clone_def Load_pixels_def ImageAsset_new_def ReleaseBuffer_def AllocateBuffer_def
        memcpy_def Clear_def Let_def size_t_def i32_def GetError_def ERROR_STR_IMAGE_NOT_LOADED_def)

section \<open>Clone of an instance without a buffer\<close>

text \<open>
  C10 (amended). When the instance has no buffer and its width, height and channel count
  multiply to a byte count of 0 (as after Unload, which zeroes them), Clone returns a new
  instance with no buffer, the same three numbers and an empty error state; the store and
  the instance it was called on are unchanged.
\<close>

theorem Clone_of_unloaded_without_bytes:
  assumes "buffer (buffer' a) = None"
    and "size_t (i32 (i32 (width' a * height' a) * channelCount' a)) = 0"
  shows "run ev CallClone h a =
     Inr (h, a, Instance
       \<lparr>errorHandler' = \<lparr>error = [], history = [ClearCall]\<rparr>,
        buffer' = \<lparr>buffer = None, source = Self\<rparr>,
        width' = width' a, height' = height' a, channelCount' = channelCount' a\<rparr>)"
  using assms
  by (simp add: Clone_def Load_pixels_def ImageAsset_new_def ReleaseBuffer_def AllocateBuffer_def
        memcpy_def Clear_def Let_def)

theorem Clone_of_unloaded_without_bytes_witness:
  "Unload sample_heap sample_asset = Inr ([None], unloaded_sample) \<and>
   buffer (buffer' unloaded_sample) = None \<and>
   size_t (i32 (i32 (width' unloaded_sample * height' unloaded_sample) *
     channelCount' unloaded_sample)) = 0 \<and>
   run truncated_webp CallClone [None] unloaded_sample =
     Inr ([None], unloaded_sample, Instance
       \<lparr>errorHandler' = \<lparr>error = [], history = [ClearCall]\<rparr>,
        buffer' = \<lparr>buffer = None, source = Self\<rparr>,
        width' = 0, height' = 0, channelCount' = 0\<rparr>)"
proof -
  have unload: "Unload sample_heap sample_asset = Inr ([None], unloaded_sample)"
    by (simp add: Unload_def ReleaseBuffer_def delete_array_def sample_heap_def sample_asset_def
          blocks_def put_def unloaded_sample_def Clear_def Let_def)
  have none: "buffer (buffer' unloaded_sample) = None"
    by (simp add: unloaded_sample_def)
  have zero: "size_t (i32 (i32 (width' unloaded_sample * height' unloaded_sample) *
      channelCount' unloaded_sample)) = 0"
    by (simp add: unloaded_sample_def size_t_def i32_def)
  show ?thesis
    using unload none zero
      Clone_of_unloaded_without_bytes [OF none zero, of truncated_webp "[None]"]
    by (simp add: unloaded_sample_def)
qed

text \<open>
  C10 as stated fails on an instance without a buffer whose three numbers are not zero,
  the state a raw-pixel Load of 0 bytes leaves: Clone allocates 3 bytes and copies them
  from the null pointer.
\<close>

theorem Clone_of_unloaded_with_metadata_faults:
  "Load_pixels [] ImageAsset_new None 0 1 1 3 = Inr ([], no_bytes_1x1) \<and>
   buffer (buffer' no_bytes_1x1) = None \<and>
   Clone [] no_bytes_1x1 = Inl memory_fault"
  by (simp add: Clone_def Load_pixels_def ImageAsset_new_def no_bytes_1x1_def ReleaseBuffer_def
        AllocateBuffer_def memcpy_def Clear_def Let_def new_array_def size_t_def i32_def
        PTRDIFF_MAX_def)

section \<open>Zero-sized buffers\<close>

lemma i32_0 [simp]: "i32 0 = 0"
  by (simp add: i32_def)

lemma size_t_0 [simp]: "size_t 0 = 0"
  by (simp add: size_t_def)

lemma is_int32_i32: "is_int32 v \<Longrightarrow> i32 v = v"
  by (simp add: is_int32_def i32_def)

lemma fold_Clip_row_no_bytes:
  "size_t newStrideSize = 0 \<Longrightarrow>
   fold (Clip_row newp oldp newStrideSize srcStrideSize startLine x c) rows (Inr h) = Inr h"
  by (induction rows) (simp_all add: Clip_row_def memcpy_def)

lemma in_range_checks:
  assumes "in_range a x y w ht" and "is_int32 (width' a)" and "is_int32 (height' a)"
  shows "i32 (height' a - y) = height' a - y"
    and "i32 (height' a - y - ht) = height' a - y - ht"
    and "i32 (x + w) = x + w"
proof -
  show "i32 (height' a - y) = height' a - y"
    using assms by (intro is_int32_i32) (simp add: in_range_def is_int32_def)
  show "i32 (height' a - y - ht) = height' a - y - ht"
    using assms by (intro is_int32_i32) (simp add: in_range_def is_int32_def)
  show "i32 (x + w) = x + w"
    using assms by (intro is_int32_i32) (simp add: in_range_def is_int32_def)
qed

lemma Clip_no_bytes:
  assumes "buffer (buffer' a) = Some p" and "blocks h p = Some cs"
    and "in_range a x y w ht" and "is_int32 (width' a)" and "is_int32 (height' a)"
    and "w = 0 \<or> ht = 0"
  shows "Clip h a x y w ht =
     Inr (put h p None,
          a\<lparr>errorHandler' := Clear (errorHandler' a), buffer' := \<lparr>buffer = None, source = Self\<rparr>,
            width' := w, height' := ht\<rparr>)"
proof -
  have sz: "size_t (i32 (i32 (w * ht) * channelCount' a)) = 0"
    using assms(6) by auto
  have loop: "fold (Clip_row None (Some p) (i32 (w * channelCount' a))
                 (i32 (width' a * channelCount' a)) (height' a - y - ht) x (channelCount' a))
               [0..<nat ht] (Inr h) = Inr h"
  proof (cases "w = 0")
    case True
    then show ?thesis by (simp add: fold_Clip_row_no_bytes)
  next
    case False
    with assms(6) show ?thesis by simp
  qed
  have range: "0 \<le> height' a - y - ht" "height' a - y - ht \<le> height' a"
    "0 \<le> height' a - y" "height' a - y \<le> height' a"
    "0 \<le> x" "x \<le> width' a" "0 \<le> x + w" "x + w \<le> width' a"
    using assms(3) by (simp_all add: in_range_def)
  show ?thesis
    using assms(1,2) range
    by (simp add: Clip_def Let_def in_range_checks [OF assms(3,4,5)] sz AllocateBuffer_def loop
          ReleaseBuffer_def delete_array_def stbi_image_free_def split: BufferSource.split)
qed

lemma Load_pixels_no_bytes:
  assumes "owns h a"
  shows "Load_pixels h a pixelData 0 w ht c =
     Inr (case buffer (buffer' a) of None \<Rightarrow> h | Some p \<Rightarrow> put h p None,
          a\<lparr>errorHandler' := Clear (errorHandler' a), buffer' := \<lparr>buffer = None, source = Self\<rparr>,
            width' := w, height' := ht, channelCount' := c\<rparr>)"
  using assms
  by (auto simp add: Load_pixels_def Let_def owns_def ReleaseBuffer_def delete_array_def
        stbi_image_free_def AllocateBuffer_def memcpy_def
        split: option.splits BufferSource.splits)

text \<open>
  C9 (amended). A raw-pixel Load of 0 bytes, and a Clip that passes the range checks with a
  width or a height of 0, both end without an error and with the null pointer as buffer,
  while the width and height are set as requested. From then on GetWidth, GetHeight,
  GetChannelCount, Clip, Resize, Unload and CopyTo all report "image asset is not loaded".
  Clone has no such check: when the width, height and channel count then multiply to a
  byte count of 0 it stores no message; it leaves the store and the instance as they are
  and returns a new instance with no buffer and an empty error state.
\<close>

theorem zero_sized_buffer_unloads:
  assumes "r = Load_pixels h a pixelData 0 w ht c \<and> owns h a \<or>
           r = Clip h a x y w ht \<and> buffer (buffer' a) \<noteq> None \<and> owns h a \<and>
             in_range a x y w ht \<and> is_int32 (width' a) \<and> is_int32 (height' a) \<and>
             (w = 0 \<or> ht = 0)"
  shows "\<exists>h' a'. r = Inr (h', a') \<and>
           GetError a' = [] \<and> buffer (buffer' a') = None \<and> width' a' = w \<and> height' a' = ht \<and>
           GetWidth a' = (not_loaded a', - 1) \<and>
           GetHeight a' = (not_loaded a', - 1) \<and>
           GetChannelCount a' = (not_loaded a', - 1) \<and>
           Clip h2 a' x2 y2 w2 ht2 = Inr (h2, not_loaded a') \<and>
           Resize h2 a' w2 ht2 = Inr (h2, not_loaded a') \<and>
           Unload h2 a' = Inr (h2, not_loaded a') \<and>
           CopyTo h2 a' dest = Inr (h2, not_loaded a') \<and>
           GetError (not_loaded a') = ''image asset is not loaded'' \<and>
           (size_t (i32 (i32 (width' a' * height' a') * channelCount' a')) = 0 \<longrightarrow>
              run ev CallClone h2 a' =
                Inr (h2, a', Instance
                  \<lparr>errorHandler' = \<lparr>error = [], history = [ClearCall]\<rparr>,
                   buffer' = \<lparr>buffer = None, source = Self\<rparr>,
                   width' = width' a', height' = height' a',
                   channelCount' = channelCount' a'\<rparr>))"
proof -
  have msg: "GetError (not_loaded b) = ''image asset is not loaded''" for b
    by (simp add: not_loaded_def GetError_def SetError_def ERROR_STR_IMAGE_NOT_LOADED_def)
  from assms consider
      (load) "r = Load_pixels h a pixelData 0 w ht c" "owns h a"
    | (clip) "r = Clip h a x y w ht" "buffer (buffer' a) \<noteq> None" "owns h a"
        "in_range a x y w ht" "is_int32 (width' a)" "is_int32 (height' a)" "w = 0 \<or> ht = 0"
    by blast
  then have "\<exists>h' a'. r = Inr (h', a') \<and> GetError a' = [] \<and> buffer (buffer' a') = None \<and>
      width' a' = w \<and> height' a' = ht"
  proof cases
    case load
    then show ?thesis
      by (simp add: Load_pixels_no_bytes GetError_def Clear_def)
  next
    case clip
    from clip(2,3) obtain p cs where "buffer (buffer' a) = Some p" "blocks h p = Some cs"
      by (auto simp add: owns_def)
    then show ?thesis
      using clip(1,4-7) by (simp add: Clip_no_bytes GetError_def Clear_def)
  qed
  then obtain h' a' where r: "r = Inr (h', a')" "GetError a' = []" "width' a' = w" "height' a' = ht"
    and none: "buffer (buffer' a') = None"
    by blast
  have clone: "size_t (i32 (i32 (width' a' * height' a') * channelCount' a')) = 0 \<longrightarrow>
      run ev CallClone h2 a' =
        Inr (h2, a', Instance
          \<lparr>errorHandler' = \<lparr>error = [], history = [ClearCall]\<rparr>,
           buffer' = \<lparr>buffer = None, source = Self\<rparr>,
           width' = width' a', height' = height' a', channelCount' = channelCount' a'\<rparr>)"
    using Clone_unloaded_no_bytes [OF none] by blast
  show ?thesis
    using clone
    by (intro exI [of _ h'] exI [of _ a']) (simp add: r none guarded_unloaded [OF none] msg)
qed

theorem zero_sized_buffer_unloads_witness:
  "owns sample_heap sample_asset \<and> buffer (buffer' sample_asset) \<noteq> None \<and>
   in_range sample_asset 0 0 0 0 \<and>
   is_int32 (width' sample_asset) \<and> is_int32 (height' sample_asset) \<and>
   (\<exists>h' a'. Load_pixels sample_heap sample_asset None 0 5 7 3 = Inr (h', a') \<and>
      GetError a' = [] \<and> buffer (buffer' a') = None \<and> width' a' = 5 \<and> height' a' = 7 \<and>
      GetWidth a' = (not_loaded a', - 1) \<and> Unload [] a' = Inr ([], not_loaded a')) \<and>
   (\<exists>h' a'. Clip sample_heap sample_asset 0 0 0 0 = Inr (h', a') \<and>
      GetError a' = [] \<and> buffer (buffer' a') = None \<and> width' a' = 0 \<and> height' a' = 0 \<and>
      GetHeight a' = (not_loaded a', - 1) \<and> CopyTo [] a' None = Inr ([], not_loaded a') \<and>
      size_t (i32 (i32 (width' a' * height' a') * channelCount' a')) = 0 \<and>
      run truncated_webp CallClone [] a' =
        Inr ([], a', Instance
          \<lparr>errorHandler' = \<lparr>error = [], history = [ClearCall]\<rparr>,
           buffer' = \<lparr>buffer = None, source = Self\<rparr>,
           width' = 0, height' = 0, channelCount' = channelCount' a'\<rparr>))"
proof -
  have own: "owns sample_heap sample_asset"
    by (simp add: owns_def sample_asset_def sample_heap_def blocks_def)
  have loaded: "buffer (buffer' sample_asset) \<noteq> None"
    by (simp add: sample_asset_def)
  have range: "in_range sample_asset 0 0 0 0"
    by (simp add: in_range_def sample_asset_def)
  have w: "is_int32 (width' sample_asset)" and ht: "is_int32 (height' sample_asset)"
    by (simp_all add: is_int32_def sample_asset_def)
  have first: "\<exists>h' a'. Load_pixels sample_heap sample_asset None 0 5 7 3 = Inr (h', a') \<and>
      GetError a' = [] \<and> buffer (buffer' a') = None \<and> width' a' = 5 \<and> height' a' = 7 \<and>
      GetWidth a' = (not_loaded a', - 1) \<and> Unload [] a' = Inr ([], not_loaded a')"
    using zero_sized_buffer_unloads
      [of "Load_pixels sample_heap sample_asset None 0 5 7 3" sample_heap sample_asset None 5 7 3
          0 0 "[]" 0 0 0 0 None truncated_webp]
      own
    by blast
  have hyp: "Clip sample_heap sample_asset 0 0 0 0 = Load_pixels sample_heap sample_asset None 0 0 0 3 \<and>
        owns sample_heap sample_asset \<or>
      Clip sample_heap sample_asset 0 0 0 0 = Clip sample_heap sample_asset 0 0 0 0 \<and>
        buffer (buffer' sample_asset) \<noteq> None \<and> owns sample_heap sample_asset \<and>
        in_range sample_asset 0 0 0 0 \<and> is_int32 (width' sample_asset) \<and>
        is_int32 (height' sample_asset) \<and> ((0::int) = 0 \<or> (0::int) = 0)"
    using own loaded range w ht by simp
  from zero_sized_buffer_unloads
      [of "Clip sample_heap sample_asset 0 0 0 0" sample_heap sample_asset None 0 0 3
          0 0 "[]" 0 0 0 0 None truncated_webp, OF hyp]
  obtain h' a' where clip: "Clip sample_heap sample_asset 0 0 0 0 = Inr (h', a')"
      "GetError a' = []" "buffer (buffer' a') = None" "width' a' = 0" "height' a' = 0"
      "GetHeight a' = (not_loaded a', - 1)" "CopyTo [] a' None = Inr ([], not_loaded a')"
    and clone: "size_t (i32 (i32 (width' a' * height' a') * channelCount' a')) = 0 \<longrightarrow>
      run truncated_webp CallClone [] a' =
        Inr ([], a', Instance
          \<lparr>errorHandler' = \<lparr>error = [], history = [ClearCall]\<rparr>,
           buffer' = \<lparr>buffer = None, source = Self\<rparr>,
           width' = width' a', height' = height' a', channelCount' = channelCount' a'\<rparr>)"
    by (elim exE conjE) (rule that; assumption)
  have zero: "size_t (i32 (i32 (width' a' * height' a') * channelCount' a')) = 0"
    by (simp add: clip(4))
  have second: "\<exists>h' a'. Clip sample_heap sample_asset 0 0 0 0 = Inr (h', a') \<and>
      GetError a' = [] \<and> buffer (buffer' a') = None \<and> width' a' = 0 \<and> height' a' = 0 \<and>
      GetHeight a' = (not_loaded a', - 1) \<and> CopyTo [] a' None = Inr ([], not_loaded a') \<and>
      size_t (i32 (i32 (width' a' * height' a') * channelCount' a')) = 0 \<and>
      run truncated_webp CallClone [] a' =
        Inr ([], a', Instance
          \<lparr>errorHandler' = \<lparr>error = [], history = [ClearCall]\<rparr>,
           buffer' = \<lparr>buffer = None, source = Self\<rparr>,
           width' = 0, height' = 0, channelCount' = channelCount' a'\<rparr>)"
    using clip clone zero by (intro exI [of _ h'] exI [of _ a']) simp
  show ?thesis
    using own loaded range w ht first second by blast
qed

text \<open>
  C9 as stated fails for Clone, which is among the operations that need a buffer. After
  the raw-pixel Load of 0 bytes that names a 1 x 1 RGB image the instance has no buffer,
  and Clone does not return: it allocates 3 bytes and copies them from the null pointer.
  After Clip(0, 0, 0, 0) the instance has no buffer either, and Clone returns a new
  instance; neither instance holds the message "image asset is not loaded".
\<close>

theorem Clone_after_zero_sized_buffer:
  "Load_pixels sample_heap sample_asset None 0 1 1 3 = Inr ([None], emptied_by_Load) \<and>
   GetError emptied_by_Load = [] \<and> buffer (buffer' emptied_by_Load) = None \<and>
   run truncated_webp CallClone [None] emptied_by_Load = Inl memory_fault \<and>
   Clip sample_heap sample_asset 0 0 0 0 = Inr ([None], emptied_by_Clip) \<and>
   GetError emptied_by_Clip = [] \<and> buffer (buffer' emptied_by_Clip) = None \<and>
   run truncated_webp CallClone [None] emptied_by_Clip = Inr ([None], emptied_by_Clip, Instance emptied_by_Clip) \<and>
   GetError emptied_by_Clip \<noteq> ERROR_STR_IMAGE_NOT_LOADED"
  by (simp add: Load_pixels_def Clip_def Clone_def ImageAsset_new_def sample_heap_def
        sample_asset_def emptied_by_Load_def emptied_by_Clip_def ReleaseBuffer_def
        delete_array_def AllocateBuffer_def new_array_def PTRDIFF_MAX_def memcpy_def blocks_def
        put_def Clear_def Let_def size_t_def i32_def GetError_def ERROR_STR_IMAGE_NOT_LOADED_def)

section \<open>The raw-pixel Load\<close>

lemma ReleaseBuffer_owned:
  assumes "owns h a"
  shows "ReleaseBuffer h (buffer' a) =
     Inr (case buffer (buffer' a) of None \<Rightarrow> h | Some p \<Rightarrow> put h p None,
          (buffer' a)\<lparr>buffer := None\<rparr>)"
  using assms
  by (auto simp add: owns_def ReleaseBuffer_def delete_array_def stbi_image_free_def
        split: option.splits BufferSource.splits)

lemma Load_pixels_bytes:
  assumes own: "owns h a" and sz: "0 < sz" "sz \<le> PTRDIFF_MAX"
    and src: "blocks h s = Some src" "sz \<le> length src" "buffer (buffer' a) \<noteq> Some s"
  shows "Load_pixels h a (Some s) sz w ht c =
     Inr (put ((case buffer (buffer' a) of None \<Rightarrow> h | Some p \<Rightarrow> put h p None)
                 @ [Some (replicate sz None)]) (length h) (Some (take sz src)),
          a\<lparr>errorHandler' := Clear (errorHandler' a),
            buffer' := \<lparr>buffer = Some (length h), source = Self\<rparr>,
            width' := w, height' := ht, channelCount' := c\<rparr>)"
proof -
  define h0 where "h0 = (case buffer (buffer' a) of None \<Rightarrow> h | Some p \<Rightarrow> put h p None)"
  have len: "length h0 = length h"
    by (simp add: h0_def split: option.split)
  have s: "s < length h"
    using src(1) by (rule blocks_Some_less)
  have keep: "blocks h0 s = Some src"
    using src(1,3) by (auto simp add: h0_def split: option.split)
  have "memcpy (h0 @ [Some (replicate sz None)]) (Some (length h)) 0 (Some s) 0 sz =
          Inr (put (h0 @ [Some (replicate sz None)]) (length h) (Some (take sz src)))"
    using sz src(2) s keep by (simp add: memcpy_def len)
  then show ?thesis
    using sz
    by (simp add: Load_pixels_def Let_def ReleaseBuffer_owned [OF own] AllocateBuffer_def
          new_array_def len flip: h0_def)
qed

text \<open>
  C6. Given a readable buffer of \<open>sz\<close> bytes (any pointer when \<open>sz\<close> is 0) that is not
  the instance's own buffer, the raw-pixel Load returns with an empty error state; the
  instance's buffer then holds the caller's first \<open>sz\<close> bytes in a block that did not exist
  before, tagged self-owned; the prior buffer is released; width, height and channel count
  are the given values; the caller's bytes are untouched.
\<close>

theorem raw_pixel_Load_succeeds:
  assumes "owns h a" and "sz \<le> PTRDIFF_MAX"
    and "sz = 0 \<or> (\<exists>s src. pixelData = Some s \<and> blocks h s = Some src \<and> sz \<le> length src \<and>
                     buffer (buffer' a) \<noteq> Some s)"
  shows "\<exists>h' a'. Load_pixels h a pixelData sz w ht c = Inr (h', a') \<and>
           GetError a' = [] \<and>
           pixels h' a' = take sz (deref h pixelData) \<and>
           source (buffer' a') = Self \<and>
           width' a' = w \<and> height' a' = ht \<and> channelCount' a' = c \<and>
           (\<forall>p. buffer (buffer' a) = Some p \<longrightarrow> blocks h' p = None) \<and>
           (\<forall>p. buffer (buffer' a') = Some p \<longrightarrow> blocks h p = None) \<and>
           (0 < sz \<longrightarrow> deref h' pixelData = deref h pixelData)"
proof (cases "sz = 0")
  case True
  have released: "blocks (case buffer (buffer' a) of None \<Rightarrow> h | Some p \<Rightarrow> put h p None) q = None"
    if "buffer (buffer' a) = Some q" for q
    using that assms(1) by (auto simp add: owns_def dest: blocks_Some_less)
  show ?thesis
    using True released
    by (simp add: Load_pixels_no_bytes [OF assms(1)] GetError_def Clear_def pixels_def deref_def)
next
  case False
  with assms(3) obtain s src where src: "pixelData = Some s" "blocks h s = Some src"
      "sz \<le> length src" "buffer (buffer' a) \<noteq> Some s"
    by blast
  have s: "s < length h"
    using src(2) by (rule blocks_Some_less)
  have own: "p < length h" if "buffer (buffer' a) = Some p" for p
    using that assms(1) by (auto simp add: owns_def dest: blocks_Some_less)
  from False have pos: "0 < sz" by simp
  show ?thesis
    unfolding src(1) Load_pixels_bytes [OF assms(1) pos assms(2) src(2,3,4)]
    using src(2,4) s own
    by (auto simp add: GetError_def Clear_def pixels_def deref_def split: option.splits)
qed

theorem raw_pixel_Load_succeeds_witness:
  "owns (sample_heap @ [Some (map Some [1, 2, 3, 4, 5])]) sample_asset \<and>
   (4::nat) \<le> PTRDIFF_MAX \<and>
   blocks (sample_heap @ [Some (map Some [1, 2, 3, 4, 5])]) 1 = Some (map Some [1, 2, 3, 4, 5]) \<and>
   buffer (buffer' sample_asset) \<noteq> Some 1 \<and>
   (\<exists>h' a'. Load_pixels (sample_heap @ [Some (map Some [1, 2, 3, 4, 5])]) sample_asset
                (Some 1) 4 1 1 4 = Inr (h', a') \<and>
      GetError a' = [] \<and> pixels h' a' = map Some [1, 2, 3, 4] \<and>
      source (buffer' a') = Self \<and> width' a' = 1 \<and> height' a' = 1 \<and> channelCount' a' = 4 \<and>
      blocks h' 0 = None)"
proof -
  define h where "h = sample_heap @ [Some (map Some [1, 2, 3, 4, 5 :: byte])]"
  have own: "owns h sample_asset"
    by (simp add: h_def owns_def sample_asset_def sample_heap_def blocks_def)
  have sz: "(4::nat) \<le> PTRDIFF_MAX"
    by (simp add: PTRDIFF_MAX_def)
  have block: "blocks h 1 = Some (map Some [1, 2, 3, 4, 5])"
    by (simp add: h_def sample_heap_def blocks_def)
  have other: "buffer (buffer' sample_asset) \<noteq> Some 1"
    by (simp add: sample_asset_def)
  have prior: "buffer (buffer' sample_asset) = Some 0"
    by (simp add: sample_asset_def)
  have src: "(4::nat) = 0 \<or> (\<exists>s src. Some (1::nat) = Some s \<and> blocks h s = Some src \<and>
        4 \<le> length src \<and> buffer (buffer' sample_asset) \<noteq> Some s)"
    using block other by simp
  have bytes: "take 4 (deref h (Some 1)) = map Some [1, 2, 3, 4]"
    using block by (simp add: deref_def)
  have "\<exists>h' a'. Load_pixels h sample_asset (Some 1) 4 1 1 4 = Inr (h', a') \<and>
      GetError a' = [] \<and> pixels h' a' = map Some [1, 2, 3, 4] \<and>
      source (buffer' a') = Self \<and> width' a' = 1 \<and> height' a' = 1 \<and> channelCount' a' = 4 \<and>
      blocks h' 0 = None"
    using raw_pixel_Load_succeeds [OF own sz src, of 1 1 4] prior unfolding bytes by blast
  then show ?thesis
    using own sz block other unfolding h_def by blast
qed

section \<open>Clip\<close>

text \<open>
  C2 at a negative extent. On the 1 x 1 image, \<open>Clip(1, 1, -1, -1)\<close> meets the range
  conditions of the claim (rows 1 and 0 lie in \<open>[0, 1]\<close>, columns 1 and 0 too) and passes
  the four checks of the code. The code allocates \<open>(-1) * (-1) * 3 = 3\<close> bytes, copies no
  row, and stores width -1 and height -1: the new buffer is three uninitialised bytes and
  not the (empty) selection of source bytes. \<open>Clip(0, 1, 1, -1)\<close> passes the checks as
  well; its byte count is negative and the allocation throws.
\<close>

theorem Clip_negative_extent:
  "in_range pixel_asset 1 1 (- 1) (- 1) \<and>
   Clip pixel_heap pixel_asset 1 1 (- 1) (- 1) =
     Inr ([None, Some (replicate 3 None)],
          pixel_asset\<lparr>errorHandler' := \<lparr>error = [], history = [ClearCall]\<rparr>,
            buffer' := \<lparr>buffer = Some 1, source = Self\<rparr>, width' := - 1, height' := - 1\<rparr>) \<and>
   in_range pixel_asset 0 1 1 (- 1) \<and>
   Clip pixel_heap pixel_asset 0 1 1 (- 1) = Inl bad_alloc"
  by (simp add: in_range_def Clip_def pixel_heap_def pixel_asset_def Let_def i32_def size_t_def
        AllocateBuffer_def new_array_def PTRDIFF_MAX_def ReleaseBuffer_def delete_array_def
        blocks_def put_def Clear_def)

section \<open>Failing loads\<close>

text \<open>
  C1 at a truncated WebP file. The instance holds the 2 x 2 RGB image (12 bytes). Load of
  the file's bytes fails in \<^verbatim>\<open>WebPDecode\<close> and reports it, and the 12 bytes are still the
  buffer; but \<^verbatim>\<open>WebPGetInfo\<close> has stored the file's 4 x 4 through \<^verbatim>\<open>&width_\<close> and
  \<^verbatim>\<open>&height_\<close>, and the channel count has been set to 4. The metadata no longer
  describes the buffer: a CopyTo that follows reads 64 bytes from the 12-byte block.
\<close>

theorem failed_WebP_load_changes_metadata:
  "Load_bytes truncated_webp sample_heap sample_asset [82, 73, 70, 70] =
     Inr (sample_heap @ [None],
          sample_asset\<lparr>errorHandler' :=
              \<lparr>error = ''Failed to call WebPDecode: 7'',
               history = [ClearCall, ClearCall, SetErrorCall ''Failed to call WebPDecode: 7'']\<rparr>,
            width' := 4, height' := 4, channelCount' := 4\<rparr>) \<and>
   pixels (sample_heap @ [None]) sample_asset = pixels sample_heap sample_asset \<and>
   width' sample_asset = 2 \<and> height' sample_asset = 2 \<and> channelCount' sample_asset = 3 \<and>
   CopyTo (sample_heap @ [None, Some (replicate 64 None)])
     (sample_asset\<lparr>width' := 4, height' := 4, channelCount' := 4\<rparr>) (Some 2) = Inl memory_fault"
  by (simp add: Load_bytes_def LoadWebP_def truncated_webp_def sample_heap_def sample_asset_def
        Let_def i32_def size_t_def new_array_def PTRDIFF_MAX_def scope_exit_def put_def deref_def
        blocks_def Clear_def SetError_def to_string_def digit_string.simps pixels_def
        CopyTo_def memcpy_def)

section \<open>The error state\<close>

lemma disciplined_Clear [simp]: "disciplined e (Clear e)"
  by (simp add: disciplined_def Clear_def)

lemma disciplined_SetError [simp]: "disciplined e (SetError (Clear e) m)"
  by (simp add: disciplined_def Clear_def SetError_def)

lemma disciplined_ERRNO [simp]: "disciplined e (ERROR_HANDLER_ERRNO ev (Clear e) m)"
  by (simp add: ERROR_HANDLER_ERRNO_def)

lemma disciplined_nested: "disciplined (Clear e) e' \<Longrightarrow> disciplined e e'"
proof -
  assume d: "disciplined (Clear e) e'"
  define n where "n = length (history e)"
  define t where "t = drop (Suc (Suc n)) (history e')"
  from d have pre: "take (Suc (Suc n)) (history e') = history e @ [ClearCall, ClearCall]"
    and ok: "one_failure_at_most t" and msg: "error e' = last_message t"
    by (simp_all add: disciplined_def Clear_def n_def t_def)
  have whole: "history e' = history e @ ClearCall # ClearCall # t"
    using append_take_drop_id [of "Suc (Suc n)" "history e'"] pre by (simp add: t_def)
  show ?thesis
    using ok msg by (simp add: disciplined_def whole)
qed

lemma ReleaseBuffer_handler:
  "(case ReleaseBuffer h b of Inl e \<Rightarrow> Inl e | Inr (h', b') \<Rightarrow> Inr (h', f b')) = Inr (h1, a1) \<Longrightarrow>
   \<exists>b'. a1 = f b'"
  by (auto split: sum.splits)

lemma stb_finish_handler:
  "stb_finish h (a\<lparr>errorHandler' := Clear e\<rparr>) r = Inr (h', a') \<Longrightarrow>
   disciplined e (errorHandler' a')"
  by (auto simp add: stb_finish_def stb_stored_def decoder_block_def Let_def
        split: stb_result.splits option.splits sum.splits prod.splits)

lemma LoadFromFile_handler:
  "LoadFromFile ev h a path = Inr (h', a') \<Longrightarrow> disciplined (errorHandler' a) (errorHandler' a')"
  by (simp add: LoadFromFile_def Let_def stb_finish_handler)

lemma LoadFile_handler:
  "LoadFile ev h a bs = Inr (h', a') \<Longrightarrow> disciplined (errorHandler' a) (errorHandler' a')"
  by (simp add: LoadFile_def Let_def stb_finish_handler)

lemma LoadWebP_handler:
  "LoadWebP ev h a bs = Inr (h', a') \<Longrightarrow> disciplined (errorHandler' a) (errorHandler' a')"
  by (auto simp add: LoadWebP_def Let_def
        split: option.splits sum.splits prod.splits if_splits)

lemma LoadJpeg_handler:
  "LoadJpeg ev h a bs = Inr (h', a') \<Longrightarrow> disciplined (errorHandler' a) (errorHandler' a')"
  by (auto simp add: LoadJpeg_def Let_def
        split: option.splits sum.splits prod.splits tj_header.splits)

lemma LoadWebPFromFile_handler:
  "LoadWebPFromFile ev h a path = Inr (h', a') \<Longrightarrow>
   disciplined (errorHandler' a) (errorHandler' a')"
  by (auto simp add: LoadWebPFromFile_def Let_def split: file_io.splits if_splits
        dest!: LoadWebP_handler intro: disciplined_nested)

lemma LoadJpegFromFile_handler:
  "LoadJpegFromFile ev h a path = Inr (h', a') \<Longrightarrow>
   disciplined (errorHandler' a) (errorHandler' a')"
  by (auto simp add: LoadJpegFromFile_def Let_def split: file_io.splits if_splits
        dest!: LoadJpeg_handler intro: disciplined_nested)

lemma Load_path_handler:
  "Load_path ev h a path = Inr (h', a') \<Longrightarrow> disciplined (errorHandler' a) (errorHandler' a')"
  by (auto simp add: Load_path_def Let_def split: file_io.splits if_splits
        dest!: LoadWebPFromFile_handler LoadJpegFromFile_handler LoadFromFile_handler
        intro: disciplined_nested)

lemma Load_bytes_handler:
  "Load_bytes ev h a bs = Inr (h', a') \<Longrightarrow> disciplined (errorHandler' a) (errorHandler' a')"
  by (auto simp add: Load_bytes_def Let_def split: if_splits
        dest!: LoadWebP_handler LoadJpeg_handler LoadFile_handler intro: disciplined_nested)

lemma Load_pixels_handler:
  "Load_pixels h a p sz w ht c = Inr (h', a') \<Longrightarrow> disciplined (errorHandler' a) (errorHandler' a')"
  by (auto simp add: Load_pixels_def Let_def split: sum.splits prod.splits)

lemma queries_handler:
  "disciplined (errorHandler' a) (errorHandler' (fst (GetWidth a)))"
  "disciplined (errorHandler' a) (errorHandler' (fst (GetHeight a)))"
  "disciplined (errorHandler' a) (errorHandler' (fst (GetChannelCount a)))"
  by (simp_all add: GetWidth_def GetHeight_def GetChannelCount_def Let_def)

lemma Clip_handler:
  "Clip h a x y w ht = Inr (h', a') \<Longrightarrow> disciplined (errorHandler' a) (errorHandler' a')"
  by (auto simp add: Clip_def Let_def split: sum.splits prod.splits if_splits)

lemma Resize_handler:
  "Resize h a w ht = Inr (h', a') \<Longrightarrow> disciplined (errorHandler' a) (errorHandler' a')"
  by (auto simp add: Resize_def Let_def split: sum.splits prod.splits if_splits)

lemma Unload_handler:
  "Unload h a = Inr (h', a') \<Longrightarrow> disciplined (errorHandler' a) (errorHandler' a')"
  by (auto simp add: Unload_def Let_def split: sum.splits prod.splits if_splits)

lemma CopyTo_handler:
  "CopyTo h a dest = Inr (h', a') \<Longrightarrow> disciplined (errorHandler' a) (errorHandler' a')"
  by (auto simp add: CopyTo_def Let_def split: sum.splits prod.splits if_splits)

text \<open>
  C4 (amended). Every public operation other than Clone and GetError first clears the
  error state, also when it cannot fail, and after that sets it at most once, as its last
  handler call; the message it leaves is that one, or none. (An entry point that calls
  another entry point clears once more before any message is set.)
\<close>

theorem error_state_discipline:
  assumes "clears_first c" and "run ev c h a = Inr (h', a', r)"
  shows "disciplined (errorHandler' a) (errorHandler' a')"
proof (cases c)
  case (CallLoad_path path)
  with assms(2) show ?thesis
    by (auto simp add: returning_void_def split: sum.splits dest: Load_path_handler)
next
  case (CallLoad_bytes bs)
  with assms(2) show ?thesis
    by (auto simp add: returning_void_def split: sum.splits dest: Load_bytes_handler)
next
  case (CallLoad_pixels p sz w ht ch)
  with assms(2) show ?thesis
    by (auto simp add: returning_void_def split: sum.splits dest: Load_pixels_handler)
next
  case CallGetError
  with assms(1) show ?thesis by (simp add: clears_first_def)
next
  case CallGetWidth
  with assms(2) queries_handler(1) [of a] show ?thesis by (auto split: prod.splits)
next
  case CallGetHeight
  with assms(2) queries_handler(2) [of a] show ?thesis by (auto split: prod.splits)
next
  case CallGetChannelCount
  with assms(2) queries_handler(3) [of a] show ?thesis by (auto split: prod.splits)
next
  case (CallClip x y w ht)
  with assms(2) show ?thesis
    by (auto simp add: returning_void_def split: sum.splits dest: Clip_handler)
next
  case (CallResize w ht)
  with assms(2) show ?thesis
    by (auto simp add: returning_void_def split: sum.splits dest: Resize_handler)
next
  case CallUnload
  with assms(2) show ?thesis
    by (auto simp add: returning_void_def split: sum.splits dest: Unload_handler)
next
  case (CallCopyTo dest)
  with assms(2) show ?thesis
    by (auto simp add: returning_void_def split: sum.splits dest: CopyTo_handler)
next
  case CallClone
  with assms(1) show ?thesis by (simp add: clears_first_def)
qed

theorem error_state_discipline_witness:
  "clears_first CallGetWidth \<and>
   run truncated_webp CallGetWidth sample_heap
       (sample_asset\<lparr>errorHandler' := \<lparr>error = ''old'', history = [ClearCall, SetErrorCall ''old'']\<rparr>\<rparr>) =
     Inr (sample_heap,
          sample_asset\<lparr>errorHandler' :=
            \<lparr>error = [], history = [ClearCall, SetErrorCall ''old'', ClearCall]\<rparr>\<rparr>,
          Number 2) \<and>
   disciplined \<lparr>error = ''old'', history = [ClearCall, SetErrorCall ''old'']\<rparr>
     \<lparr>error = [], history = [ClearCall, SetErrorCall ''old'', ClearCall]\<rparr>"
proof -
  define a where "a = sample_asset\<lparr>errorHandler' :=
    \<lparr>error = ''old'', history = [ClearCall, SetErrorCall ''old'']\<rparr>\<rparr>"
  define a' where "a' = sample_asset\<lparr>errorHandler' :=
    \<lparr>error = [], history = [ClearCall, SetErrorCall ''old'', ClearCall]\<rparr>\<rparr>"
  have c: "clears_first CallGetWidth"
    by (simp add: clears_first_def)
  have r: "run truncated_webp CallGetWidth sample_heap a = Inr (sample_heap, a', Number 2)"
    by (simp add: a_def a'_def GetWidth_def sample_asset_def Clear_def Let_def)
  show ?thesis
    using c r error_state_discipline [OF c r]
    by (simp add: a_def a'_def)
qed

text \<open>
  C4 as stated fails for Clone and for GetError: after a Clip that failed, either of them
  returns with the message of that Clip still in place, and makes no handler call on the
  instance.
\<close>

theorem Clone_and_GetError_keep_the_error:
  "Clip sample_heap sample_asset 5 5 1 1 = Inr (sample_heap, after_failed_Clip) \<and>
   GetError after_failed_Clip = ''range exceeds image size'' \<and>
   run truncated_webp CallGetError sample_heap after_failed_Clip =
     Inr (sample_heap, after_failed_Clip, Message ''range exceeds image size'') \<and>
   run truncated_webp CallClone sample_heap after_failed_Clip =
     Inr (sample_heap @ sample_heap, after_failed_Clip,
          Instance (sample_asset\<lparr>errorHandler' := \<lparr>error = [], history = [ClearCall]\<rparr>,
                      buffer' := \<lparr>buffer = Some 1, source = Self\<rparr>\<rparr>)) \<and>
   \<not> disciplined (errorHandler' after_failed_Clip) (errorHandler' after_failed_Clip)"
proof -
  have clip: "Clip sample_heap sample_asset 5 5 1 1 = Inr (sample_heap, after_failed_Clip)"
    by (simp add: Clip_def after_failed_Clip_def sample_asset_def Let_def i32_def Clear_def
          SetError_def ERROR_STR_IMAGE_SIZE_OVERFLOW_def)
  have clone: "Clone sample_heap after_failed_Clip =
      Inr (sample_heap @ sample_heap,
           sample_asset\<lparr>errorHandler' := \<lparr>error = [], history = [ClearCall]\<rparr>,
             buffer' := \<lparr>buffer = Some 1, source = Self\<rparr>\<rparr>)"
    by (simp add: Clone_def Load_pixels_def ImageAsset_new_def ReleaseBuffer_def AllocateBuffer_def
          new_array_def PTRDIFF_MAX_def memcpy_def after_failed_Clip_def sample_asset_def
          sample_heap_def blocks_def put_def Clear_def Let_def i32_def size_t_def)
  have undisciplined:
    "\<not> disciplined (errorHandler' after_failed_Clip) (errorHandler' after_failed_Clip)"
    by (simp add: disciplined_def)
  show ?thesis
    using clip clone undisciplined
    by (simp add: GetError_def after_failed_Clip_def)
qed

section \<open>What an operation leaves alone\<close>

lemma memcpy_frame:
  "memcpy h dst doff src soff n = Inr h' \<Longrightarrow>
   length h' = length h \<and> (\<forall>q. dst \<noteq> Some q \<longrightarrow> blocks h' q = blocks h q)"
  by (auto simp add: memcpy_def split: if_splits option.splits)

lemma fold_Clip_row_Inl [simp]:
  "fold (Clip_row newp oldp ns ss sl x c) rows (Inl e) = Inl e"
  by (induction rows) (simp_all add: Clip_row_def)

lemma fold_Clip_row_frame:
  "fold (Clip_row newp oldp ns ss sl x c) rows (Inr h) = Inr h' \<Longrightarrow>
   length h' = length h \<and> (\<forall>q. newp \<noteq> Some q \<longrightarrow> blocks h' q = blocks h q)"
proof (induction rows arbitrary: h)
  case Nil
  then show ?case by simp
next
  case (Cons iy rows)
  show ?case
  proof (cases "Clip_row newp oldp ns ss sl x c iy (Inr h)")
    case (Inl e)
    with Cons.prems show ?thesis by simp
  next
    case (Inr h1)
    then have "memcpy h newp (i32 (ns * int iy)) oldp (i32 (ss * i32 (int iy + sl)) + i32 (x * c))
        (size_t ns) = Inr h1"
      by (simp add: Clip_row_def)
    from memcpy_frame [OF this] Cons.IH [of h1] Cons.prems Inr show ?thesis
      by simp
  qed
qed

lemma ScaleImage_at_frame:
  "ScaleImage_at n h s d sw sh dw dh = Inr h' \<Longrightarrow>
   length h' = length h \<and> (\<forall>q. d \<noteq> Some q \<longrightarrow> blocks h' q = blocks h q)"
  by (auto simp add: ScaleImage_at_def split: sum.splits option.splits)

lemma ReleaseBuffer_frame:
  "ReleaseBuffer h b = Inr (h', b') \<Longrightarrow>
   length h' = length h \<and> buffer b' = None \<and> (\<forall>q. buffer b \<noteq> Some q \<longrightarrow> blocks h' q = blocks h q)"
  by (auto simp add: ReleaseBuffer_def delete_array_def stbi_image_free_def
        split: option.splits sum.splits BufferSource.splits)

lemma AllocateBuffer_frame:
  "AllocateBuffer h n = Inr (h', b) \<Longrightarrow>
   length h \<le> length h' \<and> (buffer b = None \<or> buffer b = Some (length h)) \<and>
   (\<forall>q<length h. blocks h' q = blocks h q)"
  by (auto simp add: AllocateBuffer_def new_array_def split: if_splits)

lemma Load_pixels_kept:
  assumes "p < length h" and "buffer (buffer' b) \<noteq> Some p"
    and "Load_pixels h b src sz w ht c = Inr (h', b')"
  shows "kept p h h' b'"
proof -
  from assms(3) obtain h1 r h2 nb h3 where
      1: "ReleaseBuffer h (buffer' b) = Inr (h1, r)" and
      2: "AllocateBuffer h1 sz = Inr (h2, nb)" and
      3: "memcpy h2 (buffer nb) 0 src 0 sz = Inr h3" and
      4: "h' = h3" "buffer' b' = nb"
    by (auto simp add: Load_pixels_def Let_def split: sum.splits prod.splits)
  from ReleaseBuffer_frame [OF 1] AllocateBuffer_frame [OF 2] memcpy_frame [OF 3] assms(1,2) 4
  show ?thesis
    by (auto simp add: kept_def)
qed

lemma Clip_kept:
  assumes "p < length h" and "buffer (buffer' b) \<noteq> Some p"
    and "Clip h b x y w ht = Inr (h', b')"
  shows "kept p h h' b'"
proof (cases "h' = h \<and> buffer' b' = buffer' b")
  case True
  with assms show ?thesis by (simp add: kept_def)
next
  case False
  with assms(3) obtain sz ns ss sl h1 nb h2 r where
      1: "AllocateBuffer h sz = Inr (h1, nb)" and
      2: "fold (Clip_row (buffer nb) (buffer (buffer' b)) ns ss sl x (channelCount' b))
            [0..<nat ht] (Inr h1) = Inr h2" and
      3: "ReleaseBuffer h2 (buffer' b) = Inr (h', r)" and
      4: "buffer' b' = nb"
    by (auto simp add: Clip_def Let_def split: sum.splits prod.splits if_splits)
  from AllocateBuffer_frame [OF 1] fold_Clip_row_frame [OF 2] ReleaseBuffer_frame [OF 3]
    assms(1,2) 4
  show ?thesis
    by (auto simp add: kept_def)
qed

lemma Resize_kept:
  assumes "p < length h" and "buffer (buffer' b) \<noteq> Some p"
    and "Resize h b w ht = Inr (h', b')"
  shows "kept p h h' b'"
  using assms
  by (auto simp add: Resize_def Let_def kept_def split: sum.splits prod.splits if_splits
        dest!: AllocateBuffer_frame ReleaseBuffer_frame ScaleImage_at_frame)

lemma Unload_kept:
  assumes "p < length h" and "buffer (buffer' b) \<noteq> Some p"
    and "Unload h b = Inr (h', b')"
  shows "kept p h h' b'"
  using assms
  by (auto simp add: Unload_def Let_def kept_def split: sum.splits prod.splits if_splits
        dest!: ReleaseBuffer_frame)

lemma CopyTo_kept:
  assumes "p < length h" and "buffer (buffer' b) \<noteq> Some p" and "dest \<noteq> Some p"
    and "CopyTo h b dest = Inr (h', b')"
  shows "kept p h h' b'"
  using assms
  by (auto simp add: CopyTo_def Let_def kept_def split: sum.splits prod.splits if_splits
        dest!: memcpy_frame)

lemma Clone_kept:
  assumes "p < length h" and "Clone h b = Inr (h', b')"
  shows "kept p h h' b'"
  using assms Load_pixels_kept [of p h ImageAsset_new]
  by (simp add: Clone_def ImageAsset_new_def)

lemma stb_finish_kept:
  assumes "p < length h" and "buffer (buffer' b) \<noteq> Some p"
    and "stb_finish h b r = Inr (h', b')"
  shows "kept p h h' b'"
  using assms
  by (auto simp add: stb_finish_def stb_stored_def decoder_block_def Let_def kept_def
        split: stb_result.splits option.splits sum.splits prod.splits
        dest!: ReleaseBuffer_frame)

lemma LoadWebP_kept:
  assumes "p < length h" and "buffer (buffer' b) \<noteq> Some p"
    and "LoadWebP ev h b bs = Inr (h', b')"
  shows "kept p h h' b'"
  using assms
  by (auto simp add: LoadWebP_def Let_def kept_def new_array_def scope_exit_def
        split: option.splits sum.splits prod.splits if_splits
        dest!: ReleaseBuffer_frame)

lemma LoadJpeg_kept:
  assumes "p < length h" and "buffer (buffer' b) \<noteq> Some p"
    and "LoadJpeg ev h b bs = Inr (h', b')"
  shows "kept p h h' b'"
  using assms
  by (auto simp add: LoadJpeg_def Let_def kept_def new_array_def scope_exit_def
        split: option.splits sum.splits prod.splits if_splits tj_header.splits
        dest!: ReleaseBuffer_frame)

lemma LoadWebPFromFile_kept:
  assumes "p < length h" and "buffer (buffer' b) \<noteq> Some p"
    and "LoadWebPFromFile ev h b path = Inr (h', b')"
  shows "kept p h h' b'"
proof (cases "h' = h \<and> buffer' b' = buffer' b")
  case True
  with assms show ?thesis by (simp add: kept_def)
next
  case False
  with assms(3) obtain bs where
    "LoadWebP ev h (b\<lparr>errorHandler' := Clear (errorHandler' b)\<rparr>) bs = Inr (h', b')"
    by (auto simp add: LoadWebPFromFile_def Let_def split: file_io.splits if_splits)
  from LoadWebP_kept [OF assms(1) _ this] assms(2) show ?thesis by simp
qed

lemma LoadJpegFromFile_kept:
  assumes "p < length h" and "buffer (buffer' b) \<noteq> Some p"
    and "LoadJpegFromFile ev h b path = Inr (h', b')"
  shows "kept p h h' b'"
proof (cases "h' = h \<and> buffer' b' = buffer' b")
  case True
  with assms show ?thesis by (simp add: kept_def)
next
  case False
  with assms(3) obtain bs where
    "LoadJpeg ev h (b\<lparr>errorHandler' := Clear (errorHandler' b)\<rparr>) bs = Inr (h', b')"
    by (auto simp add: LoadJpegFromFile_def Let_def split: file_io.splits if_splits)
  from LoadJpeg_kept [OF assms(1) _ this] assms(2) show ?thesis by simp
qed

lemma LoadFromFile_kept:
  assumes "p < length h" and "buffer (buffer' b) \<noteq> Some p"
    and "LoadFromFile ev h b path = Inr (h', b')"
  shows "kept p h h' b'"
  using assms stb_finish_kept [of p h "b\<lparr>errorHandler' := Clear (errorHandler' b)\<rparr>"]
  by (simp add: LoadFromFile_def Let_def)

lemma LoadFile_kept:
  assumes "p < length h" and "buffer (buffer' b) \<noteq> Some p"
    and "LoadFile ev h b bs = Inr (h', b')"
  shows "kept p h h' b'"
  using assms stb_finish_kept [of p h "b\<lparr>errorHandler' := Clear (errorHandler' b)\<rparr>"]
  by (simp add: LoadFile_def Let_def)

lemma Load_path_kept:
  assumes "p < length h" and "buffer (buffer' b) \<noteq> Some p"
    and "Load_path ev h b path = Inr (h', b')"
  shows "kept p h h' b'"
proof (cases "h' = h \<and> buffer' b' = buffer' b")
  case True
  with assms show ?thesis by (simp add: kept_def)
next
  case False
  define b0 where "b0 = b\<lparr>errorHandler' := Clear (errorHandler' b)\<rparr>"
  from False assms(3) have
    "LoadWebPFromFile ev h b0 path = Inr (h', b') \<or>
     LoadJpegFromFile ev h b0 path = Inr (h', b') \<or>
     LoadFromFile ev h b0 path = Inr (h', b')"
    by (auto simp add: Load_path_def Let_def b0_def split: file_io.splits if_splits)
  moreover have "buffer (buffer' b0) \<noteq> Some p"
    using assms(2) by (simp add: b0_def)
  ultimately show ?thesis
    using assms(1) by (auto dest: LoadWebPFromFile_kept LoadJpegFromFile_kept LoadFromFile_kept)
qed

lemma Load_bytes_kept:
  assumes "p < length h" and "buffer (buffer' b) \<noteq> Some p"
    and "Load_bytes ev h b bs = Inr (h', b')"
  shows "kept p h h' b'"
proof -
  define b0 where "b0 = b\<lparr>errorHandler' := Clear (errorHandler' b)\<rparr>"
  from assms(3) have
    "LoadWebP ev h b0 bs = Inr (h', b') \<or> LoadJpeg ev h b0 bs = Inr (h', b') \<or>
     LoadFile ev h b0 bs = Inr (h', b')"
    by (auto simp add: Load_bytes_def Let_def b0_def split: if_splits)
  moreover have "buffer (buffer' b0) \<noteq> Some p"
    using assms(2) by (simp add: b0_def)
  ultimately show ?thesis
    using assms(1) by (auto dest: LoadWebP_kept LoadJpeg_kept LoadFile_kept)
qed

lemma queries_kept:
  "buffer' (fst (GetWidth b)) = buffer' b"
  "buffer' (fst (GetHeight b)) = buffer' b"
  "buffer' (fst (GetChannelCount b)) = buffer' b"
  by (simp_all add: GetWidth_def GetHeight_def GetChannelCount_def Let_def)

lemma run_kept:
  assumes "p < length h" and "buffer (buffer' b) \<noteq> Some p" and "c \<noteq> CallCopyTo (Some p)"
    and "run ev c h b = Inr (h', b', r)"
  shows "kept p h h' b'"
proof (cases c)
  case (CallLoad_path path)
  with assms show ?thesis
    by (auto simp add: returning_void_def split: sum.splits dest: Load_path_kept)
next
  case (CallLoad_bytes bs)
  with assms show ?thesis
    by (auto simp add: returning_void_def split: sum.splits dest: Load_bytes_kept)
next
  case (CallLoad_pixels src sz w ht ch)
  with assms show ?thesis
    by (auto simp add: returning_void_def split: sum.splits dest: Load_pixels_kept)
next
  case CallGetError
  with assms show ?thesis by (auto simp add: kept_def)
next
  case CallGetWidth
  with assms queries_kept(1) [of b] show ?thesis by (auto simp add: kept_def split: prod.splits)
next
  case CallGetHeight
  with assms queries_kept(2) [of b] show ?thesis by (auto simp add: kept_def split: prod.splits)
next
  case CallGetChannelCount
  with assms queries_kept(3) [of b] show ?thesis by (auto simp add: kept_def split: prod.splits)
next
  case (CallClip x y w ht)
  with assms show ?thesis
    by (auto simp add: returning_void_def split: sum.splits dest: Clip_kept)
next
  case (CallResize w ht)
  with assms show ?thesis
    by (auto simp add: returning_void_def split: sum.splits dest: Resize_kept)
next
  case CallUnload
  with assms show ?thesis
    by (auto simp add: returning_void_def split: sum.splits dest: Unload_kept)
next
  case (CallCopyTo dest)
  with assms show ?thesis
    by (auto simp add: returning_void_def split: sum.splits dest: CopyTo_kept)
next
  case CallClone
  with assms Clone_kept [of p h b] show ?thesis
    by (auto simp add: kept_def split: sum.splits)
qed

section \<open>Clone\<close>

lemma i32_mult_left: "i32 (i32 a * b) = i32 (a * b)"
proof -
  have "i32 a mod 4294967296 = a mod 4294967296"
    by (simp add: i32_def mod_simps)
  then have "(i32 a * b) mod 4294967296 = (a * b) mod 4294967296"
    by (rule mod_mult_cong) simp
  then have "(i32 a * b + 2147483648) mod 4294967296 = (a * b + 2147483648) mod 4294967296"
    by (rule mod_add_cong) simp
  then show ?thesis
    by (simp add: i32_def [of "i32 a * b"] i32_def [of "a * b"])
qed

lemma well_formed_size:
  assumes "well_formed h a"
  shows "size_t (i32 (i32 (width' a * height' a) * channelCount' a)) = length (pixels h a)"
proof -
  from assms obtain p cs where p: "buffer (buffer' a) = Some p" "blocks h p = Some cs"
    and n: "0 \<le> width' a * height' a * channelCount' a"
      "width' a * height' a * channelCount' a < 2147483648"
      "int (length cs) = width' a * height' a * channelCount' a"
    by (auto simp add: well_formed_def split: option.splits)
  have "i32 (width' a * height' a * channelCount' a) = width' a * height' a * channelCount' a"
    using n(1,2) by (intro i32_id) simp_all
  then show ?thesis
    using p n by (simp add: i32_mult_left size_t_def pixels_def deref_def)
qed

lemma Clone_well_formed:
  assumes "well_formed h a"
  shows "\<exists>h1 b. Clone h a = Inr (h1, b) \<and> pixels h1 b = pixels h a \<and>
           width' b = width' a \<and> height' b = height' a \<and> channelCount' b = channelCount' a \<and>
           source (buffer' b) = Self \<and> GetError b = [] \<and>
           buffer (buffer' b) \<noteq> buffer (buffer' a) \<and> pixels h1 a = pixels h a \<and>
           length h \<le> length h1"
proof -
  from assms obtain p cs where p: "buffer (buffer' a) = Some p" "blocks h p = Some cs"
    by (auto simp add: well_formed_def split: option.splits)
  have own: "owns h ImageAsset_new"
    by (simp add: owns_def ImageAsset_new_def)
  have sz: "size_t (i32 (i32 (width' a * height' a) * channelCount' a)) = length cs"
    using well_formed_size [OF assms] p by (simp add: pixels_def deref_def)
  have small: "length cs \<le> PTRDIFF_MAX"
    using assms p by (simp add: well_formed_def PTRDIFF_MAX_def)
  have less: "p < length h"
    using p(2) by (rule blocks_Some_less)
  show ?thesis
  proof (cases "length cs = 0")
    case True
    have "Load_pixels h ImageAsset_new (Some p) 0 (width' a) (height' a) (channelCount' a) =
        Inr (h, ImageAsset_new\<lparr>errorHandler' := Clear (errorHandler' ImageAsset_new),
               buffer' := \<lparr>buffer = None, source = Self\<rparr>,
               width' := width' a, height' := height' a, channelCount' := channelCount' a\<rparr>)"
      using Load_pixels_no_bytes [OF own, of "Some p"] by (simp add: ImageAsset_new_def)
    then show ?thesis
      using p True
      by (simp add: Clone_def sz pixels_def deref_def GetError_def Clear_def ImageAsset_new_def)
  next
    case False
    then have pos: "0 < length cs" by simp
    have "Load_pixels h ImageAsset_new (Some p) (length cs) (width' a) (height' a) (channelCount' a) =
        Inr (put (h @ [Some (replicate (length cs) None)]) (length h) (Some (take (length cs) cs)),
             ImageAsset_new\<lparr>errorHandler' := Clear (errorHandler' ImageAsset_new),
               buffer' := \<lparr>buffer = Some (length h), source = Self\<rparr>,
               width' := width' a, height' := height' a, channelCount' := channelCount' a\<rparr>)"
    proof -
      have ne: "buffer (buffer' ImageAsset_new) \<noteq> Some p"
        by (simp add: ImageAsset_new_def)
      show ?thesis
        using Load_pixels_bytes [OF own pos small p(2) order_refl ne]
        by (simp add: ImageAsset_new_def)
    qed
    then show ?thesis
      using p less
      by (simp add: Clone_def sz pixels_def deref_def GetError_def Clear_def ImageAsset_new_def)
  qed
qed

lemma run_all_kept:
  assumes "list_all (\<lambda>c. c \<noteq> CallCopyTo (Some p)) cs"
    and "p < length h" and "buffer (buffer' b) \<noteq> Some p"
    and "run_all ev cs h b = Inr (h', b')"
  shows "blocks h' p = blocks h p"
  using assms
proof (induction cs arbitrary: h b)
  case Nil
  then show ?case by simp
next
  case (Cons c cs)
  from Cons.prems(4) obtain h1 b1 r where
      step: "run ev c h b = Inr (h1, b1, r)" and rest: "run_all ev cs h1 b1 = Inr (h', b')"
    by (auto split: sum.splits)
  from Cons.prems(1) have c: "c \<noteq> CallCopyTo (Some p)" and cs: "list_all (\<lambda>c. c \<noteq> CallCopyTo (Some p)) cs"
    by simp_all
  from run_kept [OF Cons.prems(2,3) c step]
  have k: "blocks h1 p = blocks h p" "p < length h1" "buffer (buffer' b1) \<noteq> Some p"
    using Cons.prems(2) by (simp_all add: kept_def)
  from Cons.IH [OF cs k(2,3) rest] k(1) show ?case by simp
qed

text \<open>
  C8 (amended). Clone of a loaded instance whose buffer holds exactly its
  \<open>width * height * channelCount\<close> bytes (width, height and channel count not negative,
  the count below \<open>2 ^ 31\<close>) returns a new instance with the same width, height and
  channel count whose buffer is another block holding the same bytes, and leaves the
  original's bytes as they were. Whatever calls are then made on the clone (Clip, Resize,
  the Loads, Unload, ...; a CopyTo may not name the original's buffer as its destination),
  whenever they return the original's bytes are still the same.
\<close>

theorem Clone_is_independent:
  assumes "well_formed h a"
    and "list_all (\<lambda>c. c \<noteq> CallCopyTo (buffer (buffer' a))) cs"
  shows "\<exists>h1 b. Clone h a = Inr (h1, b) \<and>
           pixels h1 b = pixels h a \<and>
           width' b = width' a \<and> height' b = height' a \<and> channelCount' b = channelCount' a \<and>
           source (buffer' b) = Self \<and>
           buffer (buffer' b) \<noteq> buffer (buffer' a) \<and>
           pixels h1 a = pixels h a \<and>
           (\<forall>h2 b2. run_all ev cs h1 b = Inr (h2, b2) \<longrightarrow> pixels h2 a = pixels h a)"
proof -
  from assms(1) obtain p cells where p: "buffer (buffer' a) = Some p" "blocks h p = Some cells"
    by (auto simp add: well_formed_def split: option.splits)
  from Clone_well_formed [OF assms(1)] obtain h1 b where
      clone: "Clone h a = Inr (h1, b)" and
      same: "pixels h1 b = pixels h a" "width' b = width' a" "height' b = height' a"
        "channelCount' b = channelCount' a" "source (buffer' b) = Self" and
      other: "buffer (buffer' b) \<noteq> buffer (buffer' a)" and
      still: "pixels h1 a = pixels h a" and len: "length h \<le> length h1"
    by blast
  have less: "p < length h1"
    using blocks_Some_less [OF p(2)] len by simp
  have "pixels h2 a = pixels h a" if "run_all ev cs h1 b = Inr (h2, b2)" for h2 b2
  proof -
    have "blocks h2 p = blocks h1 p"
      using run_all_kept [OF _ less _ that] assms(2) other p(1) by simp
    then show ?thesis
      using still p(1) by (simp add: pixels_def deref_def)
  qed
  then show ?thesis
    using clone same other still by blast
qed

theorem Clone_is_independent_witness:
  "well_formed sample_heap sample_asset \<and>
   list_all (\<lambda>c. c \<noteq> CallCopyTo (buffer (buffer' sample_asset))) [CallClip 0 0 1 1, CallUnload] \<and>
   Clone sample_heap sample_asset = Inr (sample_heap @ sample_heap, sample_clone) \<and>
   pixels (sample_heap @ sample_heap) sample_clone = pixels sample_heap sample_asset \<and>
   buffer (buffer' sample_clone) \<noteq> buffer (buffer' sample_asset) \<and>
   run_all truncated_webp [CallClip 0 0 1 1, CallUnload] (sample_heap @ sample_heap) sample_clone =
     Inr (sample_heap @ [None, None],
          sample_clone\<lparr>errorHandler' := \<lparr>error = [], history = [ClearCall, ClearCall, ClearCall]\<rparr>,
            buffer' := \<lparr>buffer = None, source = Self\<rparr>,
            width' := 0, height' := 0, channelCount' := 0\<rparr>) \<and>
   pixels (sample_heap @ [None, None]) sample_asset = pixels sample_heap sample_asset"
proof -
  have wf: "well_formed sample_heap sample_asset"
    by (simp add: well_formed_def sample_heap_def sample_asset_def blocks_def)
  have calls: "list_all (\<lambda>c. c \<noteq> CallCopyTo (buffer (buffer' sample_asset)))
      [CallClip 0 0 1 1, CallUnload]"
    by simp
  have clone: "Clone sample_heap sample_asset = Inr (sample_heap @ sample_heap, sample_clone)"
    by (simp add: Clone_def Load_pixels_def ImageAsset_new_def ReleaseBuffer_def AllocateBuffer_def
          new_array_def PTRDIFF_MAX_def memcpy_def sample_clone_def sample_asset_def
          sample_heap_def blocks_def put_def Clear_def Let_def i32_def size_t_def)
  have clip: "Clip (sample_heap @ sample_heap) sample_clone 0 0 1 1 =
      Inr (sample_heap @ [None, Some (map Some [30, 31, 32])],
           sample_clone\<lparr>errorHandler' := \<lparr>error = [], history = [ClearCall, ClearCall]\<rparr>,
             buffer' := \<lparr>buffer = Some 2, source = Self\<rparr>, width' := 1, height' := 1\<rparr>)"
    by (simp add: Clip_def Clip_row_def AllocateBuffer_def new_array_def PTRDIFF_MAX_def memcpy_def
          ReleaseBuffer_def delete_array_def sample_clone_def sample_asset_def sample_heap_def
          blocks_def put_def Clear_def Let_def i32_def size_t_def nth_append)
  have unload: "Unload (sample_heap @ [None, Some (map Some [30, 31, 32])])
       (sample_clone\<lparr>errorHandler' := \<lparr>error = [], history = [ClearCall, ClearCall]\<rparr>,
             buffer' := \<lparr>buffer = Some 2, source = Self\<rparr>, width' := 1, height' := 1\<rparr>) =
      Inr (sample_heap @ [None, None],
          sample_clone\<lparr>errorHandler' := \<lparr>error = [], history = [ClearCall, ClearCall, ClearCall]\<rparr>,
            buffer' := \<lparr>buffer = None, source = Self\<rparr>,
            width' := 0, height' := 0, channelCount' := 0\<rparr>)"
    by (simp add: Unload_def ReleaseBuffer_def delete_array_def sample_clone_def sample_heap_def
          blocks_def put_def Clear_def Let_def nth_append)
  have runs: "run_all truncated_webp [CallClip 0 0 1 1, CallUnload] (sample_heap @ sample_heap)
      sample_clone =
     Inr (sample_heap @ [None, None],
          sample_clone\<lparr>errorHandler' := \<lparr>error = [], history = [ClearCall, ClearCall, ClearCall]\<rparr>,
            buffer' := \<lparr>buffer = None, source = Self\<rparr>,
            width' := 0, height' := 0, channelCount' := 0\<rparr>)"
    using clip unload by (simp add: returning_void_def)
  from Clone_is_independent [OF wf calls, of truncated_webp] clone runs
  have "pixels (sample_heap @ sample_heap) sample_clone = pixels sample_heap sample_asset \<and>
        buffer (buffer' sample_clone) \<noteq> buffer (buffer' sample_asset) \<and>
        pixels (sample_heap @ [None, None]) sample_asset = pixels sample_heap sample_asset"
    by auto
  with wf calls clone runs show ?thesis
    by blast
qed

text \<open>
  C8 as stated fails on a loaded instance whose buffer is shorter than its width, height
  and channel count say. A raw-pixel Load of 5 bytes as a 2 x 2 RGB image succeeds and
  leaves a buffer of 5 bytes under a size of 12; Clone then allocates 12 bytes and reads
  them from the 5-byte block, past its end, and returns no copy.
\<close>

theorem Clone_of_short_buffer_faults:
  "Load_pixels short_heap ImageAsset_new (Some 0) 5 2 2 3 =
     Inr (short_heap @ short_heap, short_asset) \<and>
   GetError short_asset = [] \<and>
   buffer (buffer' short_asset) = Some 1 \<and>
   pixels (short_heap @ short_heap) short_asset = map Some [1, 2, 3, 4, 5] \<and>
   width' short_asset * height' short_asset * channelCount' short_asset = 12 \<and>
   \<not> well_formed (short_heap @ short_heap) short_asset \<and>
   run truncated_webp CallClone (short_heap @ short_heap) short_asset = Inl memory_fault"
  by (simp add: Load_pixels_def Clone_def ImageAsset_new_def short_heap_def short_asset_def
        ReleaseBuffer_def AllocateBuffer_def new_array_def PTRDIFF_MAX_def memcpy_def blocks_def
        put_def Clear_def Let_def size_t_def i32_def GetError_def pixels_def deref_def
        well_formed_def nth_append)

section \<open>ScaleImage\<close>

lemma ScaleImage_byte_loop:
  assumes "n \<le> P" and "db * P + P \<le> length d" and "length d < 4294967296"
    and "sb * P + P \<le> length src" and "sb * P + P \<le> 4294967296"
  shows "\<exists>d'. fold (ScaleImage_byte P src db sb) [0..<n] (Inr d) = Inr d' \<and>
           length d' = length d \<and>
           (\<forall>k<length d. d' ! k =
              (if db * P \<le> k \<and> k < db * P + n then src ! (sb * P + (k - db * P)) else d ! k))"
  using assms(1)
proof (induction n)
  case 0
  then show ?case by auto
next
  case (Suc n)
  then obtain d' where d': "fold (ScaleImage_byte P src db sb) [0..<n] (Inr d) = Inr d'"
      "length d' = length d"
      "\<forall>k<length d. d' ! k =
         (if db * P \<le> k \<and> k < db * P + n then src ! (sb * P + (k - db * P)) else d ! k)"
    by auto
  from Suc.prems assms(2,3) have di: "(db * P + n) mod 4294967296 = db * P + n" "db * P + n < length d"
    by simp_all
  from Suc.prems assms(4,5) have si: "(sb * P + n) mod 4294967296 = sb * P + n" "sb * P + n < length src"
    by simp_all
  have step: "fold (ScaleImage_byte P src db sb) [0..<Suc n] (Inr d) =
      Inr (d'[db * P + n := src ! (sb * P + n)])"
    using di si d'(1,2) by (simp add: ScaleImage_byte_def)
  show ?case
    unfolding step using d'(2,3) di(2)
    by (auto simp add: nth_list_update)
qed

lemma pixel_index:
  assumes "0 < P" and "ix < dW"
  shows "(q * P \<le> k \<and> k < q * P + P) = (k div P = (q::nat))"
    and "(dW * iy + ix) mod dW = (ix::nat)" and "(dW * iy + ix) div dW = iy"
proof -
  show "(q * P \<le> k \<and> k < q * P + P) = (k div P = q)"
  proof
    assume "q * P \<le> k \<and> k < q * P + P"
    then have "q \<le> k div P" "k div P < Suc q"
      using assms(1) by (simp_all add: less_eq_div_iff_mult_less_eq div_less_iff_less_mult)
    then show "k div P = q" by simp
  next
    assume "k div P = q"
    then show "q * P \<le> k \<and> k < q * P + P"
      using assms(1) by (metis add.commute div_mult_mod_eq le_add2 mod_less_divisor
          nat_add_left_cancel_less)
  qed
  from assms(2) have "0 < dW" by simp
  with assms(2) show "(dW * iy + ix) mod dW = ix" and "(dW * iy + ix) div dW = iy"
    by simp_all
qed

lemma fold_ScaleImage_byte_Inl [simp]:
  "fold (ScaleImage_byte P src db sb) xs (Inl e) = Inl e"
  by (induction xs) (simp_all add: ScaleImage_byte_def)

lemma fold_ScaleImage_pixel_Inl [simp]:
  "fold (ScaleImage_pixel P src sW dW scaleX scaleY ix) xs (Inl e) = Inl e"
  by (induction xs) (simp_all add: ScaleImage_pixel_def Let_def)

lemma ScaleImage_pixel_step:
  assumes P: "0 < P" and ix: "ix < dW" and iy: "iy < dH"
    and len: "length d = dW * dH * P" "dW * dH * P < 4294967296"
    and src: "sW * sH * P \<le> length src" "sW * sH * P < 4294967296"
    and X: "source_coordinate sW dW ix < sW" and Y: "source_coordinate sH dH iy < sH"
  shows "\<exists>d'. ScaleImage_pixel P src sW dW (f32_div (f32_of_nat sW) (f32_of_nat dW))
                 (f32_div (f32_of_nat sH) (f32_of_nat dH)) ix iy (Inr d) = Inr d' \<and>
           length d' = length d \<and>
           (\<forall>k<length d. d' ! k =
              (if k div P = dW * iy + ix then scaled_byte P src sW sH dW dH k else d ! k))"
proof -
  define db where "db = dW * iy + ix"
  define sb where "sb = sW * source_coordinate sH dH iy + source_coordinate sW dW ix"
  have "db < dW * dH"
  proof -
    have "dW * iy + ix < dW * iy + dW" using ix by simp
    also have "\<dots> = dW * Suc iy" by simp
    also have "\<dots> \<le> dW * dH" using iy by (intro mult_le_mono2) simp
    finally show ?thesis by (simp add: db_def)
  qed
  then have "Suc db * P \<le> dW * dH * P"
    by (intro mult_le_mono1) simp
  then have db1: "db * P + P \<le> length d"
    using len by simp
  have "db \<le> db * P"
    using P by (cases P) simp_all
  then have db2: "db < 4294967296"
    using db1 len by linarith
  note db = db1 db2
  have "sb < sW * sH"
  proof -
    have "sW * source_coordinate sH dH iy + source_coordinate sW dW ix
        < sW * source_coordinate sH dH iy + sW" using X by simp
    also have "\<dots> = sW * Suc (source_coordinate sH dH iy)" by simp
    also have "\<dots> \<le> sW * sH" using Y by (intro mult_le_mono2) simp
    finally show ?thesis by (simp add: sb_def)
  qed
  then have "Suc sb * P \<le> sW * sH * P"
    by (intro mult_le_mono1) simp
  then have sb1: "sb * P + P \<le> length src" and sb2: "sb * P + P \<le> 4294967296"
    using src by simp_all
  have "sb \<le> sb * P"
    using P by (cases P) simp_all
  then have sb3: "sb < 4294967296"
    using sb2 P by linarith
  note sb = sb1 sb2 sb3
  from ScaleImage_byte_loop [OF order_refl db(1) _ sb(1,2)] len
  obtain d' where d': "fold (ScaleImage_byte P src db sb) [0..<P] (Inr d) = Inr d'"
      "length d' = length d"
      "\<forall>k<length d. d' ! k =
         (if db * P \<le> k \<and> k < db * P + P then src ! (sb * P + (k - db * P)) else d ! k)"
    by auto
  have run: "ScaleImage_pixel P src sW dW (f32_div (f32_of_nat sW) (f32_of_nat dW))
      (f32_div (f32_of_nat sH) (f32_of_nat dH)) ix iy (Inr d) = Inr d'"
    using d'(1) db(2) sb(3)
    by (simp add: ScaleImage_pixel_def Let_def db_def sb_def source_coordinate_def)
  have "d' ! k = (if k div P = db then scaled_byte P src sW sH dW dH k else d ! k)"
    if "k < length d" for k
  proof -
    have eq: "d' ! k =
        (if db * P \<le> k \<and> k < db * P + P then src ! (sb * P + (k - db * P)) else d ! k)"
      using d'(3) that by blast
    show ?thesis
    proof (cases "k div P = db")
      case True
      then have in_pixel: "db * P \<le> k \<and> k < db * P + P"
        using pixel_index(1) [OF P ix] by simp
      have "k - db * P = k mod P"
        using True by (metis minus_div_mult_eq_mod)
      moreover have "k div P mod dW = ix" "k div P div dW = iy"
        using True pixel_index(2,3) [OF P ix] by (simp_all add: db_def)
      ultimately show ?thesis
        using True in_pixel by (simp add: eq scaled_byte_def sb_def)
    next
      case False
      then have "\<not> (db * P \<le> k \<and> k < db * P + P)"
        using pixel_index(1) [OF P ix] by simp
      then show ?thesis
        using False by (simp only: eq if_False)
    qed
  qed
  then show ?thesis
    using run d'(2) by (auto simp add: db_def)
qed

lemma ScaleImage_column:
  assumes P: "0 < P" and ix: "ix < dW" and m: "m \<le> dH"
    and len: "length d = dW * dH * P" "dW * dH * P < 4294967296"
    and src: "sW * sH * P \<le> length src" "sW * sH * P < 4294967296"
    and X: "source_coordinate sW dW ix < sW"
    and Y: "\<forall>iy<dH. source_coordinate sH dH iy < sH"
  shows "\<exists>d'. fold (ScaleImage_pixel P src sW dW (f32_div (f32_of_nat sW) (f32_of_nat dW))
                   (f32_div (f32_of_nat sH) (f32_of_nat dH)) ix) [0..<m] (Inr d) = Inr d' \<and>
           length d' = length d \<and>
           (\<forall>k<length d. d' ! k =
              (if k div P mod dW = ix \<and> k div P div dW < m
               then scaled_byte P src sW sH dW dH k else d ! k))"
  using m
proof (induction m)
  case 0
  then show ?case by simp
next
  case (Suc m)
  then obtain d1 where d1:
      "fold (ScaleImage_pixel P src sW dW (f32_div (f32_of_nat sW) (f32_of_nat dW))
         (f32_div (f32_of_nat sH) (f32_of_nat dH)) ix) [0..<m] (Inr d) = Inr d1"
      "length d1 = length d"
      "\<forall>k<length d. d1 ! k =
         (if k div P mod dW = ix \<and> k div P div dW < m
          then scaled_byte P src sW sH dW dH k else d ! k)"
    by auto
  from Suc.prems have iy: "m < dH" by simp
  with Y have Ym: "source_coordinate sH dH m < sH" by simp
  from ScaleImage_pixel_step [OF P ix iy _ len(2) src X Ym, of d1] len(1) d1(2)
  obtain d2 where d2:
      "ScaleImage_pixel P src sW dW (f32_div (f32_of_nat sW) (f32_of_nat dW))
         (f32_div (f32_of_nat sH) (f32_of_nat dH)) ix m (Inr d1) = Inr d2"
      "length d2 = length d"
      "\<forall>k<length d. d2 ! k =
         (if k div P = dW * m + ix then scaled_byte P src sW sH dW dH k else d1 ! k)"
    by auto
  have here: "(q = dW * m + ix) = (q mod dW = ix \<and> q div dW = m)" for q
    using pixel_index(2,3) [OF P ix, of m] div_mult_mod_eq [of q dW]
    by (auto simp add: mult.commute)
  have "d2 ! k = (if k div P mod dW = ix \<and> k div P div dW < Suc m
                   then scaled_byte P src sW sH dW dH k else d ! k)"
    if "k < length d" for k
    using d2(3) d1(3) that here [of "k div P"] by (auto simp add: less_Suc_eq)
  then show ?case
    using d1(1) d2(1,2) by simp
qed

lemma ScaleImage_columns:
  assumes P: "0 < P" and n: "n \<le> dW"
    and len: "length d = dW * dH * P" "dW * dH * P < 4294967296"
    and src: "sW * sH * P \<le> length src" "sW * sH * P < 4294967296"
    and X: "\<forall>ix<dW. source_coordinate sW dW ix < sW"
    and Y: "\<forall>iy<dH. source_coordinate sH dH iy < sH"
  shows "\<exists>d'. fold (\<lambda>ix. fold (ScaleImage_pixel P src sW dW (f32_div (f32_of_nat sW) (f32_of_nat dW))
                   (f32_div (f32_of_nat sH) (f32_of_nat dH)) ix) [0..<dH]) [0..<n] (Inr d) = Inr d' \<and>
           length d' = length d \<and>
           (\<forall>k<length d. d' ! k =
              (if k div P mod dW < n then scaled_byte P src sW sH dW dH k else d ! k))"
  using n
proof (induction n)
  case 0
  then show ?case by simp
next
  case (Suc n)
  then obtain d1 where d1:
      "fold (\<lambda>ix. fold (ScaleImage_pixel P src sW dW (f32_div (f32_of_nat sW) (f32_of_nat dW))
         (f32_div (f32_of_nat sH) (f32_of_nat dH)) ix) [0..<dH]) [0..<n] (Inr d) = Inr d1"
      "length d1 = length d"
      "\<forall>k<length d. d1 ! k =
         (if k div P mod dW < n then scaled_byte P src sW sH dW dH k else d ! k)"
    by auto
  from Suc.prems have ix: "n < dW" by simp
  with X have Xn: "source_coordinate sW dW n < sW" by simp
  from ScaleImage_column [OF P ix order_refl _ len(2) src Xn Y, of d1] len(1) d1(2)
  obtain d2 where d2:
      "fold (ScaleImage_pixel P src sW dW (f32_div (f32_of_nat sW) (f32_of_nat dW))
         (f32_div (f32_of_nat sH) (f32_of_nat dH)) n) [0..<dH] (Inr d1) = Inr d2"
      "length d2 = length d"
      "\<forall>k<length d. d2 ! k =
         (if k div P mod dW = n \<and> k div P div dW < dH
          then scaled_byte P src sW sH dW dH k else d1 ! k)"
    by auto
  have row: "k div P div dW < dH" if "k < length d" for k
  proof -
    from that len(1) have "k < dW * dH * P" by simp
    then have "k div P < dW * dH"
      using P by (simp add: div_less_iff_less_mult)
    then show ?thesis
      using ix by (simp add: div_less_iff_less_mult mult.commute)
  qed
  have "d2 ! k = (if k div P mod dW < Suc n then scaled_byte P src sW sH dW dH k else d ! k)"
    if "k < length d" for k
    using d2(3) d1(3) that row [OF that] by (auto simp add: less_Suc_eq)
  then show ?case
    using d1(1) d2(1,2) by simp
qed

lemma ScaleImage_scaled:
  assumes P: "0 < P"
    and len: "length dest = dW * dH * P" "dW * dH * P < 4294967296"
    and src: "sW * sH * P \<le> length src" "sW * sH * P < 4294967296"
    and X: "\<forall>ix<dW. source_coordinate sW dW ix < sW"
    and Y: "\<forall>iy<dH. source_coordinate sH dH iy < sH"
  shows "\<exists>out. ScaleImage P src dest sW sH dW dH = Inr out \<and> length out = length dest \<and>
           (\<forall>k<length dest. out ! k = scaled_byte P src sW sH dW dH k)"
proof -
  from ScaleImage_columns [OF P order_refl len src X Y]
  obtain out where out:
      "fold (\<lambda>ix. fold (ScaleImage_pixel P src sW dW (f32_div (f32_of_nat sW) (f32_of_nat dW))
         (f32_div (f32_of_nat sH) (f32_of_nat dH)) ix) [0..<dH]) [0..<dW] (Inr dest) = Inr out"
      "length out = length dest"
      "\<forall>k<length dest. out ! k =
         (if k div P mod dW < dW then scaled_byte P src sW sH dW dH k else dest ! k)"
    by auto
  have "out ! k = scaled_byte P src sW sH dW dH k" if "k < length dest" for k
  proof -
    from that len(1) have "0 < dW" by (cases dW) simp_all
    then show ?thesis
      using out(3) that by simp
  qed
  then show ?thesis
    using out(1,2) by (simp add: ScaleImage_def Let_def)
qed

section \<open>Single precision on integers below \<open>2 ^ 24\<close>\<close>

lemma bitlen_bounds:
  "0 < n \<Longrightarrow> 2 ^ (bitlen n - 1) \<le> n \<and> n < 2 ^ bitlen n"
proof (induction n rule: bitlen.induct)
  case (1 n)
  show ?case
  proof (cases "n div 2 = 0")
    case True
    with "1.prems" have "n = 1" by (cases n) (auto simp add: div_eq_0_iff)
    then show ?thesis by (simp add: bitlen_pos bitlen_0)
  next
    case False
    then have half: "0 < n div 2" by simp
    with "1.IH" "1.prems" have IH: "2 ^ (bitlen (n div 2) - 1) \<le> n div 2" "n div 2 < 2 ^ bitlen (n div 2)"
      by simp_all
    have len: "bitlen n = Suc (bitlen (n div 2))"
      using "1.prems" by (rule bitlen_pos)
    have pos: "0 < bitlen (n div 2)"
      using half by (simp add: bitlen_pos)
    then have "(2::nat) ^ bitlen (n div 2) = 2 * 2 ^ (bitlen (n div 2) - 1)"
      by (cases "bitlen (n div 2)") simp_all
    then have "2 ^ (bitlen n - 1) \<le> 2 * (n div 2)"
      using IH(1) by (simp add: len)
    moreover have "n < 2 * 2 ^ bitlen (n div 2)"
      using IH(2) by linarith
    ultimately show ?thesis
      by (simp add: len)
  qed
qed

lemma bitlen_unique:
  assumes "2 ^ j \<le> n" and "n < 2 ^ Suc j"
  shows "bitlen n = Suc j"
proof -
  from assms(1) have pos: "0 < n"
    by (cases n) simp_all
  from bitlen_bounds [OF pos] have b: "2 ^ (bitlen n - 1) \<le> n" "n < 2 ^ bitlen n"
    by simp_all
  have "(2::nat) ^ j < 2 ^ bitlen n"
    using assms(1) b(2) by linarith
  then have 1: "j < bitlen n"
    by simp
  have lt: "(2::nat) ^ (bitlen n - 1) < 2 ^ Suc j"
    using assms(2) b(1) by linarith
  have 2: "bitlen n - 1 < Suc j"
  proof (rule power_less_imp_less_exp)
    show "(1::nat) < 2" by simp
    show "(2::nat) ^ (bitlen n - 1) < 2 ^ Suc j" by (fact lt)
  qed
  from 1 2 show ?thesis by simp
qed

lemma bitlen_1 [simp]: "bitlen (Suc 0) = Suc 0"
  by (simp add: bitlen_pos bitlen_0)

lemma round_nearest_even_exact: "0 < b \<Longrightarrow> round_nearest_even (m * b) b = m"
  by (simp add: round_nearest_even_def)

text \<open>A 24-bit significand times a power of two is a \<^verbatim>\<open>float\<close>: rounding keeps it.\<close>

lemma f32_of_quotient_exact:
  assumes "8388608 \<le> m" and "m < 16777216"
  shows "f32_of_quotient (m * 2 ^ j) 1 = (m, int j)"
proof -
  have "2 ^ (23 + j) \<le> m * 2 ^ j"
    using assms(1) by (simp add: power_add)
  moreover have "m * 2 ^ j < 2 ^ Suc (23 + j)"
    using assms(2) by (simp add: power_add)
  ultimately have len: "bitlen (m * 2 ^ j) = Suc (23 + j)"
    by (rule bitlen_unique)
  have pos: "m * 2 ^ j \<noteq> 0"
    using assms(1) by simp
  have le: "(2::nat) ^ (23 + j) \<le> m * 2 ^ j"
    by fact
  show ?thesis
    using pos le
    by (simp add: f32_of_quotient_def Let_def len nat_add_distrib round_nearest_even_exact)
qed

lemma f32_of_nat_small:
  assumes "0 < n" and "n < 16777216"
  shows "\<exists>s. f32_of_nat n = (n * 2 ^ s, - int s) \<and> 8388608 \<le> n * 2 ^ s \<and> n * 2 ^ s < 16777216"
proof -
  define b where "b = bitlen n"
  from bitlen_bounds [OF assms(1)] have b: "2 ^ (b - 1) \<le> n" "n < 2 ^ b"
    by (simp_all add: b_def)
  have b1: "1 \<le> b"
    using assms(1) by (simp add: b_def bitlen_pos)
  have b24: "b \<le> 24"
  proof (rule ccontr)
    assume "\<not> b \<le> 24"
    then have "(2::nat) ^ 24 \<le> 2 ^ (b - 1)"
      by (intro power_increasing) simp_all
    with b(1) assms(2) show False by simp
  qed
  define s where "s = 24 - b"
  have p23: "(2::nat) ^ (b - 1) * 2 ^ s = 8388608"
  proof -
    have "b - 1 + s = 23"
      using b1 b24 by (simp add: s_def)
    then have "(2::nat) ^ (b - 1) * 2 ^ s = 2 ^ 23"
      by (simp only: power_add [symmetric])
    then show ?thesis by simp
  qed
  have p24: "(2::nat) ^ b * 2 ^ s = 16777216"
  proof -
    have "b + s = 24"
      using b24 by (simp add: s_def)
    then have "(2::nat) ^ b * 2 ^ s = 2 ^ 24"
      by (simp only: power_add [symmetric])
    then show ?thesis by simp
  qed
  have lo: "8388608 \<le> n * 2 ^ s"
    using mult_le_mono1 [OF b(1), of "2 ^ s"] by (simp only: p23)
  have hi: "n * 2 ^ s < 16777216"
  proof -
    have "n * 2 ^ s < 2 ^ b * 2 ^ s"
      using b(2) by simp
    then show ?thesis by (simp only: p24)
  qed
  have k: "nat (int b - 1) = b - Suc 0" "nat (24 - int b) = s" "nat (int b - 24) = 0"
      "int b - 24 = - int s"
    using b1 b24 by (simp_all add: s_def)
  have r: "round_nearest_even (n * 2 ^ s) (Suc 0) = n * 2 ^ s"
    by (simp add: round_nearest_even_def)
  have "f32_of_quotient n (Suc 0) = (n * 2 ^ s, - int s)"
    using assms(1) b(1) b1
    by (simp add: f32_of_quotient_def Let_def k r flip: b_def)
  then have "f32_of_nat n = (n * 2 ^ s, - int s)"
    by (simp add: f32_of_nat_def)
  with lo hi show ?thesis by blast
qed

lemma round_nearest_even_ge: "0 < b \<Longrightarrow> a div b \<le> round_nearest_even a b"
  by (simp add: round_nearest_even_def Let_def)

lemma f32_of_nat_pos:
  assumes "0 < n"
  shows "0 < fst (f32_of_nat n)"
proof -
  define b where "b = bitlen n"
  from bitlen_bounds [OF assms] have b: "2 ^ (b - 1) \<le> n"
    by (simp add: b_def)
  have b1: "1 \<le> b"
    using assms by (simp add: b_def bitlen_pos)
  define e where "e = int b - 1"
  have e: "nat e = b - 1" "0 \<le> e"
    using b1 by (simp_all add: e_def)
  have "(2::nat) ^ nat (e - 23) \<le> 2 ^ nat e"
    by (intro power_increasing) simp_all
  also have "\<dots> \<le> n"
    using b by (simp add: e)
  also have "\<dots> \<le> n * 2 ^ nat (23 - e)"
    by simp
  finally have "1 \<le> n * 2 ^ nat (23 - e) div 2 ^ nat (e - 23)"
    by (simp add: Suc_le_eq div_greater_zero_iff)
  also have "\<dots> \<le> round_nearest_even (n * 2 ^ nat (23 - e)) (2 ^ nat (e - 23))"
    by (rule round_nearest_even_ge) simp
  finally have "0 < round_nearest_even (n * 2 ^ nat (23 - e)) (2 ^ nat (e - 23))"
    by simp
  then show ?thesis
    using assms b e
    by (simp add: f32_of_nat_def f32_of_quotient_def Let_def flip: b_def e_def)
qed

lemma f32_div_self:
  assumes "0 < m"
  shows "f32_div (m, e) (m, e) = (8388608, - 23)"
proof -
  have "round_nearest_even (m * 8388608) m = 8388608"
    using round_nearest_even_exact [OF assms, of 8388608] by (simp add: mult.commute)
  then show ?thesis
    using assms by (simp add: f32_of_quotient_def Let_def)
qed

lemma f32_mul_one:
  assumes "8388608 \<le> m" and "m < 16777216"
  shows "f32_mul (m, e) (8388608, - 23) = (m, e)"
proof -
  have "f32_of_quotient (m * 2 ^ 23) 1 = (m, int 23)"
    using assms by (rule f32_of_quotient_exact)
  then show ?thesis
    by simp
qed

lemma source_coordinate_same:
  assumes "0 < W" and "i < 16777216"
  shows "source_coordinate W W i = i"
proof -
  obtain m e where W: "f32_of_nat W = (m, e)"
    by (cases "f32_of_nat W")
  with f32_of_nat_pos [OF assms(1)] have "0 < m"
    by simp
  then have scale: "f32_div (f32_of_nat W) (f32_of_nat W) = (8388608, - 23)"
    unfolding W by (rule f32_div_self)
  show ?thesis
  proof (cases "i = 0")
    case True
    have zero: "f32_of_quotient 0 b = (0, 0)" "f32_of_nat 0 = (0, 0)" for b
      by (simp_all add: f32_of_nat_def f32_of_quotient_def)
    show ?thesis
      unfolding source_coordinate_def scale True zero(2)
      by (simp add: zero(1))
  next
    case False
    then have "0 < i" by simp
    from f32_of_nat_small [OF this assms(2)] obtain s where
        s: "f32_of_nat i = (i * 2 ^ s, - int s)" "8388608 \<le> i * 2 ^ s" "i * 2 ^ s < 16777216"
      by blast
    show ?thesis
      unfolding source_coordinate_def scale s(1) f32_mul_one [OF s(2,3)]
      by simp
  qed
qed

section \<open>Resize\<close>

lemma Resize_loaded:
  assumes "buffer (buffer' a) = Some p" and "channelCount' a = 3 \<or> channelCount' a = 4"
  shows "Resize h a w ht =
     (case AllocateBuffer h (size_t (i32 (i32 (w * ht) * channelCount' a))) of
        Inl e \<Rightarrow> Inl e
      | Inr (h1, newBuffer) \<Rightarrow>
         (case ScaleImage_at (nat (channelCount' a)) h1 (Some p) (buffer newBuffer)
                 (u32 (width' a)) (u32 (height' a)) (u32 w) (u32 ht) of
            Inl e \<Rightarrow> Inl e
          | Inr h2 \<Rightarrow>
             (case ReleaseBuffer h2 (buffer' a) of
                Inl e \<Rightarrow> Inl e
              | Inr (h3, released) \<Rightarrow>
                 Inr (h3, a\<lparr>errorHandler' := Clear (errorHandler' a), width' := w,
                           height' := ht, buffer' := newBuffer\<rparr>))))"
  using assms by (auto simp add: Resize_def Let_def split: sum.split prod.split)

lemma Resize_scaled:
  assumes wf: "well_formed h a" and c: "channelCount' a = 3 \<or> channelCount' a = 4"
    and w: "0 \<le> w" "w < 2147483648" and ht: "0 \<le> ht" "ht < 2147483648"
    and n: "w * ht * channelCount' a < 2147483648"
    and X: "\<forall>ix<nat w. source_coordinate (nat (width' a)) (nat w) ix < nat (width' a)"
    and Y: "\<forall>iy<nat ht. source_coordinate (nat (height' a)) (nat ht) iy < nat (height' a)"
  shows "\<exists>h' a'. Resize h a w ht = Inr (h', a') \<and> GetError a' = [] \<and>
           width' a' = w \<and> height' a' = ht \<and> channelCount' a' = channelCount' a \<and>
           length (pixels h' a') = nat (w * ht * channelCount' a) \<and>
           (\<forall>k<nat (w * ht * channelCount' a). pixels h' a' ! k =
              scaled_byte (nat (channelCount' a)) (pixels h a) (nat (width' a)) (nat (height' a))
                (nat w) (nat ht) k)"
proof -
  from wf obtain p cs where p: "buffer (buffer' a) = Some p" "blocks h p = Some cs"
    and W: "0 \<le> width' a" "width' a < 2147483648"
    and H: "0 \<le> height' a" "height' a < 2147483648"
    and len: "int (length cs) = width' a * height' a * channelCount' a"
      "width' a * height' a * channelCount' a < 2147483648"
    by (auto simp add: well_formed_def split: option.splits)
  define P where "P = nat (channelCount' a)"
  define N where "N = nat (w * ht * channelCount' a)"
  from c have P: "0 < P" "channelCount' a = int P" "P = 3 \<or> P = 4"
    by (auto simp add: P_def)
  have less: "p < length h"
    using p(2) by (rule blocks_Some_less)
  have src: "pixels h a = cs"
    using p by (simp add: pixels_def deref_def)
  have nonneg: "0 \<le> w * ht * channelCount' a"
    using w(1) ht(1) P(2) by simp
  have size: "size_t (i32 (i32 (w * ht) * channelCount' a)) = N"
    using nonneg n by (simp add: i32_mult_left i32_id size_t_def N_def)
  have conv: "u32 (width' a) = nat (width' a)" "u32 (height' a) = nat (height' a)"
      "u32 w = nat w" "u32 ht = nat ht"
    using W H w ht by (simp_all add: u32_def)
  have N: "N = nat w * nat ht * P" "nat w * nat ht * P < 4294967296"
  proof -
    have "int (nat w * nat ht * P) = w * ht * channelCount' a"
      using w(1) ht(1) P(2) by simp
    with n show "N = nat w * nat ht * P" "nat w * nat ht * P < 4294967296"
      unfolding N_def by linarith+
  qed
  have S: "nat (width' a) * nat (height' a) * P \<le> length cs"
      "nat (width' a) * nat (height' a) * P < 4294967296"
  proof -
    have "int (nat (width' a) * nat (height' a) * P) = width' a * height' a * channelCount' a"
      using W(1) H(1) P(2) by simp
    with len show "nat (width' a) * nat (height' a) * P \<le> length cs"
      "nat (width' a) * nat (height' a) * P < 4294967296"
      by linarith+
  qed
  have scaled: "\<exists>out. ScaleImage P cs dest (nat (width' a)) (nat (height' a)) (nat w) (nat ht) = Inr out \<and>
      length out = N \<and>
      (\<forall>k<N. out ! k = scaled_byte P cs (nat (width' a)) (nat (height' a)) (nat w) (nat ht) k)"
    if "length dest = N" for dest
    using ScaleImage_scaled [OF P(1) _ N(2) S X Y, of dest] that N(1) by simp
  have own: "ReleaseBuffer g (buffer' a) = Inr (put g p None, (buffer' a)\<lparr>buffer := None\<rparr>)"
    if "blocks g p = Some cs" for g
    using that p(1)
    by (auto simp add: ReleaseBuffer_def delete_array_def stbi_image_free_def
          split: BufferSource.splits)
  note resize = Resize_loaded [OF p(1) c, of h w ht, unfolded size conv, folded P_def]
  show ?thesis
  proof (cases "N = 0")
    case True
    from scaled [of "[]"] True obtain out where
        out: "ScaleImage P cs [] (nat (width' a)) (nat (height' a)) (nat w) (nat ht) = Inr out"
      by auto
    have at: "ScaleImage_at P h (Some p) None (nat (width' a)) (nat (height' a)) (nat w) (nat ht)
        = Inr h"
      using out p(2) by (simp add: ScaleImage_at_def deref_def)
    have "Resize h a w ht =
        Inr (put h p None, a\<lparr>errorHandler' := Clear (errorHandler' a), width' := w, height' := ht,
               buffer' := \<lparr>buffer = None, source = Self\<rparr>\<rparr>)"
      using True
      by (simp add: resize AllocateBuffer_def at own [OF p(2)])
    then show ?thesis
      using True by (simp add: GetError_def Clear_def pixels_def deref_def flip: N_def)
  next
    case False
    define h1 where "h1 = h @ [Some (replicate N None)]"
    from scaled [of "replicate N None"] obtain out where
        out: "ScaleImage P cs (replicate N None) (nat (width' a)) (nat (height' a)) (nat w) (nat ht)
          = Inr out" "length out = N"
        "\<forall>k<N. out ! k = scaled_byte P cs (nat (width' a)) (nat (height' a)) (nat w) (nat ht) k"
      by auto
    have small: "\<not> PTRDIFF_MAX < N"
      using N(2) by (simp add: N(1) PTRDIFF_MAX_def)
    have alloc: "AllocateBuffer h N = Inr (h1, \<lparr>buffer = Some (length h), source = Self\<rparr>)"
      using False small by (simp add: AllocateBuffer_def new_array_def h1_def)
    have at: "ScaleImage_at P h1 (Some p) (Some (length h)) (nat (width' a)) (nat (height' a))
        (nat w) (nat ht) = Inr (put h1 (length h) (Some out))"
      using out(1) p(2) less by (simp add: ScaleImage_at_def deref_def h1_def)
    have still: "blocks (put h1 (length h) (Some out)) p = Some cs"
      using p(2) less by (simp add: h1_def)
    have "Resize h a w ht =
        Inr (put (put h1 (length h) (Some out)) p None,
             a\<lparr>errorHandler' := Clear (errorHandler' a), width' := w, height' := ht,
               buffer' := \<lparr>buffer = Some (length h), source = Self\<rparr>\<rparr>)"
      by (simp add: resize alloc at own [OF still])
    moreover have "blocks (put (put h1 (length h) (Some out)) p None) (length h) = Some out"
      using less by (simp add: h1_def)
    ultimately show ?thesis
      using out(2,3) src
      by (simp add: GetError_def Clear_def pixels_def deref_def flip: N_def P_def)
  qed
qed

lemma all_less_list: "(\<forall>i<n. Q i) = list_all Q [0..<n]"
  by (auto simp add: list_all_iff)

lemma strip_bounds: "\<forall>ix<22. source_coordinate 26 22 ix < 26"
proof -
  define Q where "Q ix = (source_coordinate 26 22 ix < 26)" for ix
  have upto: "[0..<22] = [0, 1, 2, 3, 4, 5, 6, 7, 8, 9, 10, 11, 12, 13, 14, 15, 16, 17, 18, 19, 20, 21::nat]"
    by (simp add: upt_rec)
  have "list_all Q [0, 1, 2, 3, 4, 5, 6, 7, 8, 9, 10, 11, 12, 13, 14, 15, 16, 17, 18, 19, 20, 21]"
    unfolding list.pred_inject
    by (intro conjI TrueI) (simp_all add: Q_def source_coordinate_def f32_eval)
  then show ?thesis
    by (simp only: all_less_list upto flip: Q_def)
qed

text \<open>
  C5 at a resize from 26 to 22 columns. The claim gives destination pixel 11 the source
  pixel \<open>floor (11 * 26 / 22) = 13\<close>. The code computes \<^verbatim>\<open>scaleX = 26.0f / 22.0f\<close>, which
  is rounded down, and \<^verbatim>\<open>11 * scaleX\<close>, which is rounded to the \<^verbatim>\<open>float\<close> just below 13;
  the conversion to \<^verbatim>\<open>int\<close> gives 12, and destination bytes 33 to 35 are those of source
  pixel 12.
\<close>

theorem Resize_takes_the_pixel_before:
  "\<exists>h' a'. Resize strip_heap strip_asset 22 1 = Inr (h', a') \<and>
     width' a' = 22 \<and> height' a' = 1 \<and> channelCount' a' = 3 \<and>
     pixels h' a' ! 33 = Some 12 \<and> pixels h' a' ! 34 = Some 12 \<and> pixels h' a' ! 35 = Some 12 \<and>
     pixels strip_heap strip_asset ! 39 = Some 13 \<and>
     pixels strip_heap strip_asset ! 40 = Some 13 \<and>
     pixels strip_heap strip_asset ! 41 = Some 13 \<and>
     (11 * 26) div 22 = (13::nat) \<and>
     source_coordinate 26 22 11 = 12"
proof -
  have wf: "well_formed strip_heap strip_asset"
    by (simp add: well_formed_def strip_heap_def strip_asset_def blocks_def)
  have c: "channelCount' strip_asset = 3 \<or> channelCount' strip_asset = 4"
    by (simp add: strip_asset_def)
  have X: "\<forall>ix<nat 22. source_coordinate (nat (width' strip_asset)) (nat 22) ix
      < nat (width' strip_asset)"
    using strip_bounds by (simp add: strip_asset_def)
  have Y: "\<forall>iy<nat 1. source_coordinate (nat (height' strip_asset)) (nat 1) iy
      < nat (height' strip_asset)"
    by (simp add: strip_asset_def source_coordinate_same)
  from Resize_scaled [OF wf c _ _ _ _ _ X Y]
  obtain h' a' where r: "Resize strip_heap strip_asset 22 1 = Inr (h', a')"
      "width' a' = 22" "height' a' = 1" "channelCount' a' = 3"
      "\<forall>k<66. pixels h' a' ! k =
         scaled_byte 3 (pixels strip_heap strip_asset) 26 1 22 1 k"
    by (auto simp add: strip_asset_def)
  have x: "source_coordinate 26 22 11 = 12"
    by (simp add: source_coordinate_def f32_eval)
  have y: "source_coordinate (Suc 0) (Suc 0) 0 = 0"
    by (rule source_coordinate_same) simp_all
  have src: "pixels strip_heap strip_asset = map (\<lambda>k. Some (of_nat (k div 3))) [0..<78]"
    by (simp add: pixels_def deref_def strip_heap_def strip_asset_def blocks_def)
  have "pixels h' a' ! 33 = Some 12" "pixels h' a' ! 34 = Some 12" "pixels h' a' ! 35 = Some 12"
    using r(5) by (simp_all add: scaled_byte_def x y src)
  moreover have "pixels strip_heap strip_asset ! 39 = Some 13"
    "pixels strip_heap strip_asset ! 40 = Some 13" "pixels strip_heap strip_asset ! 41 = Some 13"
    by (simp_all add: src)
  ultimately show ?thesis
    using r(1-4) x by simp
qed

text \<open>
  Resize to the size the image already has reproduces the buffer when the width and the
  height are at most \<open>2 ^ 24\<close>: every coordinate is then a \<^verbatim>\<open>float\<close>, and the scale
  factor is exactly 1.
\<close>

lemma Resize_same_size:
  assumes wf: "well_formed h a" and c: "channelCount' a = 3 \<or> channelCount' a = 4"
    and W: "width' a \<le> 16777216" and H: "height' a \<le> 16777216"
  shows "\<exists>h' a'. Resize h a (width' a) (height' a) = Inr (h', a') \<and> GetError a' = [] \<and>
           width' a' = width' a \<and> height' a' = height' a \<and> channelCount' a' = channelCount' a \<and>
           pixels h' a' = pixels h a"
proof -
  from wf obtain p cs where p: "buffer (buffer' a) = Some p" "blocks h p = Some cs"
    and pos: "0 \<le> width' a" "0 \<le> height' a"
    and len: "int (length cs) = width' a * height' a * channelCount' a"
      "width' a * height' a * channelCount' a < 2147483648"
    by (auto simp add: well_formed_def split: option.splits)
  define P where "P = nat (channelCount' a)"
  define sw where "sw = nat (width' a)"
  define sh where "sh = nat (height' a)"
  from c have P: "0 < P" "channelCount' a = int P"
    by (auto simp add: P_def)
  have src: "pixels h a = cs"
    using p by (simp add: pixels_def deref_def)
  have N: "nat (width' a * height' a * channelCount' a) = length cs"
    using len(1) by simp
  have size: "length cs = sw * sh * P"
  proof -
    have "int (sw * sh * P) = width' a * height' a * channelCount' a"
      using pos P(2) by (simp add: sw_def sh_def)
    with len(1) show ?thesis by linarith
  qed
  have small: "sw \<le> 16777216" "sh \<le> 16777216"
    using W H by (simp_all add: sw_def sh_def)
  have X: "\<forall>ix < sw. source_coordinate sw sw ix < sw"
    using small(1) by (auto simp add: source_coordinate_same)
  have Y: "\<forall>iy < sh. source_coordinate sh sh iy < sh"
    using small(2) by (auto simp add: source_coordinate_same)
  from Resize_scaled [OF wf c pos(1) _ pos(2) _ len(2)] X Y W H
  obtain h' a' where r: "Resize h a (width' a) (height' a) = Inr (h', a')" "GetError a' = []"
      "width' a' = width' a" "height' a' = height' a" "channelCount' a' = channelCount' a"
      "length (pixels h' a') = length cs"
      "\<forall>k<length cs. pixels h' a' ! k = scaled_byte P cs sw sh sw sh k"
    by (auto simp add: N src sw_def sh_def P_def)
  have "scaled_byte P cs sw sh sw sh k = cs ! k" if k: "k < length cs" for k
  proof -
    define q where "q = k div P"
    have "q < sw * sh"
      using k P(1) by (simp add: q_def size div_less_iff_less_mult)
    then have w: "0 < sw"
      by (cases sw) simp_all
    from \<open>q < sw * sh\<close> have row: "q div sw < sh"
      by (intro less_mult_imp_div_less) (simp add: mult.commute)
    have col: "q mod sw < sw"
      using w by simp
    have "source_coordinate sh sh (q div sw) = q div sw"
      using row small(2) by (intro source_coordinate_same) linarith+
    moreover have "source_coordinate sw sw (q mod sw) = q mod sw"
      using col small(1) w by (intro source_coordinate_same) linarith+
    ultimately show ?thesis
      by (simp add: scaled_byte_def flip: q_def) (simp add: q_def)
  qed
  with r(6,7) have "pixels h' a' = cs"
    by (intro nth_equalityI) simp_all
  with r(1-5) src show ?thesis
    by simp
qed

lemma wide_bounds: "\<forall>ix<16777218. source_coordinate 16777218 16777218 ix < 16777218"
proof (intro allI impI)
  fix ix :: nat
  assume "ix < 16777218"
  then consider "ix < 16777216" | "ix = 16777216" | "ix = 16777217"
    by linarith
  then show "source_coordinate 16777218 16777218 ix < 16777218"
  proof cases
    case 1
    then show ?thesis by (simp add: source_coordinate_same)
  next
    case 2
    then show ?thesis by (simp add: source_coordinate_def f32_eval)
  next
    case 3
    then show ?thesis by (simp add: source_coordinate_def f32_eval)
  qed
qed

text \<open>
  C7 at a width above \<open>2 ^ 24\<close>. Resize to the same 16777218 x 1 runs with the scale factor
  1, but the column number 16777217 becomes the \<^verbatim>\<open>float\<close> 16777216 when it is multiplied:
  destination pixel 16777217 is a copy of source pixel 16777216, not of itself, and the
  new buffer differs from the old one at byte 50331651.
\<close>

theorem Resize_to_same_size_differs:
  "\<exists>h' a'. Resize wide_heap wide_asset 16777218 1 = Inr (h', a') \<and>
     width' a' = width' wide_asset \<and> height' a' = height' wide_asset \<and>
     pixels h' a' ! 50331651 = Some 0 \<and>
     pixels wide_heap wide_asset ! 50331651 = Some 1 \<and>
     pixels h' a' \<noteq> pixels wide_heap wide_asset \<and>
     source_coordinate 16777218 16777218 16777217 = 16777216"
proof -
  have wf: "well_formed wide_heap wide_asset"
    by (simp add: well_formed_def wide_heap_def wide_asset_def blocks_def)
  have c: "channelCount' wide_asset = 3 \<or> channelCount' wide_asset = 4"
    by (simp add: wide_asset_def)
  have X: "\<forall>ix<nat 16777218. source_coordinate (nat (width' wide_asset)) (nat 16777218) ix
      < nat (width' wide_asset)"
    using wide_bounds by (simp add: wide_asset_def)
  have Y: "\<forall>iy<nat 1. source_coordinate (nat (height' wide_asset)) (nat 1) iy
      < nat (height' wide_asset)"
    by (simp add: wide_asset_def source_coordinate_same)
  from Resize_scaled [OF wf c _ _ _ _ _ X Y]
  obtain h' a' where r: "Resize wide_heap wide_asset 16777218 1 = Inr (h', a')"
      "width' a' = 16777218" "height' a' = 1"
      "\<forall>k<50331654. pixels h' a' ! k =
         scaled_byte 3 (pixels wide_heap wide_asset) 16777218 1 16777218 1 k"
    by (auto simp add: wide_asset_def)
  have x: "source_coordinate 16777218 16777218 16777217 = 16777216"
    by (simp add: source_coordinate_def f32_eval)
  have y: "source_coordinate (Suc 0) (Suc 0) 0 = 0"
    by (rule source_coordinate_same) simp_all
  have src: "pixels wide_heap wide_asset = replicate 50331651 (Some 0) @ replicate 3 (Some 1)"
    by (simp add: pixels_def deref_def wide_heap_def wide_asset_def blocks_def)
  have new: "pixels h' a' ! 50331651 = Some 0"
    using r(4) by (simp add: scaled_byte_def x y src nth_append)
  have old: "pixels wide_heap wide_asset ! 50331651 = Some 1"
    by (simp add: src nth_append)
  from new old have "pixels h' a' \<noteq> pixels wide_heap wide_asset"
    by auto
  with r(1-3) new old x show ?thesis
    by (simp add: wide_asset_def)
qed

section \<open>Clip on a well-formed image\<close>

lemma put_put [simp]: "put (put g d u) d v = put g d v"
  by (simp add: put_def)

lemma put_same: "blocks g d = Some v \<Longrightarrow> put g d (Some v) = g"
  by (simp add: put_def blocks_def list_update_same_conv split: if_splits)

lemma memcpy_blocks:
  assumes "d \<noteq> s" and "blocks g d = Some dcs" and "blocks g s = Some scs" and "0 < n"
    and "doff + n \<le> length dcs" and "soff + n \<le> length scs"
  shows "memcpy g (Some d) (int doff) (Some s) (int soff) n =
     Inr (put g d (Some (take doff dcs @ take n (drop soff scs) @ drop (doff + n) dcs)))"
  using assms by (simp add: memcpy_def)

lemma length_concat_rows:
  "\<forall>k<j. length (f k) = n \<Longrightarrow> length (concat (map f [0..<j])) = j * n"
  by (induction j) simp_all

lemma fold_Clip_row_copies:
  assumes d: "d \<noteq> s" "d < length g" and s: "blocks g s = Some scs"
    and n: "0 < n" "size_t ns = n"
    and doff: "\<forall>k<m. i32 (ns * int k) = int (k * n)"
    and soff: "\<forall>k<m. i32 (ss * i32 (int k + sl)) + i32 (x * c) = int (off k)"
    and bound: "\<forall>k<m. off k + n \<le> length scs"
    and j: "j \<le> m"
  shows "fold (Clip_row (Some d) (Some s) ns ss sl x c) [0..<j]
           (Inr (put g d (Some (replicate (m * n) None)))) =
         Inr (put g d (Some (concat (map (\<lambda>k. take n (drop (off k) scs)) [0..<j]) @
                              replicate ((m - j) * n) None)))"
  using j
proof (induction j)
  case 0
  then show ?case by simp
next
  case (Suc j)
  then have j: "j < m" by simp
  define A where "A = concat (map (\<lambda>k. take n (drop (off k) scs)) [0..<j])"
  define R where "R = replicate ((m - Suc j) * n) (None :: cell)"
  define g1 where "g1 = put g d (Some (A @ replicate ((m - j) * n) None))"
  have lenA: "length A = j * n"
    unfolding A_def
  proof (rule length_concat_rows, intro allI impI)
    fix k assume "k < j"
    with j bound have "off k + n \<le> length scs" by simp
    then show "length (take n (drop (off k) scs)) = n" by simp
  qed
  have rest: "replicate ((m - j) * n) (None :: cell) = replicate n None @ R"
  proof -
    have "(m - j) * n = n + (m - Suc j) * n"
      using j by (metis Suc_diff_Suc mult_Suc)
    then show ?thesis
      by (simp add: R_def replicate_add)
  qed
  have IH: "fold (Clip_row (Some d) (Some s) ns ss sl x c) [0..<j]
      (Inr (put g d (Some (replicate (m * n) None)))) = Inr g1"
    using Suc.IH j by (simp add: g1_def A_def)
  have bd: "blocks g1 d = Some (A @ replicate n None @ R)"
    using d(2) by (simp add: g1_def rest)
  have bs: "blocks g1 s = Some scs"
    using d(1) s by (simp add: g1_def)
  have off: "i32 (ns * int j) = int (j * n)"
      "i32 (ss * i32 (int j + sl)) + i32 (x * c) = int (off j)" "off j + n \<le> length scs"
    using doff soff bound j by simp_all
  have pieces: "take (j * n) (A @ replicate n None @ R) = A"
      "drop (j * n + n) (A @ replicate n None @ R) = R"
    by (simp_all add: lenA)
  have fits: "j * n + n \<le> length (A @ replicate n None @ R)"
    by (simp add: lenA)
  have copy: "memcpy g1 (Some d) (int (j * n)) (Some s) (int (off j)) n =
      Inr (put g d (Some (A @ take n (drop (off j) scs) @ R)))"
    using memcpy_blocks [OF d(1) bd bs n(1) fits off(3)]
    by (simp only: pieces) (simp add: g1_def)
  have step: "Clip_row (Some d) (Some s) ns ss sl x c j (Inr g1) =
      Inr (put g d (Some (A @ take n (drop (off j) scs) @ R)))"
    using copy by (simp add: Clip_row_def off(1,2) n(2))
  show ?case
    by (simp add: IH step A_def R_def)
qed

lemma clip_arith:
  fixes W H C sl k x w :: int
  assumes "0 \<le> W" and "0 \<le> C" and "0 \<le> sl" and "0 \<le> k" and "k + sl + 1 \<le> H"
    and "0 \<le> x" and "0 \<le> w" and "x + w \<le> W"
  shows "0 \<le> ((k + sl) * W + x) * C"
    and "((k + sl) * W + x) * C + w * C \<le> W * H * C"
    and "W * C * (k + sl) \<le> W * H * C" and "0 \<le> W * C * (k + sl)"
    and "x * C \<le> W * H * C" and "W * C \<le> W * H * C" and "w * C \<le> W * H * C"
proof -
  have H1: "1 \<le> H" "k + sl \<le> H" "0 \<le> k + sl"
    using assms by simp_all
  have WC: "0 \<le> W * C"
    using assms by simp
  show "0 \<le> ((k + sl) * W + x) * C"
    using assms by simp
  have "(k + sl) * W + x + w \<le> (k + sl) * W + W"
    using assms by simp
  also have "\<dots> = (k + sl + 1) * W"
    by (simp add: algebra_simps)
  also have "\<dots> \<le> H * W"
    using assms by (intro mult_right_mono) simp_all
  finally have "((k + sl) * W + x + w) * C \<le> (H * W) * C"
    using assms by (intro mult_right_mono) simp_all
  then show "((k + sl) * W + x) * C + w * C \<le> W * H * C"
    by (simp add: algebra_simps)
  have "(W * C) * (k + sl) \<le> (W * C) * H"
    using WC H1 by (intro mult_left_mono) simp_all
  then show "W * C * (k + sl) \<le> W * H * C"
    by (simp add: algebra_simps)
  show "0 \<le> W * C * (k + sl)"
    using WC H1 by simp
  have one: "(W * C) * 1 \<le> (W * C) * H"
    using WC H1 by (intro mult_left_mono) simp_all
  then show "W * C \<le> W * H * C"
    by (simp add: algebra_simps)
  have "x * C \<le> W * C"
    using assms by (intro mult_right_mono) simp_all
  with one show "x * C \<le> W * H * C"
    by (simp add: algebra_simps)
  have "w * C \<le> W * C"
    using assms by (intro mult_right_mono) simp_all
  with one show "w * C \<le> W * H * C"
    by (simp add: algebra_simps)
qed

lemma concat_empty_rows: "concat (map (\<lambda>r. []) rs) = []"
  by (induction rs) simp_all

lemma Clip_empty:
  assumes "buffer (buffer' a) = Some p" and "blocks h p = Some cs"
    and "in_range a x y w ht" and "is_int32 (width' a)" and "is_int32 (height' a)"
    and "w = 0 \<or> ht = 0 \<or> channelCount' a = 0"
  shows "Clip h a x y w ht =
     Inr (put h p None,
          a\<lparr>errorHandler' := Clear (errorHandler' a), buffer' := \<lparr>buffer = None, source = Self\<rparr>,
            width' := w, height' := ht\<rparr>)"
proof -
  have "i32 (i32 (w * ht) * channelCount' a) = i32 (w * ht * channelCount' a)"
    by (rule i32_mult_left)
  also have "w * ht * channelCount' a = 0"
    using assms(6) by auto
  finally have sz: "size_t (i32 (i32 (w * ht) * channelCount' a)) = 0"
    by simp
  have loop: "fold (Clip_row None (Some p) (i32 (w * channelCount' a))
                 (i32 (width' a * channelCount' a)) (height' a - y - ht) x (channelCount' a))
               [0..<nat ht] (Inr h) = Inr h"
  proof (cases "ht = 0")
    case True
    then show ?thesis by simp
  next
    case False
    with assms(6) have "size_t (i32 (w * channelCount' a)) = 0"
      by auto
    then show ?thesis by (rule fold_Clip_row_no_bytes)
  qed
  have range: "0 \<le> height' a - y - ht" "height' a - y - ht \<le> height' a"
    "0 \<le> height' a - y" "height' a - y \<le> height' a"
    "0 \<le> x" "x \<le> width' a" "0 \<le> x + w" "x + w \<le> width' a"
    using assms(3) by (simp_all add: in_range_def)
  show ?thesis
    using assms(1,2) range
    by (simp add: Clip_def Let_def in_range_checks [OF assms(3,4,5)] sz AllocateBuffer_def loop
          ReleaseBuffer_def delete_array_def stbi_image_free_def split: BufferSource.split)
qed

lemma i32_bounded: "0 \<le> v \<Longrightarrow> v \<le> b \<Longrightarrow> b < 2147483648 \<Longrightarrow> i32 v = v"
  by (simp add: i32_def)

lemma size_t_bounded: "0 \<le> v \<Longrightarrow> v \<le> b \<Longrightarrow> b < 2147483648 \<Longrightarrow> size_t v = nat v"
  by (simp add: size_t_def)

text \<open>
  A call in range with a non-negative width and height, on an image whose buffer holds
  \<open>W * H * C\<close> bytes: \<open>Clip\<close> returns without an error, the new buffer holds the
  selected columns of the selected rows, and the size is the one asked for.
\<close>

lemma Clip_copies_rows:
  assumes wf: "well_formed h a" and range: "in_range a x y w ht" and nn: "0 \<le> w" "0 \<le> ht"
  shows "\<exists>h' a'. Clip h a x y w ht = Inr (h', a') \<and> pixels h' a' = clipped h a x y w ht \<and>
           width' a' = w \<and> height' a' = ht \<and> channelCount' a' = channelCount' a \<and>
           GetError a' = []"
proof -
  define W H C where "W = width' a" and "H = height' a" and "C = channelCount' a"
  define sl where "sl = H - y - ht"
  from wf obtain p cs where p: "buffer (buffer' a) = Some p" "blocks h p = Some cs"
    and m: "0 \<le> W" "0 \<le> H" "0 \<le> C" "W < 2147483648" "H < 2147483648"
      "W * H * C < 2147483648" "int (length cs) = W * H * C"
    by (auto simp add: well_formed_def W_def H_def C_def split: option.splits)
  have i32s: "is_int32 (width' a)" "is_int32 (height' a)"
    using m by (simp_all add: is_int32_def W_def H_def)
  have r: "0 \<le> sl" "sl + ht \<le> H" "0 \<le> x" "x + w \<le> W"
    using range by (simp_all add: in_range_def sl_def W_def H_def)
  show ?thesis
  proof (cases "w = 0 \<or> ht = 0 \<or> C = 0")
    case True
    have none: "clipped h a x y w ht = []"
    proof (cases "ht = 0")
      case True
      then show ?thesis by (simp add: clipped_def)
    next
      case False
      with \<open>w = 0 \<or> ht = 0 \<or> C = 0\<close> have "w * channelCount' a = 0"
        by (auto simp add: C_def)
      then show ?thesis
        unfolding clipped_def by (simp only: nat_0 take_0 concat_empty_rows)
    qed
    show ?thesis
      using True
      by (simp add: Clip_empty [OF p range i32s] C_def none pixels_def deref_def GetError_def
            Clear_def)
  next
    case False
    then have pos: "0 < w" "0 < ht" "0 < C"
      using nn m(3) by simp_all
    define n where "n = nat (w * C)"
    define mm where "mm = nat ht"
    define off where "off = (\<lambda>k. nat (((int k + sl) * W + x) * C))"
    define g where "g = h @ [Some (replicate (mm * n) (None :: cell))]"
    have ar: "0 \<le> ((k + sl) * W + x) * C" "((k + sl) * W + x) * C + w * C \<le> W * H * C"
        "W * C * (k + sl) \<le> W * H * C" "0 \<le> W * C * (k + sl)"
        "x * C \<le> W * H * C" "W * C \<le> W * H * C" "w * C \<le> W * H * C"
      if "0 \<le> k" "k < ht" for k
      using clip_arith [of W C sl k H x w] m(1,3) r nn(1) that by simp_all
    have b0: "x * C \<le> W * H * C" "W * C \<le> W * H * C" "w * C \<le> W * H * C"
      using ar(5,6,7) [OF order_refl pos(2)] .
    have nn0: "0 \<le> x * C" "0 \<le> W * C" "0 \<le> w * C"
      using pos m(1) r(3) by simp_all
    have wC: "i32 (w * C) = w * C"
      using nn0(3) b0(3) m(6) by (rule i32_bounded)
    have WC: "i32 (W * C) = W * C"
      using nn0(2) b0(2) m(6) by (rule i32_bounded)
    have xC: "i32 (x * C) = x * C"
      using nn0(1) b0(1) m(6) by (rule i32_bounded)
    have npos: "0 < n"
      using pos by (simp add: n_def)
    have nsz: "size_t (i32 (w * C)) = n"
      unfolding wC n_def using nn0(3) b0(3) m(6) by (rule size_t_bounded)
    have total: "w * ht * C \<le> W * H * C"
    proof -
      have "w \<le> W" "ht \<le> H"
        using r by simp_all
      then have "w * ht \<le> W * H"
        using nn by (intro mult_mono) simp_all
      then show ?thesis
        using m(3) by (intro mult_right_mono) simp_all
    qed
    have tot0: "0 \<le> w * ht * C"
      using pos by simp
    have N: "nat (w * ht * C) = mm * n"
      using pos by (simp add: mm_def n_def nat_mult_distrib algebra_simps)
    have Npos: "0 < mm * n"
      using pos by (simp add: mm_def n_def)
    have sz: "size_t (i32 (i32 (w * ht) * C)) = mm * n"
      unfolding i32_mult_left i32_bounded [OF tot0 total m(6)] N [symmetric]
      using tot0 total m(6) by (rule size_t_bounded)
    have small: "mm * n \<le> PTRDIFF_MAX"
    proof -
      have "int (mm * n) = w * ht * C"
        unfolding N [symmetric] using tot0 by simp
      with total m(6) have "int (mm * n) < 2147483648"
        by linarith
      then show ?thesis
        unfolding PTRDIFF_MAX_def by linarith
    qed
    have alloc: "AllocateBuffer h (mm * n) = Inr (g, \<lparr>buffer = Some (length h), source = Self\<rparr>)"
      using Npos small by (simp add: AllocateBuffer_def new_array_def g_def)
    have d: "length h \<noteq> p" "length h < length g"
      using blocks_Some_less [OF p(2)] by (simp_all add: g_def)
    have bp: "blocks g p = Some cs"
      using p(2) d(1) by (simp add: g_def)
    have bd: "blocks g (length h) = Some (replicate (mm * n) None)"
      by (simp add: g_def)
    have doff: "\<forall>k<mm. i32 (w * C * int k) = int (k * n)"
    proof (intro allI impI)
      fix k assume k: "k < mm"
      have "int k \<le> ht"
        using k by (simp add: mm_def)
      then have "w * C * int k \<le> w * C * ht"
        using nn0(3) by (intro mult_left_mono) simp_all
      then have le: "w * C * int k \<le> W * H * C"
        using total by (simp add: algebra_simps)
      have "0 \<le> w * C * int k"
        using nn0(3) by simp
      then have "i32 (w * C * int k) = w * C * int k"
        using le m(6) by (rule i32_bounded)
      also have "\<dots> = int (k * n)"
        using nn0(3) by (simp add: n_def)
      finally show "i32 (w * C * int k) = int (k * n)" .
    qed
    have soff: "\<forall>k<mm. i32 (W * C * i32 (int k + sl)) + i32 (x * C) = int (off k)"
    proof (intro allI impI)
      fix k assume k: "k < mm"
      have k': "0 \<le> int k" "int k < ht"
        using k by (simp_all add: mm_def)
      have "int k + sl \<le> H"
        using k' r by simp
      with m(5) have "int k + sl < 2147483648"
        by simp
      then have row: "i32 (int k + sl) = int k + sl"
        using r(1) by (intro i32_id) simp_all
      have "i32 (W * C * (int k + sl)) = W * C * (int k + sl)"
        using ar(4,3) [OF k'] m(6) by (rule i32_bounded)
      then have "i32 (W * C * i32 (int k + sl)) + i32 (x * C) = W * C * (int k + sl) + x * C"
        by (simp only: row xC)
      also have "\<dots> = ((int k + sl) * W + x) * C"
        by (simp add: algebra_simps)
      also have "\<dots> = int (off k)"
        using ar(1) [OF k'] by (simp only: off_def int_nat_eq if_True)
      finally show "i32 (W * C * i32 (int k + sl)) + i32 (x * C) = int (off k)" .
    qed
    have bound: "\<forall>k<mm. off k + n \<le> length cs"
    proof (intro allI impI)
      fix k assume k: "k < mm"
      have k': "0 \<le> int k" "int k < ht"
        using k by (simp_all add: mm_def)
      have "int (off k + n) = ((int k + sl) * W + x) * C + w * C"
        using ar(1) [OF k'] nn0(3) by (simp add: off_def n_def)
      also have "\<dots> \<le> W * H * C"
        using ar(2) [OF k'] .
      finally show "off k + n \<le> length cs"
        using m(7) by linarith
    qed
    have loop: "fold (Clip_row (Some (length h)) (Some p) (w * C) (W * C) sl x C) [0..<mm] (Inr g) =
        Inr (put g (length h) (Some (concat (map (\<lambda>k. take n (drop (off k) cs)) [0..<mm]))))"
      using fold_Clip_row_copies [OF d bp npos nsz [unfolded wC] doff soff bound order_refl]
      by (simp add: put_same [OF bd])
    define rows where "rows = concat (map (\<lambda>k. take n (drop (off k) cs)) [0..<mm])"
    define a' where "a' = a\<lparr>errorHandler' := Clear (errorHandler' a),
        buffer' := \<lparr>buffer = Some (length h), source = Self\<rparr>, width' := w, height' := ht\<rparr>"
    have checks: "0 \<le> height' a - y - ht" "height' a - y - ht \<le> height' a"
      "0 \<le> height' a - y" "height' a - y \<le> height' a"
      "0 \<le> x" "x \<le> width' a" "0 \<le> x + w" "x + w \<le> width' a"
      using range by (simp_all add: in_range_def)
    have clip: "Clip h a x y w ht = Inr (put (put g (length h) (Some rows)) p None, a')"
      using p(1) bp d(1) checks
      by (simp add: Clip_def Let_def in_range_checks [OF range i32s]
            sz [unfolded C_def] alloc wC [unfolded C_def] WC [unfolded W_def C_def]
            loop [folded rows_def, unfolded W_def C_def sl_def H_def mm_def]
            ReleaseBuffer_def delete_array_def stbi_image_free_def a'_def
            split: BufferSource.split)
    have px: "pixels (put (put g (length h) (Some rows)) p None) a' = rows"
      using d by (simp add: pixels_def deref_def a'_def)
    have upper: "nat (H - y) = mm + nat sl"
      using r(1) pos by (simp add: mm_def sl_def)
    have "clipped h a x y w ht =
        concat (map (\<lambda>r. take n (drop (nat ((int r * W + x) * C)) cs)) [nat sl..<mm + nat sl])"
      using p by (simp add: clipped_def pixels_def deref_def n_def W_def C_def H_def sl_def
            upper [unfolded H_def sl_def])
    also have "\<dots> = concat (map (\<lambda>k. take n (drop (nat ((int (k + nat sl) * W + x) * C)) cs)) [0..<mm])"
      by (simp only: map_add_upt [of "nat sl" mm, symmetric] map_map comp_def)
    also have "\<dots> = rows"
      using r(1) by (simp add: rows_def off_def)
    finally have "pixels (put (put g (length h) (Some rows)) p None) a' = clipped h a x y w ht"
      using px by simp
    then show ?thesis
      using clip by (simp add: a'_def GetError_def Clear_def)
  qed
qed

lemma i32_above:
  assumes "2147483648 \<le> v" and "v < 6442450944"
  shows "i32 v = v - 4294967296"
proof -
  have "(v + 2147483648) mod 4294967296 = (v - 2147483648 + 4294967296 * 1) mod 4294967296"
    by (rule arg_cong [where f = "\<lambda>z. z mod 4294967296"]) simp
  also have "\<dots> = (v - 2147483648) mod 4294967296"
    by (simp only: mod_mult_self2)
  also have "\<dots> = v - 2147483648"
    using assms by simp
  finally show ?thesis
    by (simp add: i32_def)
qed

lemma i32_not_negative:
  assumes "- 2147483648 \<le> v" and "v < 4294967296" and "0 \<le> i32 v"
  shows "i32 v = v"
proof (cases "v < 2147483648")
  case True
  with assms(1) show ?thesis by (simp add: i32_id)
next
  case False
  then have "i32 v = v - 4294967296"
    using assms(2) by (intro i32_above) simp_all
  with assms(2,3) show ?thesis by simp
qed

text \<open>
  A call out of range with \<^verbatim>\<open>int32_t\<close> arguments: \<open>Clip\<close> sets the error and changes
  nothing else. The differences and the sum of the checks wrap around only to negative
  values, which the checks reject.
\<close>

lemma Clip_out_of_range:
  assumes p: "buffer (buffer' a) = Some p"
    and m: "0 \<le> width' a" "width' a < 2147483648" "0 \<le> height' a" "height' a < 2147483648"
    and args: "is_int32 x" "is_int32 y" "is_int32 w" "is_int32 ht"
    and out: "\<not> in_range a x y w ht"
  shows "Clip h a x y w ht =
     Inr (h, a\<lparr>errorHandler' := SetError (Clear (errorHandler' a)) ERROR_STR_IMAGE_SIZE_OVERFLOW\<rparr>)"
proof -
  define endLine where "endLine = i32 (height' a - y)"
  define startLine where "startLine = i32 (endLine - ht)"
  define endPixel where "endPixel = i32 (x + w)"
  have e: "endLine = height' a - y" if "0 \<le> endLine"
    unfolding endLine_def using m args(2) that
    by (intro i32_not_negative) (simp_all add: is_int32_def endLine_def)
  have s: "startLine = endLine - ht" if "0 \<le> endLine" "endLine \<le> height' a" "0 \<le> startLine"
    unfolding startLine_def using m args(4) that
    by (intro i32_not_negative) (simp_all add: is_int32_def startLine_def)
  have q: "endPixel = x + w" if "0 \<le> x" "x \<le> width' a" "0 \<le> endPixel"
    unfolding endPixel_def using m args(1,3) that
    by (intro i32_not_negative) (simp_all add: is_int32_def endPixel_def)
  have "startLine < 0 \<or> startLine > height' a \<or> endLine < 0 \<or> endLine > height' a \<or>
        x < 0 \<or> x > width' a \<or> endPixel < 0 \<or> endPixel > width' a"
  proof (rule ccontr)
    assume "\<not> ?thesis"
    then have c: "0 \<le> startLine" "startLine \<le> height' a" "0 \<le> endLine" "endLine \<le> height' a"
        "0 \<le> x" "x \<le> width' a" "0 \<le> endPixel" "endPixel \<le> width' a"
      by simp_all
    have "in_range a x y w ht"
      using c e [OF c(3)] s [OF c(3,4,1)] q [OF c(5,6,7)] by (simp add: in_range_def)
    with out show False ..
  qed
  then show ?thesis
    using p by (simp add: Clip_def Let_def endLine_def [symmetric] startLine_def [symmetric]
          endPixel_def [symmetric])
qed

section \<open>What a failing load keeps\<close>

lemma stb_finish_failure:
  assumes "stb_finish h (b\<lparr>errorHandler' := Clear e\<rparr>) r = Inr (h', b')" and "GetError b' \<noteq> []"
  shows "buffer_kept h b h' b'"
  using assms
  by (auto simp add: stb_finish_def stb_stored_def decoder_block_def Let_def buffer_kept_def
        GetError_def Clear_def
        split: stb_result.splits option.splits sum.splits prod.splits)

lemma LoadFromFile_failure:
  assumes "LoadFromFile ev h b path = Inr (h', b')" and "GetError b' \<noteq> []"
  shows "buffer_kept h b h' b'"
  using assms stb_finish_failure by (simp add: LoadFromFile_def Let_def)

lemma LoadFile_failure:
  assumes "LoadFile ev h b bs = Inr (h', b')" and "GetError b' \<noteq> []"
  shows "buffer_kept h b h' b'"
  using assms stb_finish_failure by (simp add: LoadFile_def Let_def)

lemma LoadWebP_failure:
  assumes "LoadWebP ev h b bs = Inr (h', b')" and "GetError b' \<noteq> []"
  shows "buffer_kept h b h' b'"
  using assms
  by (auto simp add: LoadWebP_def Let_def buffer_kept_def new_array_def scope_exit_def
        GetError_def Clear_def
        split: option.splits sum.splits prod.splits if_splits)

lemma LoadJpeg_failure:
  assumes "LoadJpeg ev h b bs = Inr (h', b')" and "GetError b' \<noteq> []"
  shows "buffer_kept h b h' b'"
  using assms
  by (auto simp add: LoadJpeg_def Let_def buffer_kept_def new_array_def scope_exit_def
        GetError_def Clear_def
        split: option.splits sum.splits prod.splits if_splits tj_header.splits)

lemma LoadWebPFromFile_failure:
  assumes "LoadWebPFromFile ev h b path = Inr (h', b')" and "GetError b' \<noteq> []"
  shows "buffer_kept h b h' b'"
proof (cases "h' = h \<and> buffer' b' = buffer' b")
  case True
  then show ?thesis by (simp add: buffer_kept_def)
next
  case False
  with assms(1) obtain bs where
    "LoadWebP ev h (b\<lparr>errorHandler' := Clear (errorHandler' b)\<rparr>) bs = Inr (h', b')"
    by (auto simp add: LoadWebPFromFile_def Let_def split: file_io.splits if_splits)
  from LoadWebP_failure [OF this assms(2)] show ?thesis
    by (simp add: buffer_kept_def)
qed

lemma LoadJpegFromFile_failure:
  assumes "LoadJpegFromFile ev h b path = Inr (h', b')" and "GetError b' \<noteq> []"
  shows "buffer_kept h b h' b'"
proof (cases "h' = h \<and> buffer' b' = buffer' b")
  case True
  then show ?thesis by (simp add: buffer_kept_def)
next
  case False
  with assms(1) obtain bs where
    "LoadJpeg ev h (b\<lparr>errorHandler' := Clear (errorHandler' b)\<rparr>) bs = Inr (h', b')"
    by (auto simp add: LoadJpegFromFile_def Let_def split: file_io.splits if_splits)
  from LoadJpeg_failure [OF this assms(2)] show ?thesis
    by (simp add: buffer_kept_def)
qed

text \<open>
  What a failing load does keep: when \<open>Load\<close> of a path or of a file's bytes returns
  with an error message, the instance has the buffer it had, and every block of the
  store is as it was.
\<close>

lemma Load_path_failure:
  assumes "Load_path ev h b path = Inr (h', b')" and "GetError b' \<noteq> []"
  shows "buffer_kept h b h' b'"
proof (cases "h' = h \<and> buffer' b' = buffer' b")
  case True
  then show ?thesis by (simp add: buffer_kept_def)
next
  case False
  define b0 where "b0 = b\<lparr>errorHandler' := Clear (errorHandler' b)\<rparr>"
  from False assms(1) have
    "LoadWebPFromFile ev h b0 path = Inr (h', b') \<or>
     LoadJpegFromFile ev h b0 path = Inr (h', b') \<or>
     LoadFromFile ev h b0 path = Inr (h', b')"
    by (auto simp add: Load_path_def Let_def b0_def split: file_io.splits if_splits)
  then have "buffer_kept h b0 h' b'"
    using assms(2) by (auto dest: LoadWebPFromFile_failure LoadJpegFromFile_failure LoadFromFile_failure)
  then show ?thesis
    by (simp add: buffer_kept_def b0_def)
qed

lemma Load_bytes_failure:
  assumes "Load_bytes ev h b bs = Inr (h', b')" and "GetError b' \<noteq> []"
  shows "buffer_kept h b h' b'"
proof -
  define b0 where "b0 = b\<lparr>errorHandler' := Clear (errorHandler' b)\<rparr>"
  from assms(1) have
    "LoadWebP ev h b0 bs = Inr (h', b') \<or> LoadJpeg ev h b0 bs = Inr (h', b') \<or>
     LoadFile ev h b0 bs = Inr (h', b')"
    by (auto simp add: Load_bytes_def Let_def b0_def split: if_splits)
  then have "buffer_kept h b0 h' b'"
    using assms(2) by (auto dest: LoadWebP_failure LoadJpeg_failure LoadFile_failure)
  then show ?thesis
    by (simp add: buffer_kept_def b0_def)
qed

lemma failing_load_keeps_pixels:
  assumes "buffer_kept h b h' b'" and "owns h b"
  shows "pixels h' b' = pixels h b"
  using assms
  by (auto simp add: buffer_kept_def owns_def pixels_def deref_def
        split: option.splits dest: blocks_Some_less)

end
